theory Spec2Isabelle
  imports Complex_Main "HOL-Library.Monad_Syntax" "HOL-Library.Multiset"
begin

section \<open>Attention blocks of \<^verbatim>\<open>acp/modules/attention.py\<close>\<close>

text \<open>
  The file defines seven \<^verbatim>\<open>nn.Module\<close> classes: \<^verbatim>\<open>MAB\<close>, \<^verbatim>\<open>SAB\<close>,
  \<^verbatim>\<open>StackedSAB\<close>, \<^verbatim>\<open>PMA\<close>, \<^verbatim>\<open>ISAB\<close>, \<^verbatim>\<open>StackedISAB\<close> and \<^verbatim>\<open>aPMA\<close>.
  Each class is a record of its attributes, \<^verbatim>\<open>__init__\<close> is a function returning the
  record or the exception it raises, and \<^verbatim>\<open>forward\<close> is a function from the record and
  the input tensors to the output tensor, \<open>None\<close> when a tensor operation raises
  (a \<^verbatim>\<open>RuntimeError\<close> for operands whose shapes do not fit).

  What the embedding idealises:
  \<^item> A float is a \<^typ>\<open>real\<close>: no rounding, no overflow, and tensors given to
    \<^verbatim>\<open>forward\<close> hold finite values. The two places where the code itself produces
    non-finite values (\<^verbatim>\<open>masked_fill_\<close> with \<^verbatim>\<open>-inf\<close>, and the \<^verbatim>\<open>NaN\<close> of a softmax
    over a row of \<^verbatim>\<open>-inf\<close>) have types of their own below. Where a property depends
    on values that leave the range of \<^verbatim>\<open>float32\<close> (what masked-out elements can do
    to the output), \<^verbatim>\<open>MAB.forward\<close> is embedded a second time, over finite numbers,
    infinities and \<^verbatim>\<open>NaN\<close>, and the property is settled there.
  \<^item> A tensor of shape \<^verbatim>\<open>[b, n, d]\<close> is a list of \<open>b\<close> lists of \<open>n\<close> rows of \<open>d\<close>
    reals. Only rank 3 inputs are modelled (the branch \<^verbatim>\<open>X.dim() == 2\<close> of
    \<^verbatim>\<open>PMA.forward\<close> is outside the input type). A nested list does not record the
    sizes of the axes inside an axis of size 0; where the code needs such a size it is
    taken from the module (the width of a projection) and passed explicitly.
  \<^item> The shape checks of the tensor operations accept operands of the sizes the
    operation needs and reject all others; the broadcasting of an axis of size 1
    against a longer one, which shapes that fit never need, is rejected too.
  \<^item> Dropout layers act as in evaluation mode, where \<^verbatim>\<open>nn.Dropout\<close> is the identity;
    the random masks of training mode are not modelled.
\<close>

type_synonym vec = "real list"
type_synonym tensor2 = "real list list"
type_synonym tensor3 = "real list list list"

subsection \<open>Tensor operations\<close>

definition dot :: "vec \<Rightarrow> vec \<Rightarrow> real" where
  "dot x y = sum_list (map2 (*) x y)"

text \<open>Whether two tensors have the same shape.\<close>

definition same_shape :: "'a list list list \<Rightarrow> 'b list list list \<Rightarrow> bool" where
  "same_shape A B \<longleftrightarrow> map (map length) A = map (map length) B"

text \<open>
  \<^verbatim>\<open>nn.Linear(in_features, out_features)\<close>: \<^verbatim>\<open>weight\<close> has shape
  \<^verbatim>\<open>[out_features, in_features]\<close>, \<^verbatim>\<open>bias\<close> has shape \<^verbatim>\<open>[out_features]\<close>, and the
  layer maps a row \<open>x\<close> to \<open>x W\<^sup>T + b\<close>. It raises when the last axis of its input is not
  \<^verbatim>\<open>in_features\<close> wide.
\<close>

record Linear =
  in_features :: nat
  out_features :: nat
  weight :: tensor2
  bias :: vec

definition linear_row :: "Linear \<Rightarrow> vec \<Rightarrow> vec" where
  "linear_row L x = map2 (\<lambda>w b. dot x w + b) (weight L) (bias L)"

definition apply_linear :: "Linear \<Rightarrow> tensor3 \<Rightarrow> tensor3 option" where
  "apply_linear L X =
     (if \<forall>x \<in> set X. \<forall>r \<in> set x. length r = in_features L
      then Some (map (map (linear_row L)) X) else None)"

text \<open>
  \<^verbatim>\<open>torch.chunk(chunks, dim)\<close> raises for \<^verbatim>\<open>chunks <= 0\<close>; otherwise it cuts an axis of
  size \<open>d\<close> into pieces of \<open>\<lceil>d / chunks\<rceil>\<close> entries, the last one possibly shorter, so it
  may return fewer than \<^verbatim>\<open>chunks\<close> pieces. An axis of size 0 gives \<^verbatim>\<open>chunks\<close> empty
  pieces.
\<close>

definition split_size :: "nat \<Rightarrow> nat \<Rightarrow> nat" where
  "split_size d c = (d + c - 1) div c"

definition num_chunks :: "nat \<Rightarrow> nat \<Rightarrow> nat" where
  "num_chunks d c =
     (if d = 0 then c else max ((d + split_size d c - 1) div split_size d c) 1)"

definition slice :: "nat \<Rightarrow> nat \<Rightarrow> 'a list \<Rightarrow> 'a list" where
  "slice s h xs = take s (drop (h * s) xs)"

text \<open>\<^verbatim>\<open>T.chunk(c, 0)\<close>: along the first axis.\<close>

definition chunk :: "int \<Rightarrow> 'a list \<Rightarrow> 'a list list option" where
  "chunk c T =
     (if c \<le> 0 then None
      else Some (map (\<lambda>h. slice (split_size (length T) (nat c)) h T)
                  [0..<num_chunks (length T) (nat c)]))"

text \<open>\<^verbatim>\<open>T.chunk(c, -1)\<close>: along the last axis, whose size \<open>d\<close> is given.\<close>

definition chunk_last :: "int \<Rightarrow> nat \<Rightarrow> 'a list list list \<Rightarrow> 'a list list list list option" where
  "chunk_last c d T =
     (if c \<le> 0 then None
      else Some (map (\<lambda>h. map (map (slice (split_size d (nat c)) h)) T)
                  [0..<num_chunks d (nat c)]))"

text \<open>
  \<^verbatim>\<open>torch.cat(Ts, 0)\<close> raises for an empty list and for tensors whose sizes differ in
  another axis than the first.
\<close>

definition uniform :: "'a list list \<Rightarrow> bool" where
  "uniform xs \<longleftrightarrow> (\<forall>x \<in> set xs. length x = length (hd xs))"

definition cat0 :: "'a list list list list \<Rightarrow> 'a list list list option" where
  "cat0 Ts =
     (if Ts \<noteq> [] \<and> uniform (concat Ts) \<and> uniform (concat (concat Ts))
      then Some (concat Ts) else None)"

text \<open>\<^verbatim>\<open>torch.cat([A, B], 1)\<close>: the sizes of the first and the last axis must agree.\<close>

definition cat1 :: "tensor3 \<Rightarrow> tensor3 \<Rightarrow> tensor3 option" where
  "cat1 A B =
     (if length A = length B \<and> uniform (concat A @ concat B)
      then Some (map2 (@) A B) else None)"

text \<open>
  \<^verbatim>\<open>torch.cat(Ts, -1)\<close>: the sizes of the first two axes must agree; entry \<open>[b][i]\<close> of the
  result is the concatenation of the rows \<open>[b][i]\<close> of the pieces.
\<close>

definition cat_last :: "'a list list list list \<Rightarrow> 'a list list list option" where
  "cat_last Ts =
     (if Ts \<noteq> [] \<and> (\<forall>T \<in> set Ts. map length T = map length (hd Ts))
      then Some (map (\<lambda>b. map (\<lambda>i. concat (map (\<lambda>T. T ! b ! i) Ts))
                             [0..<length (hd Ts ! b)])
                  [0..<length (hd Ts)])
      else None)"

text \<open>
  \<^verbatim>\<open>A @ B.transpose(-2, -1)\<close>, a batch of matrix products: entry \<open>[b][i][j]\<close> is the dot
  product of row \<open>i\<close> of \<open>A[b]\<close> and row \<open>j\<close> of \<open>B[b]\<close>, so the rows of both must have
  the same width.
\<close>

definition matmul_nt :: "tensor3 \<Rightarrow> tensor3 \<Rightarrow> tensor3 option" where
  "matmul_nt A B =
     (if length A = length B \<and>
         (\<forall>(a, b) \<in> set (zip A B). \<forall>r \<in> set a. \<forall>c \<in> set b. length r = length c)
      then Some (map2 (\<lambda>a b. map (\<lambda>r. map (dot r) b) a) A B) else None)"

text \<open>\<^verbatim>\<open>B.transpose(-2, -1)\<close> for \<open>B\<close> of shape \<^verbatim>\<open>[_, _, w]\<close>.\<close>

definition transpose_last :: "nat \<Rightarrow> 'a list list list \<Rightarrow> 'a list list list" where
  "transpose_last w B = map (\<lambda>M. map (\<lambda>c. map (\<lambda>r. r ! c) M) [0..<w]) B"

text \<open>\<^verbatim>\<open>A @ B\<close> for \<open>B\<close> of shape \<^verbatim>\<open>[_, _, w]\<close>.\<close>

definition matmul :: "nat \<Rightarrow> tensor3 \<Rightarrow> tensor3 \<Rightarrow> tensor3 option" where
  "matmul w A B = matmul_nt A (transpose_last w B)"

definition add3 :: "tensor3 \<Rightarrow> tensor3 \<Rightarrow> tensor3 option" where
  "add3 A B = (if same_shape A B then Some (map2 (map2 (map2 (+))) A B) else None)"

definition relu :: "tensor3 \<Rightarrow> tensor3" where
  "relu X = map (map (map (max 0))) X"

subsection \<open>Masking and softmax\<close>

text \<open>
  An entry of \<^verbatim>\<open>A_logits\<close> after \<^verbatim>\<open>masked_fill_(mask == 0, -float('inf'))\<close> is a finite
  value or \<^verbatim>\<open>-inf\<close>; an entry of its softmax is a finite value or \<^verbatim>\<open>NaN\<close>.
\<close>

datatype logit = Logit real | NegInf

datatype weight = Weight real | NaN

fun exp_logit :: "logit \<Rightarrow> real" where
  "exp_logit (Logit x) = exp x"
| "exp_logit NegInf = 0"

text \<open>
  \<^verbatim>\<open>torch.softmax(_, -1)\<close> of a row \<open>l\<close> is \<open>exp l\<^sub>i / \<Sum>\<^sub>j exp l\<^sub>j\<close>. The denominator is a
  sum of the numerators, which are not negative: it is 0 only when every numerator
  is, that is when every entry is \<^verbatim>\<open>-inf\<close>, and then every quotient is \<^verbatim>\<open>0/0 = NaN\<close>.
\<close>

definition softmax_inf :: "logit list \<Rightarrow> weight list" where
  "softmax_inf l =
     (let e = map exp_logit l; z = sum_list e
      in map (\<lambda>x. if z = 0 then NaN else Weight (x / z)) e)"

text \<open>The same function on a row of finite values.\<close>

definition softmax :: "vec \<Rightarrow> vec" where
  "softmax l = (let e = map exp l; z = sum_list e in map (\<lambda>x. x / z) e)"

text \<open>
  \<^verbatim>\<open>torch.stack([mask]*Q.shape[-2], -2)\<close>: every row of the mask \<^verbatim>\<open>[batch, ny]\<close> is
  repeated \<open>nx\<close> times; \<^verbatim>\<open>torch.stack\<close> raises for the empty list, that is for \<open>nx = 0\<close>.
  \<open>nx\<close> is read from the first batch element of \<open>Q\<close>.
\<close>

definition stack_mask :: "'a list list list \<Rightarrow> tensor2 \<Rightarrow> tensor3 option" where
  "stack_mask Q msk =
     (case Q of
        [] \<Rightarrow> Some (map (replicate 0) msk)
      | q # _ \<Rightarrow> if q = [] then None else Some (map (replicate (length q)) msk))"

text \<open>\<^verbatim>\<open>A_logits.masked_fill_(mask == 0, -float('inf'))\<close>\<close>

definition fill_neg_inf :: "real \<Rightarrow> real \<Rightarrow> logit" where
  "fill_neg_inf mv a = (if mv = 0 then NegInf else Logit a)"

definition masked_fill_neg_inf :: "tensor3 \<Rightarrow> tensor3 \<Rightarrow> logit list list list option" where
  "masked_fill_neg_inf msk A =
     (if same_shape msk A then Some (map2 (map2 (map2 fill_neg_inf)) msk A) else None)"

text \<open>\<^verbatim>\<open>A.masked_fill(torch.isnan(A), 0.0)\<close>\<close>

fun nan_to_zero :: "weight \<Rightarrow> real" where
  "nan_to_zero NaN = 0"
| "nan_to_zero (Weight x) = x"

subsection \<open>Normalisation and dropout layers\<close>

text \<open>
  \<^verbatim>\<open>nn.LayerNorm(dim)\<close> with its \<^verbatim>\<open>weight\<close>, \<^verbatim>\<open>bias\<close> and \<^verbatim>\<open>eps\<close> normalises every row
  with the mean and the (biased) variance of the row; it raises when the rows are not
  \<^verbatim>\<open>dim\<close> wide. \<^verbatim>\<open>nn.Identity()\<close> returns its input.
\<close>

datatype norm = Identity_norm | LayerNorm nat vec vec real

definition layer_norm_row :: "vec \<Rightarrow> vec \<Rightarrow> real \<Rightarrow> vec \<Rightarrow> vec" where
  "layer_norm_row g b eps x =
     (let n = real (length x);
          mu = sum_list x / n;
          var = sum_list (map (\<lambda>v. (v - mu)\<^sup>2) x) / n
      in map (\<lambda>(v, g, b). (v - mu) / sqrt (var + eps) * g + b) (zip x (zip g b)))"

fun apply_norm :: "norm \<Rightarrow> tensor3 \<Rightarrow> tensor3 option" where
  "apply_norm Identity_norm X = Some X"
| "apply_norm (LayerNorm d g b eps) X =
     (if \<forall>x \<in> set X. \<forall>r \<in> set x. length r = d
      then Some (map (map (layer_norm_row g b eps)) X) else None)"

datatype dropout = Identity_dropout | Dropout real

fun apply_dropout :: "dropout \<Rightarrow> 'a list list list \<Rightarrow> 'a list list list" where
  "apply_dropout Identity_dropout X = X"
| "apply_dropout (Dropout p) X = X"

subsection \<open>MAB\<close>

record MAB =
  num_heads :: int
  fc_q :: Linear
  fc_k :: Linear
  fc_v :: Linear
  fc_o :: Linear
  ln1 :: norm
  ln2 :: norm
  dropout1 :: dropout
  dropout2 :: dropout
  residual :: bool

text \<open>
  Lines 50 to 52 of \<^verbatim>\<open>MAB.forward\<close>, \<^verbatim>\<open>torch.cat(T.chunk(self.num_heads, -1), 0)\<close>:
  the heads are cut out of the last axis (of size \<open>d\<close>) and stacked along the batch
  axis, head after head.
\<close>

definition split_heads :: "int \<Rightarrow> nat \<Rightarrow> 'a list list list \<Rightarrow> 'a list list list option" where
  "split_heads nh d T = do { Tc \<leftarrow> chunk_last nh d T; cat0 Tc }"

text \<open>
  Line 57: \<^verbatim>\<open>A_logits = (Q_ @ K_.transpose(-2, -1)) / math.sqrt(Q.shape[-1])\<close>, where
  \<^verbatim>\<open>Q.shape[-1]\<close> is the width of the output of \<^verbatim>\<open>fc_q\<close>. (For the width 0 the floats
  are \<^verbatim>\<open>0/0\<close>, which the reals do not follow; well-shaped blocks have a positive
  width.)
\<close>

definition MAB_logits :: "MAB \<Rightarrow> tensor3 \<Rightarrow> tensor3 \<Rightarrow> tensor3 option" where
  "MAB_logits m Q' K' = do {
     QK \<leftarrow> matmul_nt Q' K';
     Some (map (map (map (\<lambda>a. a / sqrt (real (out_features (fc_q m)))))) QK)
   }"

text \<open>Lines 59 to 67: the attention weights, with and without a mask.\<close>

definition MAB_weights :: "MAB \<Rightarrow> tensor3 \<Rightarrow> tensor3 \<Rightarrow> tensor2 option \<Rightarrow> tensor3 option" where
  "MAB_weights m Q A_logits msk =
     (case msk of
        Some mk \<Rightarrow> do {
          msk1 \<leftarrow> stack_mask Q mk;
          msk2 \<leftarrow> cat0 (replicate (nat (num_heads m)) msk1);
          A_inf \<leftarrow> masked_fill_neg_inf msk2 A_logits;
          Some (map (map (\<lambda>l. map nan_to_zero (softmax_inf l))) A_inf)
        }
      | None \<Rightarrow> Some (map (map softmax) A_logits))"

text \<open>Lines 50 to 70: from the projections to the attention output \<^verbatim>\<open>attn\<close>.\<close>

definition MAB_attn :: "MAB \<Rightarrow> tensor3 \<Rightarrow> tensor3 \<Rightarrow> tensor3 \<Rightarrow> tensor2 option \<Rightarrow> tensor3 option" where
  "MAB_attn m Q K V msk = do {
     Q' \<leftarrow> split_heads (num_heads m) (out_features (fc_q m)) Q;
     K' \<leftarrow> split_heads (num_heads m) (out_features (fc_k m)) K;
     V' \<leftarrow> split_heads (num_heads m) (out_features (fc_v m)) V;
     A_logits \<leftarrow> MAB_logits m Q' K';
     A \<leftarrow> MAB_weights m Q A_logits msk;
     AV \<leftarrow> matmul (split_size (out_features (fc_v m)) (nat (num_heads m))) A V';
     AVc \<leftarrow> chunk (num_heads m) AV;
     cat_last AVc
   }"

text \<open>Lines 71 to 76: the two combination steps.\<close>

definition MAB_combine :: "MAB \<Rightarrow> tensor3 \<Rightarrow> tensor3 \<Rightarrow> tensor3 option" where
  "MAB_combine m Q attn =
     (if residual m then do {
        S1 \<leftarrow> add3 Q (apply_dropout (dropout1 m) attn);
        O1 \<leftarrow> apply_norm (ln1 m) S1;
        F \<leftarrow> apply_linear (fc_o m) O1;
        S2 \<leftarrow> add3 O1 (apply_dropout (dropout2 m) (relu F));
        apply_norm (ln2 m) S2
      } else do {
        O1 \<leftarrow> apply_norm (ln1 m) (apply_dropout (dropout1 m) attn);
        F \<leftarrow> apply_linear (fc_o m) O1;
        S2 \<leftarrow> add3 O1 (apply_dropout (dropout2 m) (relu F));
        apply_norm (ln2 m) S2
      })"

definition MAB_forward :: "MAB \<Rightarrow> tensor3 \<Rightarrow> tensor3 \<Rightarrow> tensor2 option \<Rightarrow> tensor3 option" where
  "MAB_forward m X Y msk = do {
     Q \<leftarrow> apply_linear (fc_q m) X;
     K \<leftarrow> apply_linear (fc_k m) Y;
     V \<leftarrow> apply_linear (fc_v m) Y;
     attn \<leftarrow> MAB_attn m Q K V msk;
     MAB_combine m Q attn
   }"

text \<open>
  \<^verbatim>\<open>MAB.__init__\<close>. The keyword arguments that the other classes pass on as
  \<^verbatim>\<open>**kwargs\<close> are a record; \<^verbatim>\<open>default_kwargs\<close> holds the defaults of the signature.
  The values that \<^verbatim>\<open>nn.Linear\<close> draws for its weight and bias are given as functions
  of the position. \<^verbatim>\<open>nn.Linear\<close> raises a \<^verbatim>\<open>RuntimeError\<close> for a negative size,
  \<^verbatim>\<open>nn.Dropout\<close> a \<^verbatim>\<open>ValueError\<close> for a probability outside \<open>[0, 1]\<close>, and
  \<^verbatim>\<open>nn.LayerNorm\<close> starts with weight 1, bias 0 and \<^verbatim>\<open>eps = 1e-5\<close>.
\<close>

datatype error = RuntimeError | ValueError | ZeroDivisionError

record kwargs =
  kw_num_heads :: int
  kw_ln :: bool
  kw_p :: "real option"
  kw_residual :: bool

definition default_kwargs :: kwargs where
  "default_kwargs = \<lparr>kw_num_heads = 4, kw_ln = False, kw_p = None, kw_residual = True\<rparr>"

type_synonym linear_draw = "(nat \<Rightarrow> nat \<Rightarrow> real) \<times> (nat \<Rightarrow> real)"

definition bind_error :: "error + 'a \<Rightarrow> ('a \<Rightarrow> error + 'b) \<Rightarrow> error + 'b" where
  "bind_error r f = (case r of Inl e \<Rightarrow> Inl e | Inr x \<Rightarrow> f x)"

definition Linear_init :: "int \<Rightarrow> int \<Rightarrow> linear_draw \<Rightarrow> error + Linear" where
  "Linear_init n_in n_out dr =
     (if n_in < 0 \<or> n_out < 0 then Inl RuntimeError
      else Inr \<lparr>in_features = nat n_in, out_features = nat n_out,
                weight = map (\<lambda>r. map (fst dr r) [0..<nat n_in]) [0..<nat n_out],
                bias = map (snd dr) [0..<nat n_out]\<rparr>)"

definition LayerNorm_init :: "int \<Rightarrow> norm" where
  "LayerNorm_init dim' =
     LayerNorm (nat dim') (replicate (nat dim') 1) (replicate (nat dim') 0) (1 / 100000)"

definition Dropout_init :: "real \<Rightarrow> error + dropout" where
  "Dropout_init p = (if p < 0 \<or> p > 1 then Inl ValueError else Inr (Dropout p))"

record MAB_draw =
  draw_q :: linear_draw
  draw_k :: linear_draw
  draw_v :: linear_draw
  draw_o :: linear_draw

definition MAB_init :: "int \<Rightarrow> int \<Rightarrow> int \<Rightarrow> kwargs \<Rightarrow> MAB_draw \<Rightarrow> error + MAB" where
  "MAB_init dim_X dim_Y dim' kw dr =
     bind_error (Linear_init dim_X dim' (draw_q dr)) (\<lambda>q.
     bind_error (Linear_init dim_Y dim' (draw_k dr)) (\<lambda>k.
     bind_error (Linear_init dim_Y dim' (draw_v dr)) (\<lambda>v.
     bind_error (Linear_init dim' dim' (draw_o dr)) (\<lambda>out.
     bind_error (case kw_p kw of None \<Rightarrow> Inr Identity_dropout | Some p \<Rightarrow> Dropout_init p) (\<lambda>d1.
     bind_error (case kw_p kw of None \<Rightarrow> Inr Identity_dropout | Some p \<Rightarrow> Dropout_init p) (\<lambda>d2.
       Inr \<lparr>num_heads = kw_num_heads kw,
            fc_q = q, fc_k = k, fc_v = v, fc_o = out,
            ln1 = (if kw_ln kw then LayerNorm_init dim' else Identity_norm),
            ln2 = (if kw_ln kw then LayerNorm_init dim' else Identity_norm),
            dropout1 = d1, dropout2 = d2,
            residual = kw_residual kw\<rparr>))))))"

subsection \<open>SAB and StackedSAB\<close>

record SAB =
  sab_mab :: MAB

definition SAB_init :: "int \<Rightarrow> int \<Rightarrow> kwargs \<Rightarrow> MAB_draw \<Rightarrow> error + SAB" where
  "SAB_init dim_X dim' kw dr =
     bind_error (MAB_init dim_X dim_X dim' kw dr) (\<lambda>m. Inr \<lparr>sab_mab = m\<rparr>)"

definition SAB_forward :: "SAB \<Rightarrow> tensor3 \<Rightarrow> tensor2 option \<Rightarrow> tensor3 option" where
  "SAB_forward s X msk = MAB_forward (sab_mab s) X X msk"

text \<open>
  \<^verbatim>\<open>self.blocks\<close> is a list of references to module objects: the objects that
  \<^verbatim>\<open>__init__\<close> creates are kept in \<open>ssab_objects\<close>, in the order of their creation, and
  \<open>ssab_blocks\<close> holds their positions there. \<^verbatim>\<open>[SAB(dim, dim)]*(num_blocks-1)\<close>
  creates one object and repeats the reference to it (no reference for a count that
  is not positive).
\<close>

record StackedSAB =
  ssab_objects :: "SAB list"
  ssab_blocks :: "nat list"

definition StackedSAB_init ::
  "int \<Rightarrow> int \<Rightarrow> int \<Rightarrow> kwargs \<Rightarrow> MAB_draw \<Rightarrow> MAB_draw \<Rightarrow> error + StackedSAB" where
  "StackedSAB_init dim_X dim' num_blocks kw dr1 dr2 =
     bind_error (SAB_init dim_X dim' kw dr1) (\<lambda>first.
     bind_error (SAB_init dim' dim' kw dr2) (\<lambda>second.
       Inr \<lparr>ssab_objects = [first, second],
            ssab_blocks = [0] @ replicate (nat (num_blocks - 1)) 1\<rparr>))"

fun SAB_loop :: "SAB list \<Rightarrow> nat list \<Rightarrow> tensor3 \<Rightarrow> tensor2 option \<Rightarrow> tensor3 option" where
  "SAB_loop objs [] X msk = Some X"
| "SAB_loop objs (r # rs) X msk = do {
     X' \<leftarrow> SAB_forward (objs ! r) X msk;
     SAB_loop objs rs X' msk
   }"

definition StackedSAB_forward :: "StackedSAB \<Rightarrow> tensor3 \<Rightarrow> tensor2 option \<Rightarrow> tensor3 option" where
  "StackedSAB_forward S X msk = SAB_loop (ssab_objects S) (ssab_blocks S) X msk"

subsection \<open>PMA\<close>

record PMA =
  pma_I :: tensor2
  pma_mab :: MAB

text \<open>
  \<^verbatim>\<open>torch.Tensor(num_inds, dim)\<close> raises for a negative size. \<^verbatim>\<open>xavier_uniform_\<close> divides
  by the sum \<open>dim + num_inds\<close> of the fans, so it raises when both sizes are 0; the values
  it draws are given as a function of the position.
\<close>

definition PMA_init ::
  "int \<Rightarrow> int \<Rightarrow> int \<Rightarrow> kwargs \<Rightarrow> (nat \<Rightarrow> nat \<Rightarrow> real) \<Rightarrow> MAB_draw \<Rightarrow> error + PMA" where
  "PMA_init dim_X dim' num_inds kw seed dr =
     (if num_inds < 0 \<or> dim' < 0 then Inl RuntimeError
      else if num_inds = 0 \<and> dim' = 0 then Inl ZeroDivisionError
      else bind_error (MAB_init dim' dim_X dim' kw dr) (\<lambda>m.
        Inr \<lparr>pma_I = map (\<lambda>r. map (seed r) [0..<nat dim']) [0..<nat num_inds],
             pma_mab = m\<rparr>))"

text \<open>\<^verbatim>\<open>self.I.repeat(X.shape[0], 1, 1)\<close> for \<open>X\<close> of rank 3.\<close>

definition PMA_forward :: "PMA \<Rightarrow> tensor3 \<Rightarrow> tensor2 option \<Rightarrow> tensor3 option" where
  "PMA_forward P X msk = MAB_forward (pma_mab P) (replicate (length X) (pma_I P)) X msk"

subsection \<open>ISAB and StackedISAB\<close>

record ISAB =
  isab_pma :: PMA
  isab_mab :: MAB

record ISAB_draw =
  draw_seed :: "nat \<Rightarrow> nat \<Rightarrow> real"
  draw_pma :: MAB_draw
  draw_mab :: MAB_draw

definition ISAB_init :: "int \<Rightarrow> int \<Rightarrow> int \<Rightarrow> kwargs \<Rightarrow> ISAB_draw \<Rightarrow> error + ISAB" where
  "ISAB_init dim_X dim' num_inds kw dr =
     bind_error (PMA_init dim_X dim' num_inds kw (draw_seed dr) (draw_pma dr)) (\<lambda>p.
     bind_error (MAB_init dim_X dim' dim' kw (draw_mab dr)) (\<lambda>m.
       Inr \<lparr>isab_pma = p, isab_mab = m\<rparr>))"

definition ISAB_forward :: "ISAB \<Rightarrow> tensor3 \<Rightarrow> tensor2 option \<Rightarrow> tensor3 option" where
  "ISAB_forward B X msk = do {
     H \<leftarrow> PMA_forward (isab_pma B) X msk;
     MAB_forward (isab_mab B) X H None
   }"

record StackedISAB =
  sisab_objects :: "ISAB list"
  sisab_blocks :: "nat list"

definition StackedISAB_init ::
  "int \<Rightarrow> int \<Rightarrow> int \<Rightarrow> int \<Rightarrow> kwargs \<Rightarrow> ISAB_draw \<Rightarrow> ISAB_draw \<Rightarrow> error + StackedISAB" where
  "StackedISAB_init dim_X dim' num_inds num_blocks kw dr1 dr2 =
     bind_error (ISAB_init dim_X dim' num_inds kw dr1) (\<lambda>first.
     bind_error (ISAB_init dim' dim' num_inds kw dr2) (\<lambda>second.
       Inr \<lparr>sisab_objects = [first, second],
            sisab_blocks = [0] @ replicate (nat (num_blocks - 1)) 1\<rparr>))"

fun ISAB_loop :: "ISAB list \<Rightarrow> nat list \<Rightarrow> tensor3 \<Rightarrow> tensor2 option \<Rightarrow> tensor3 option" where
  "ISAB_loop objs [] X msk = Some X"
| "ISAB_loop objs (r # rs) X msk = do {
     X' \<leftarrow> ISAB_forward (objs ! r) X msk;
     ISAB_loop objs rs X' msk
   }"

definition StackedISAB_forward :: "StackedISAB \<Rightarrow> tensor3 \<Rightarrow> tensor2 option \<Rightarrow> tensor3 option" where
  "StackedISAB_forward S X msk = ISAB_loop (sisab_objects S) (sisab_blocks S) X msk"

subsection \<open>aPMA\<close>

record aPMA =
  apma_I0 :: tensor3
  apma_pma :: PMA
  apma_mab :: MAB

text \<open>
  \<^verbatim>\<open>aPMA.__init__\<close>: \<^verbatim>\<open>torch.Tensor(1, 1, dim)\<close> raises for a negative \<open>dim\<close>, and
  \<^verbatim>\<open>xavier_uniform_\<close> on this shape has the fans \<open>dim\<close> and \<open>dim\<close>, so it divides by 0 for
  \<open>dim = 0\<close>. Then come \<^verbatim>\<open>PMA(dim, dim, 1)\<close> and \<^verbatim>\<open>MAB(dim, dim_X, dim)\<close>.
\<close>

record aPMA_draw =
  draw_I0 :: "nat \<Rightarrow> real"
  draw_apma_seed :: "nat \<Rightarrow> nat \<Rightarrow> real"
  draw_apma_pma :: MAB_draw
  draw_apma_mab :: MAB_draw

definition aPMA_init :: "int \<Rightarrow> int \<Rightarrow> kwargs \<Rightarrow> aPMA_draw \<Rightarrow> error + aPMA" where
  "aPMA_init dim_X dim' kw dr =
     (if dim' < 0 then Inl RuntimeError
      else if dim' = 0 then Inl ZeroDivisionError
      else bind_error (PMA_init dim' dim' 1 kw (draw_apma_seed dr) (draw_apma_pma dr)) (\<lambda>p.
           bind_error (MAB_init dim' dim_X dim' kw (draw_apma_mab dr)) (\<lambda>m.
             Inr \<lparr>apma_I0 = [[map (draw_I0 dr) [0..<nat dim']]], apma_pma = p, apma_mab = m\<rparr>)))"

text \<open>
  The loop \<^verbatim>\<open>for i in range(1, num_iters): I = torch.cat([I, self.pma(I)], 1)\<close>, with
  the number of iterations left as its counter.
\<close>

fun aPMA_loop :: "PMA \<Rightarrow> nat \<Rightarrow> tensor3 \<Rightarrow> tensor3 option" where
  "aPMA_loop P 0 I = Some I"
| "aPMA_loop P (Suc n) I = do {
     J \<leftarrow> PMA_forward P I None;
     I' \<leftarrow> cat1 I J;
     aPMA_loop P n I'
   }"

text \<open>\<^verbatim>\<open>I.repeat(X.shape[0], 1, 1)\<close> repeats \<open>I\<close> along the batch axis.\<close>

definition aPMA_forward :: "aPMA \<Rightarrow> tensor3 \<Rightarrow> int \<Rightarrow> tensor3 option" where
  "aPMA_forward a X num_iters = do {
     I \<leftarrow> aPMA_loop (apma_pma a) (nat (num_iters - 1)) (apma_I0 a);
     MAB_forward (apma_mab a) (concat (replicate (length X) I)) X None
   }"

subsection \<open>Well-shaped modules and inputs\<close>

definition wf_tensor :: "nat \<Rightarrow> nat \<Rightarrow> nat \<Rightarrow> 'a list list list \<Rightarrow> bool" where
  "wf_tensor b n d X \<longleftrightarrow>
     length X = b \<and> (\<forall>x \<in> set X. length x = n \<and> (\<forall>r \<in> set x. length r = d))"

definition wf_mask :: "nat \<Rightarrow> nat \<Rightarrow> tensor2 option \<Rightarrow> bool" where
  "wf_mask b n msk \<longleftrightarrow>
     (case msk of None \<Rightarrow> True
      | Some mk \<Rightarrow> length mk = b \<and> (\<forall>r \<in> set mk. length r = n))"

definition wf_Linear :: "nat \<Rightarrow> nat \<Rightarrow> Linear \<Rightarrow> bool" where
  "wf_Linear n_in n_out L \<longleftrightarrow>
     in_features L = n_in \<and> out_features L = n_out \<and> length (weight L) = n_out \<and>
     (\<forall>w \<in> set (weight L). length w = n_in) \<and> length (bias L) = n_out"

fun wf_norm :: "nat \<Rightarrow> norm \<Rightarrow> bool" where
  "wf_norm d Identity_norm \<longleftrightarrow> True"
| "wf_norm d (LayerNorm d' g b eps) \<longleftrightarrow> d' = d \<and> length g = d \<and> length b = d"

text \<open>
  A block with projections of the widths \<open>dim_X\<close>, \<open>dim_Y\<close> and \<open>dim\<close>, where \<open>dim\<close> is
  positive and a multiple of the number of heads.
\<close>

definition wf_MAB :: "nat \<Rightarrow> nat \<Rightarrow> nat \<Rightarrow> MAB \<Rightarrow> bool" where
  "wf_MAB dim_X dim_Y dim' m \<longleftrightarrow>
     wf_Linear dim_X dim' (fc_q m) \<and> wf_Linear dim_Y dim' (fc_k m) \<and>
     wf_Linear dim_Y dim' (fc_v m) \<and> wf_Linear dim' dim' (fc_o m) \<and>
     wf_norm dim' (ln1 m) \<and> wf_norm dim' (ln2 m) \<and>
     0 < num_heads m \<and> nat (num_heads m) dvd dim' \<and> 0 < dim'"

subsection \<open>\<^verbatim>\<open>MAB.forward\<close> row by row\<close>

text \<open>
  On well-shaped inputs every row of the output of \<^verbatim>\<open>MAB.forward\<close> is a function of one
  row of \<open>X\<close>, of the set \<open>Y[b]\<close> and of the mask row of the same batch element. The
  functions below compute it; \<open>MAB_forward_rows\<close> proves that \<^verbatim>\<open>MAB.forward\<close> agrees
  with them. Tensors are tabulated by position for the proofs: \<open>tab2\<close> over a batch and
  a set axis, \<open>head_blocks\<close> over the heads stacked along the batch axis.
\<close>

definition tab2 :: "nat \<Rightarrow> nat \<Rightarrow> (nat \<Rightarrow> nat \<Rightarrow> 'a) \<Rightarrow> 'a list list" where
  "tab2 b n f = map (\<lambda>i. map (f i) [0..<n]) [0..<b]"

definition head_blocks :: "nat \<Rightarrow> nat \<Rightarrow> (nat \<Rightarrow> nat \<Rightarrow> 'a) \<Rightarrow> 'a list" where
  "head_blocks nh b f = concat (map (\<lambda>h. map (f h) [0..<b]) [0..<nh])"

definition hb3 :: "nat \<Rightarrow> nat \<Rightarrow> nat \<Rightarrow> (nat \<Rightarrow> nat \<Rightarrow> nat \<Rightarrow> 'a) \<Rightarrow> 'a list list" where
  "hb3 nh b n f = head_blocks nh b (\<lambda>h i. map (f h i) [0..<n])"

definition norm_row :: "norm \<Rightarrow> vec \<Rightarrow> vec" where
  "norm_row N r = (case N of Identity_norm \<Rightarrow> r | LayerNorm d g b eps \<Rightarrow> layer_norm_row g b eps r)"

text \<open>The width of one head.\<close>

definition head_dim :: "MAB \<Rightarrow> nat" where
  "head_dim m = out_features (fc_q m) div nat (num_heads m)"

text \<open>The logits of head \<open>h\<close> for the projected query \<open>q\<close> against the projected keys.\<close>

definition logit_row :: "MAB \<Rightarrow> nat \<Rightarrow> vec \<Rightarrow> tensor2 \<Rightarrow> vec" where
  "logit_row m h q Kb =
     map (\<lambda>k. dot (slice (head_dim m) h q) (slice (head_dim m) h k)
               / sqrt (real (out_features (fc_q m)))) Kb"

text \<open>The attention weights of a row of logits, under a mask row or without a mask.\<close>

definition weight_row :: "vec option \<Rightarrow> vec \<Rightarrow> vec" where
  "weight_row mr l =
     (case mr of None \<Rightarrow> softmax l
      | Some r \<Rightarrow> map nan_to_zero (softmax_inf (map2 fill_neg_inf r l)))"

definition head_row :: "MAB \<Rightarrow> nat \<Rightarrow> vec option \<Rightarrow> tensor2 \<Rightarrow> tensor2 \<Rightarrow> vec \<Rightarrow> vec" where
  "head_row m h mr Kb Vb q =
     map (\<lambda>c. dot (weight_row mr (logit_row m h q Kb)) (map (\<lambda>v. slice (head_dim m) h v ! c) Vb))
       [0..<head_dim m]"

definition attn_row :: "MAB \<Rightarrow> vec option \<Rightarrow> tensor2 \<Rightarrow> tensor2 \<Rightarrow> vec \<Rightarrow> vec" where
  "attn_row m mr Kb Vb q = concat (map (\<lambda>h. head_row m h mr Kb Vb q) [0..<nat (num_heads m)])"

definition mask_row :: "tensor2 option \<Rightarrow> nat \<Rightarrow> vec option" where
  "mask_row msk i = map_option (\<lambda>M. M ! i) msk"

definition combine_row :: "MAB \<Rightarrow> vec \<Rightarrow> vec \<Rightarrow> vec" where
  "combine_row m q a =
     (let o1 = norm_row (ln1 m) (if residual m then map2 (+) q a else a)
      in norm_row (ln2 m) (map2 (+) o1 (map (max 0) (linear_row (fc_o m) o1))))"

definition MAB_row :: "MAB \<Rightarrow> vec option \<Rightarrow> tensor2 \<Rightarrow> vec \<Rightarrow> vec" where
  "MAB_row m mr Yb x =
     (let q = linear_row (fc_q m) x
      in combine_row m q
           (attn_row m mr (map (linear_row (fc_k m)) Yb) (map (linear_row (fc_v m)) Yb) q))"

subsection \<open>Permutations of the set axis\<close>


definition permute :: "nat list \<Rightarrow> 'a list \<Rightarrow> 'a list" where
  "permute p xs = map (\<lambda>i. xs ! i) p"

definition permute_sets :: "nat list list \<Rightarrow> 'a list list \<Rightarrow> 'a list list" where
  "permute_sets ps X = map2 permute ps X"


subsection \<open>The specification's wording\<close>

text \<open>
  Section 4.1, step 6: with \<^verbatim>\<open>residual=True\<close>, \<open>O1 = Norm1(Q + Dropout(attn))\<close> on the
  full projected \<open>Q\<close>; with \<^verbatim>\<open>residual=False\<close>, \<open>O1 = Norm1(Dropout(attn))\<close>; in both
  cases \<open>O = Norm2(O1 + Dropout(ReLU(Linear_O(O1))))\<close>.
\<close>

definition spec_second_step :: "MAB \<Rightarrow> tensor3 \<Rightarrow> tensor3 option" where
  "spec_second_step m O1 = do {
     F \<leftarrow> apply_linear (fc_o m) O1;
     S \<leftarrow> add3 O1 (apply_dropout (dropout2 m) (relu F));
     apply_norm (ln2 m) S
   }"

definition spec_combine :: "MAB \<Rightarrow> tensor3 \<Rightarrow> tensor3 \<Rightarrow> tensor3 option" where
  "spec_combine m Q attn = do {
     O1 \<leftarrow> (if residual m
            then do { S \<leftarrow> add3 Q (apply_dropout (dropout1 m) attn); apply_norm (ln1 m) S }
            else apply_norm (ln1 m) (apply_dropout (dropout1 m) attn));
     spec_second_step m O1
   }"

text \<open>
  Section 4.5: first \<open>H = PMA(X, mask)\<close>, then \<open>MAB(X, H)\<close> without a mask.
\<close>

definition spec_ISAB :: "ISAB \<Rightarrow> tensor3 \<Rightarrow> tensor2 option \<Rightarrow> tensor3 option" where
  "spec_ISAB B X msk =
     (case PMA_forward (isab_pma B) X msk of
        None \<Rightarrow> None
      | Some H \<Rightarrow> MAB_forward (isab_mab B) X H None)"

text \<open>
  Section 4.7: starting from \<open>I0\<close>, every additional iteration computes one new seed
  \<open>PMA(I)\<close> and appends it to \<open>I\<close>.
\<close>

fun spec_seeds :: "PMA \<Rightarrow> tensor3 \<Rightarrow> nat \<Rightarrow> tensor3 option" where
  "spec_seeds P I0 0 = Some I0"
| "spec_seeds P I0 (Suc j) = do {
     I \<leftarrow> spec_seeds P I0 j;
     J \<leftarrow> PMA_forward P I None;
     cat1 I J
   }"

text \<open>One and the same block function applied \<open>n\<close> times in sequence.\<close>

fun repeat_block :: "(tensor3 \<Rightarrow> tensor3 option) \<Rightarrow> nat \<Rightarrow> tensor3 \<Rightarrow> tensor3 option" where
  "repeat_block f 0 X = Some X"
| "repeat_block f (Suc n) X = f X \<bind> repeat_block f n"

subsection \<open>Well-shaped composite modules\<close>



text \<open>
  A pooling block with at least one seed of the width \<open>dim\<close>; an induced block; an
  adaptive pooling block, whose initial seed has the shape \<^verbatim>\<open>[1, 1, dim]\<close> and whose
  \<^verbatim>\<open>pma\<close> pools seeds of the width \<open>dim\<close> to one seed.
\<close>

definition wf_PMA :: "nat \<Rightarrow> nat \<Rightarrow> nat \<Rightarrow> PMA \<Rightarrow> bool" where
  "wf_PMA dim_X dim' num_inds P \<longleftrightarrow>
     wf_MAB dim' dim_X dim' (pma_mab P) \<and> 0 < num_inds \<and>
     length (pma_I P) = num_inds \<and> (\<forall>r \<in> set (pma_I P). length r = dim')"


definition wf_aPMA :: "nat \<Rightarrow> nat \<Rightarrow> aPMA \<Rightarrow> bool" where
  "wf_aPMA dim_X dim' a \<longleftrightarrow>
     wf_tensor 1 1 dim' (apma_I0 a) \<and> wf_PMA dim' dim' 1 (apma_pma a) \<and>
     wf_MAB dim' dim_X dim' (apma_mab a)"

subsection \<open>Small instances\<close>

text \<open>
  Blocks of width 1 with one head, without normalisation and dropout: the key
  projection is 0 (so every logit is 0), the value projection is the identity and
  the output projection is 0.
\<close>

definition lin1 :: "real \<Rightarrow> real \<Rightarrow> Linear" where
  "lin1 w b = \<lparr>in_features = 1, out_features = 1, weight = [[w]], bias = [b]\<rparr>"

definition mab1 :: "real \<Rightarrow> bool \<Rightarrow> MAB" where
  "mab1 wq res =
     \<lparr>num_heads = 1, fc_q = lin1 wq 0, fc_k = lin1 0 0, fc_v = lin1 1 0, fc_o = lin1 0 0,
      ln1 = Identity_norm, ln2 = Identity_norm,
      dropout1 = Identity_dropout, dropout2 = Identity_dropout, residual = res\<rparr>"

definition isab1 :: ISAB where
  "isab1 = \<lparr>isab_pma = \<lparr>pma_I = [[0]], pma_mab = mab1 1 True\<rparr>, isab_mab = mab1 1 True\<rparr>"



definition pma1 :: PMA where
  "pma1 = \<lparr>pma_I = [[0]], pma_mab = mab1 1 True\<rparr>"

definition apma1 :: aPMA where
  "apma1 = \<lparr>apma_I0 = [[[0]]], apma_pma = pma1, apma_mab = mab1 1 True\<rparr>"

text \<open>A block of width 2 with two heads, on inputs of width 1.\<close>

definition mab2 :: MAB where
  "mab2 =
     \<lparr>num_heads = 2,
      fc_q = \<lparr>in_features = 1, out_features = 2, weight = [[1], [1]], bias = [0, 0]\<rparr>,
      fc_k = \<lparr>in_features = 1, out_features = 2, weight = [[1], [1]], bias = [0, 0]\<rparr>,
      fc_v = \<lparr>in_features = 1, out_features = 2, weight = [[1], [1]], bias = [0, 0]\<rparr>,
      fc_o = \<lparr>in_features = 2, out_features = 2, weight = [[0, 0], [0, 0]], bias = [0, 0]\<rparr>,
      ln1 = Identity_norm, ln2 = Identity_norm,
      dropout1 = Identity_dropout, dropout2 = Identity_dropout, residual = True\<rparr>"

text \<open>Keyword arguments with two heads, and draws that give every weight 1 and every bias 0.\<close>

definition kw2 :: kwargs where
  "kw2 = \<lparr>kw_num_heads = 2, kw_ln = False, kw_p = None, kw_residual = True\<rparr>"

definition draw1 :: MAB_draw where
  "draw1 = \<lparr>draw_q = (\<lambda>r c. 1, \<lambda>r. 0), draw_k = (\<lambda>r c. 1, \<lambda>r. 0),
             draw_v = (\<lambda>r c. 1, \<lambda>r. 0), draw_o = (\<lambda>r c. 1, \<lambda>r. 0)\<rparr>"

definition idraw1 :: ISAB_draw where
  "idraw1 = \<lparr>draw_seed = (\<lambda>r c. 0), draw_pma = draw1, draw_mab = draw1\<rparr>"

text \<open>Stacks of three blocks of width 2 with two heads, on inputs of width 1.\<close>

definition ssab3 :: StackedSAB where
  "ssab3 = projr (StackedSAB_init 1 2 3 kw2 draw1 draw1)"

definition sisab3 :: StackedISAB where
  "sisab3 = projr (StackedISAB_init 1 2 1 3 kw2 idraw1 idraw1)"

section \<open>\<^verbatim>\<open>MAB.forward\<close> on the value range of \<^verbatim>\<open>float32\<close>\<close>

text \<open>
  A finite input can leave the range of \<^verbatim>\<open>float32\<close> inside \<^verbatim>\<open>forward\<close>: a projection
  whose exact value is too large is \<^verbatim>\<open>inf\<close>, and \<^verbatim>\<open>0 * inf\<close>, \<^verbatim>\<open>inf - inf\<close> and \<^verbatim>\<open>0 / 0\<close>
  are \<^verbatim>\<open>NaN\<close>. The reals above have none of these values, so this section embeds
  \<^verbatim>\<open>MAB.forward\<close> a second time, line by line as above, over values that are a finite
  number, \<^verbatim>\<open>+inf\<close>, \<^verbatim>\<open>-inf\<close> or \<^verbatim>\<open>NaN\<close>, with the arithmetic of IEEE 754 on them.
  The result of an operation on finite numbers is the exact result when that lies in
  the range, and the infinity of its sign when its magnitude reaches
  \<^verbatim>\<open>2^128 - 2^103\<close>, from where on rounding to nearest gives an infinity. What
  stays idealised: the rounding of results inside the range (so no underflow either),
  and the sign of a zero. The parameters of the layers and the mask are finite, and
  the module is the record \<open>MAB\<close> above.
\<close>

datatype f32 = Num real | PosInf | MinusInf | Nan

type_synonym fvec = "f32 list"
type_synonym ftensor3 = "f32 list list list"

definition overflow_bound :: real where
  "overflow_bound = 2 ^ 128 - 2 ^ 103"

definition rnd :: "real \<Rightarrow> f32" where
  "rnd r = (if overflow_bound \<le> r then PosInf
            else if r \<le> - overflow_bound then MinusInf else Num r)"

fun is_finite :: "f32 \<Rightarrow> bool" where
  "is_finite (Num a) \<longleftrightarrow> True"
| "is_finite PosInf \<longleftrightarrow> False"
| "is_finite MinusInf \<longleftrightarrow> False"
| "is_finite Nan \<longleftrightarrow> False"

text \<open>The infinity of the sign of a number that is not 0.\<close>

definition signed_inf :: "real \<Rightarrow> f32" where
  "signed_inf a = (if 0 < a then PosInf else MinusInf)"

fun fp_neg :: "f32 \<Rightarrow> f32" where
  "fp_neg (Num a) = Num (- a)"
| "fp_neg PosInf = MinusInf"
| "fp_neg MinusInf = PosInf"
| "fp_neg Nan = Nan"

fun fp_add :: "f32 \<Rightarrow> f32 \<Rightarrow> f32" where
  "fp_add (Num a) (Num b) = rnd (a + b)"
| "fp_add (Num a) PosInf = PosInf"
| "fp_add (Num a) MinusInf = MinusInf"
| "fp_add PosInf (Num b) = PosInf"
| "fp_add PosInf PosInf = PosInf"
| "fp_add PosInf MinusInf = Nan"
| "fp_add MinusInf (Num b) = MinusInf"
| "fp_add MinusInf PosInf = Nan"
| "fp_add MinusInf MinusInf = MinusInf"
| "fp_add Nan y = Nan"
| "fp_add x Nan = Nan"

definition fp_sub :: "f32 \<Rightarrow> f32 \<Rightarrow> f32" where
  "fp_sub x y = fp_add x (fp_neg y)"

fun fp_mul :: "f32 \<Rightarrow> f32 \<Rightarrow> f32" where
  "fp_mul (Num a) (Num b) = rnd (a * b)"
| "fp_mul (Num a) PosInf = (if a = 0 then Nan else signed_inf a)"
| "fp_mul (Num a) MinusInf = (if a = 0 then Nan else signed_inf (- a))"
| "fp_mul PosInf (Num b) = (if b = 0 then Nan else signed_inf b)"
| "fp_mul MinusInf (Num b) = (if b = 0 then Nan else signed_inf (- b))"
| "fp_mul PosInf PosInf = PosInf"
| "fp_mul PosInf MinusInf = MinusInf"
| "fp_mul MinusInf PosInf = MinusInf"
| "fp_mul MinusInf MinusInf = PosInf"
| "fp_mul Nan y = Nan"
| "fp_mul x Nan = Nan"

fun fp_div :: "f32 \<Rightarrow> f32 \<Rightarrow> f32" where
  "fp_div (Num a) (Num b) =
     (if b = 0 then (if a = 0 then Nan else signed_inf a) else rnd (a / b))"
| "fp_div (Num a) PosInf = Num 0"
| "fp_div (Num a) MinusInf = Num 0"
| "fp_div PosInf (Num b) = (if 0 \<le> b then PosInf else MinusInf)"
| "fp_div MinusInf (Num b) = (if 0 \<le> b then MinusInf else PosInf)"
| "fp_div PosInf PosInf = Nan"
| "fp_div PosInf MinusInf = Nan"
| "fp_div MinusInf PosInf = Nan"
| "fp_div MinusInf MinusInf = Nan"
| "fp_div Nan y = Nan"
| "fp_div x Nan = Nan"

fun fp_exp :: "f32 \<Rightarrow> f32" where
  "fp_exp (Num a) = rnd (exp a)"
| "fp_exp PosInf = PosInf"
| "fp_exp MinusInf = Num 0"
| "fp_exp Nan = Nan"

fun fp_sqrt :: "f32 \<Rightarrow> f32" where
  "fp_sqrt (Num a) = (if a < 0 then Nan else Num (sqrt a))"
| "fp_sqrt PosInf = PosInf"
| "fp_sqrt MinusInf = Nan"
| "fp_sqrt Nan = Nan"

text \<open>The maximum as \<^verbatim>\<open>torch\<close> takes it: a \<^verbatim>\<open>NaN\<close> operand gives \<^verbatim>\<open>NaN\<close>.\<close>

fun fp_max :: "f32 \<Rightarrow> f32 \<Rightarrow> f32" where
  "fp_max (Num a) (Num b) = Num (max a b)"
| "fp_max (Num a) PosInf = PosInf"
| "fp_max (Num a) MinusInf = Num a"
| "fp_max PosInf (Num b) = PosInf"
| "fp_max PosInf PosInf = PosInf"
| "fp_max PosInf MinusInf = PosInf"
| "fp_max MinusInf (Num b) = Num b"
| "fp_max MinusInf PosInf = PosInf"
| "fp_max MinusInf MinusInf = MinusInf"
| "fp_max Nan y = Nan"
| "fp_max x Nan = Nan"

text \<open>A sum is accumulated from the left, starting from 0.\<close>

definition fp_sum :: "fvec \<Rightarrow> f32" where
  "fp_sum xs = foldl fp_add (Num 0) xs"

definition dot_fp :: "fvec \<Rightarrow> fvec \<Rightarrow> f32" where
  "dot_fp x y = fp_sum (map2 fp_mul x y)"

definition linear_row_fp :: "Linear \<Rightarrow> fvec \<Rightarrow> fvec" where
  "linear_row_fp L x = map2 (\<lambda>w b. fp_add (dot_fp x (map Num w)) (Num b)) (weight L) (bias L)"

definition apply_linear_fp :: "Linear \<Rightarrow> ftensor3 \<Rightarrow> ftensor3 option" where
  "apply_linear_fp L X =
     (if \<forall>x \<in> set X. \<forall>r \<in> set x. length r = in_features L
      then Some (map (map (linear_row_fp L)) X) else None)"

definition matmul_nt_fp :: "ftensor3 \<Rightarrow> ftensor3 \<Rightarrow> ftensor3 option" where
  "matmul_nt_fp A B =
     (if length A = length B \<and>
         (\<forall>(a, b) \<in> set (zip A B). \<forall>r \<in> set a. \<forall>c \<in> set b. length r = length c)
      then Some (map2 (\<lambda>a b. map (\<lambda>r. map (dot_fp r) b) a) A B) else None)"

definition matmul_fp :: "nat \<Rightarrow> ftensor3 \<Rightarrow> ftensor3 \<Rightarrow> ftensor3 option" where
  "matmul_fp w A B = matmul_nt_fp A (transpose_last w B)"

definition add3_fp :: "ftensor3 \<Rightarrow> ftensor3 \<Rightarrow> ftensor3 option" where
  "add3_fp A B = (if same_shape A B then Some (map2 (map2 (map2 fp_add)) A B) else None)"

text \<open>\<^verbatim>\<open>F.relu\<close> is the maximum with 0, and \<^verbatim>\<open>NaN\<close> for \<^verbatim>\<open>NaN\<close>.\<close>

definition relu_fp :: "ftensor3 \<Rightarrow> ftensor3" where
  "relu_fp X = map (map (map (fp_max (Num 0)))) X"

text \<open>
  \<^verbatim>\<open>torch.softmax(_, -1)\<close> of a row \<open>l\<close> subtracts the maximum \<open>m\<close> of the row first:
  entry \<open>i\<close> is \<open>exp (l\<^sub>i - m) / \<Sum>\<^sub>j exp (l\<^sub>j - m)\<close>. For a row of \<^verbatim>\<open>-inf\<close> the differences
  are \<^verbatim>\<open>-inf - (-inf) = NaN\<close>, and so is every entry of the result.
\<close>

definition fp_max_list :: "fvec \<Rightarrow> f32" where
  "fp_max_list l = foldr fp_max l MinusInf"

definition softmax_fp :: "fvec \<Rightarrow> fvec" where
  "softmax_fp l =
     (let mx = fp_max_list l; e = map (\<lambda>x. fp_exp (fp_sub x mx)) l; z = fp_sum e
      in map (\<lambda>x. fp_div x z) e)"

text \<open>\<^verbatim>\<open>A_logits.masked_fill_(mask == 0, -float('inf'))\<close>\<close>

definition fill_neg_inf_fp :: "real \<Rightarrow> f32 \<Rightarrow> f32" where
  "fill_neg_inf_fp mv a = (if mv = 0 then MinusInf else a)"

definition masked_fill_neg_inf_fp :: "tensor3 \<Rightarrow> ftensor3 \<Rightarrow> ftensor3 option" where
  "masked_fill_neg_inf_fp msk A =
     (if same_shape msk A then Some (map2 (map2 (map2 fill_neg_inf_fp)) msk A) else None)"

text \<open>\<^verbatim>\<open>A.masked_fill(torch.isnan(A), 0.0)\<close>\<close>

fun nan_to_zero_fp :: "f32 \<Rightarrow> f32" where
  "nan_to_zero_fp Nan = Num 0"
| "nan_to_zero_fp (Num a) = Num a"
| "nan_to_zero_fp PosInf = PosInf"
| "nan_to_zero_fp MinusInf = MinusInf"

definition layer_norm_row_fp :: "vec \<Rightarrow> vec \<Rightarrow> real \<Rightarrow> fvec \<Rightarrow> fvec" where
  "layer_norm_row_fp g b eps x =
     (let n = Num (real (length x));
          mu = fp_div (fp_sum x) n;
          var = fp_div (fp_sum (map (\<lambda>v. fp_mul (fp_sub v mu) (fp_sub v mu)) x)) n
      in map (\<lambda>(v, g, b).
                fp_add (fp_mul (fp_div (fp_sub v mu) (fp_sqrt (fp_add var (Num eps)))) (Num g))
                  (Num b))
           (zip x (zip g b)))"

fun apply_norm_fp :: "norm \<Rightarrow> ftensor3 \<Rightarrow> ftensor3 option" where
  "apply_norm_fp Identity_norm X = Some X"
| "apply_norm_fp (LayerNorm d g b eps) X =
     (if \<forall>x \<in> set X. \<forall>r \<in> set x. length r = d
      then Some (map (map (layer_norm_row_fp g b eps)) X) else None)"

text \<open>Line 57.\<close>

definition MAB_logits_fp :: "MAB \<Rightarrow> ftensor3 \<Rightarrow> ftensor3 \<Rightarrow> ftensor3 option" where
  "MAB_logits_fp m Q' K' = do {
     QK \<leftarrow> matmul_nt_fp Q' K';
     Some (map (map (map (\<lambda>a. fp_div a (Num (sqrt (real (out_features (fc_q m)))))))) QK)
   }"

text \<open>Lines 59 to 67.\<close>

definition MAB_weights_fp ::
  "MAB \<Rightarrow> ftensor3 \<Rightarrow> ftensor3 \<Rightarrow> tensor2 option \<Rightarrow> ftensor3 option" where
  "MAB_weights_fp m Q A_logits msk =
     (case msk of
        Some mk \<Rightarrow> do {
          msk1 \<leftarrow> stack_mask Q mk;
          msk2 \<leftarrow> cat0 (replicate (nat (num_heads m)) msk1);
          A_inf \<leftarrow> masked_fill_neg_inf_fp msk2 A_logits;
          Some (map (map (\<lambda>l. map nan_to_zero_fp (softmax_fp l))) A_inf)
        }
      | None \<Rightarrow> Some (map (map softmax_fp) A_logits))"

text \<open>Lines 50 to 70.\<close>

definition MAB_attn_fp ::
  "MAB \<Rightarrow> ftensor3 \<Rightarrow> ftensor3 \<Rightarrow> ftensor3 \<Rightarrow> tensor2 option \<Rightarrow> ftensor3 option" where
  "MAB_attn_fp m Q K V msk = do {
     Q' \<leftarrow> split_heads (num_heads m) (out_features (fc_q m)) Q;
     K' \<leftarrow> split_heads (num_heads m) (out_features (fc_k m)) K;
     V' \<leftarrow> split_heads (num_heads m) (out_features (fc_v m)) V;
     A_logits \<leftarrow> MAB_logits_fp m Q' K';
     A \<leftarrow> MAB_weights_fp m Q A_logits msk;
     AV \<leftarrow> matmul_fp (split_size (out_features (fc_v m)) (nat (num_heads m))) A V';
     AVc \<leftarrow> chunk (num_heads m) AV;
     cat_last AVc
   }"

text \<open>Lines 71 to 76.\<close>

definition MAB_combine_fp :: "MAB \<Rightarrow> ftensor3 \<Rightarrow> ftensor3 \<Rightarrow> ftensor3 option" where
  "MAB_combine_fp m Q attn =
     (if residual m then do {
        S1 \<leftarrow> add3_fp Q (apply_dropout (dropout1 m) attn);
        O1 \<leftarrow> apply_norm_fp (ln1 m) S1;
        F \<leftarrow> apply_linear_fp (fc_o m) O1;
        S2 \<leftarrow> add3_fp O1 (apply_dropout (dropout2 m) (relu_fp F));
        apply_norm_fp (ln2 m) S2
      } else do {
        O1 \<leftarrow> apply_norm_fp (ln1 m) (apply_dropout (dropout1 m) attn);
        F \<leftarrow> apply_linear_fp (fc_o m) O1;
        S2 \<leftarrow> add3_fp O1 (apply_dropout (dropout2 m) (relu_fp F));
        apply_norm_fp (ln2 m) S2
      })"

definition MAB_forward_fp ::
  "MAB \<Rightarrow> ftensor3 \<Rightarrow> ftensor3 \<Rightarrow> tensor2 option \<Rightarrow> ftensor3 option" where
  "MAB_forward_fp m X Y msk = do {
     Q \<leftarrow> apply_linear_fp (fc_q m) X;
     K \<leftarrow> apply_linear_fp (fc_k m) Y;
     V \<leftarrow> apply_linear_fp (fc_v m) Y;
     attn \<leftarrow> MAB_attn_fp m Q K V msk;
     MAB_combine_fp m Q attn
   }"

subsection \<open>Row by row\<close>

text \<open>The functions of the rows, as for the reals above.\<close>

definition all_finite :: "fvec \<Rightarrow> bool" where
  "all_finite r \<longleftrightarrow> list_all is_finite r"

definition norm_row_fp :: "norm \<Rightarrow> fvec \<Rightarrow> fvec" where
  "norm_row_fp N r =
     (case N of Identity_norm \<Rightarrow> r | LayerNorm d g b eps \<Rightarrow> layer_norm_row_fp g b eps r)"

definition logit_row_fp :: "MAB \<Rightarrow> nat \<Rightarrow> fvec \<Rightarrow> fvec list \<Rightarrow> fvec" where
  "logit_row_fp m h q Kb =
     map (\<lambda>k. fp_div (dot_fp (slice (head_dim m) h q) (slice (head_dim m) h k))
                 (Num (sqrt (real (out_features (fc_q m)))))) Kb"

definition weight_row_fp :: "vec option \<Rightarrow> fvec \<Rightarrow> fvec" where
  "weight_row_fp mr l =
     (case mr of None \<Rightarrow> softmax_fp l
      | Some r \<Rightarrow> map nan_to_zero_fp (softmax_fp (map2 fill_neg_inf_fp r l)))"

definition head_row_fp :: "MAB \<Rightarrow> nat \<Rightarrow> vec option \<Rightarrow> fvec list \<Rightarrow> fvec list \<Rightarrow> fvec \<Rightarrow> fvec" where
  "head_row_fp m h mr Kb Vb q =
     map (\<lambda>c. dot_fp (weight_row_fp mr (logit_row_fp m h q Kb))
                 (map (\<lambda>v. slice (head_dim m) h v ! c) Vb))
       [0..<head_dim m]"

definition attn_row_fp :: "MAB \<Rightarrow> vec option \<Rightarrow> fvec list \<Rightarrow> fvec list \<Rightarrow> fvec \<Rightarrow> fvec" where
  "attn_row_fp m mr Kb Vb q =
     concat (map (\<lambda>h. head_row_fp m h mr Kb Vb q) [0..<nat (num_heads m)])"

definition combine_row_fp :: "MAB \<Rightarrow> fvec \<Rightarrow> fvec \<Rightarrow> fvec" where
  "combine_row_fp m q a =
     (let o1 = norm_row_fp (ln1 m) (if residual m then map2 fp_add q a else a)
      in norm_row_fp (ln2 m)
           (map2 fp_add o1 (map (fp_max (Num 0)) (linear_row_fp (fc_o m) o1))))"

definition MAB_row_fp :: "MAB \<Rightarrow> vec option \<Rightarrow> fvec list \<Rightarrow> fvec \<Rightarrow> fvec" where
  "MAB_row_fp m mr Yb x =
     (let q = linear_row_fp (fc_q m) x
      in combine_row_fp m q
           (attn_row_fp m mr (map (linear_row_fp (fc_k m)) Yb)
              (map (linear_row_fp (fc_v m)) Yb) q))"

text \<open>
  The block \<open>mab1 1 True\<close> with the value projection \<open>x \<mapsto> wv * x\<close>.
\<close>

definition mab_v :: "real \<Rightarrow> MAB" where
  "mab_v wv = (mab1 1 True)\<lparr>fc_v := lin1 wv 0\<rparr>"

section \<open>The softmax of a row with \<^verbatim>\<open>-inf\<close> entries\<close>

text \<open>
  The denominator of \<open>softmax_inf\<close> is 0 exactly for a row of \<^verbatim>\<open>-inf\<close> (or an empty
  row), and on finite logits \<open>softmax_inf\<close> is \<open>softmax\<close>.
\<close>

lemma sum_exp_pos: "l \<noteq> [] \<Longrightarrow> 0 < sum_list (map exp (l :: real list))"
proof (induction l)
  case Nil
  then show ?case by simp
next
  case (Cons a l)
  have "0 \<le> sum_list (map exp l)" by (rule sum_list_nonneg) auto
  moreover have "0 < exp a" by simp
  ultimately have "0 < exp a + sum_list (map exp l)" by linarith
  then show ?case by simp
qed

lemma exp_logit_nonneg: "0 \<le> exp_logit x"
  by (cases x) simp_all

lemma sum_exp_logit_zero:
  "sum_list (map exp_logit l) = 0 \<longleftrightarrow> (\<forall>x \<in> set l. x = NegInf)"
proof (induction l)
  case Nil
  then show ?case by simp
next
  case (Cons a l)
  have nn: "0 \<le> sum_list (map exp_logit l)"
    by (rule sum_list_nonneg) (auto simp: exp_logit_nonneg)
  show ?case
  proof (cases a)
    case (Logit x)
    have "0 < exp x" by simp
    then have "0 < exp x + sum_list (map exp_logit l)" using nn by linarith
    then show ?thesis using Logit by simp
  next
    case NegInf
    then show ?thesis using Cons.IH by simp
  qed
qed

lemma softmax_inf_finite: "softmax_inf (map Logit l) = map Weight (softmax l)"
proof (cases "l = []")
  case True
  then show ?thesis by (simp add: softmax_inf_def softmax_def)
next
  case False
  have "map exp_logit (map Logit l) = map exp l" by simp
  moreover have "sum_list (map exp l) \<noteq> 0" using sum_exp_pos[OF False] by simp
  ultimately show ?thesis by (simp add: softmax_inf_def softmax_def Let_def comp_def)
qed

section \<open>Shapes and rows\<close>

lemma split_size_dvd: "0 < c \<Longrightarrow> c dvd d \<Longrightarrow> split_size d c = d div c"
proof -
  assume c: "0 < c" and "c dvd d"
  then obtain s where d: "d = c * s" by (auto simp: dvd_def)
  have "(c * s + c - 1) div c = s"
  proof -
    show ?thesis using c by (intro div_nat_eqI) (auto simp: algebra_simps)
  qed
  then show ?thesis using c by (simp add: split_size_def d)
qed

lemma num_chunks_dvd: "0 < c \<Longrightarrow> c dvd d \<Longrightarrow> num_chunks d c = c"
proof -
  assume c: "0 < c" and dv: "c dvd d"
  show ?thesis
  proof (cases "d = 0")
    case True then show ?thesis by (simp add: num_chunks_def)
  next
    case False
    from dv obtain s where d: "d = c * s" by (auto simp: dvd_def)
    with False have s: "0 < s" by simp
    have ss: "split_size (c * s) c = s" using split_size_dvd[OF c dv] c by (simp add: d)
    have "(c * s + s - 1) div s = c"
    proof -
      show ?thesis using s by (intro div_nat_eqI) (auto simp: algebra_simps)
    qed
    then show ?thesis using False c by (simp add: num_chunks_def ss d)
  qed
qed

lemma uniformI: "(\<And>x. x \<in> set xs \<Longrightarrow> length x = k) \<Longrightarrow> uniform xs"
  by (cases xs) (auto simp: uniform_def)

lemma length_slice: "(h + 1) * s \<le> length xs \<Longrightarrow> length (slice s h xs) = s"
  by (simp add: slice_def algebra_simps)

lemma length_slice_dvd:
  assumes "length r = d" "0 < c" "c dvd d" "h < c"
  shows "length (slice (d div c) h r) = d div c"
proof -
  from assms obtain s where d: "d = c * s" by (auto simp: dvd_def)
  have "(h + 1) * s \<le> c * s" using assms(4) by (intro mult_right_mono) auto
  then show ?thesis using assms by (simp add: length_slice d)
qed

lemma map_conv_nth: "map f xs = map (\<lambda>i. f (xs ! i)) [0..<length xs]"
  by (rule nth_equalityI) auto

lemma length_head_blocks [simp]: "length (head_blocks nh b f) = nh * b"
  by (induction nh) (simp_all add: head_blocks_def)

lemma map_head_blocks: "map g (head_blocks nh b f) = head_blocks nh b (\<lambda>h i. g (f h i))"
  by (simp add: head_blocks_def map_concat comp_def)

lemma head_blocks_Suc: "head_blocks (Suc nh) b f = head_blocks nh b f @ map (f nh) [0..<b]"
  by (simp add: head_blocks_def)

lemma zip_head_blocks:
  "zip (head_blocks nh b f) (head_blocks nh b g) = head_blocks nh b (\<lambda>h i. (f h i, g h i))"
proof (induction nh)
  case 0 then show ?case by (simp add: head_blocks_def)
next
  case (Suc nh)
  then show ?case by (simp add: head_blocks_Suc zip_map_map zip_same_conv_map)
qed

lemma set_head_blocks: "set (head_blocks nh b f) = {f h i | h i. h < nh \<and> i < b}"
  by (fastforce simp: head_blocks_def)

lemma nth_head_blocks: "h < nh \<Longrightarrow> i < b \<Longrightarrow> head_blocks nh b f ! (h * b + i) = f h i"
proof (induction nh)
  case 0 then show ?case by simp
next
  case (Suc nh)
  show ?case
  proof (cases "h < nh")
    case True
    have "h * b + i < nh * b"
    proof -
      have "h * b + i < h * b + b" using Suc.prems by simp
      also have "\<dots> = (Suc h) * b" by simp
      also have "\<dots> \<le> nh * b" using True by (intro mult_right_mono) auto
      finally show ?thesis .
    qed
    then show ?thesis using Suc True by (simp add: head_blocks_Suc nth_append)
  next
    case False
    then have "h = nh" using Suc.prems by simp
    then show ?thesis using Suc.prems by (simp add: head_blocks_Suc nth_append)
  qed
qed

lemma slice_head_blocks: "h < nh \<Longrightarrow> slice b h (head_blocks nh b f) = map (f h) [0..<b]"
proof (induction nh)
  case 0 then show ?case by simp
next
  case (Suc nh)
  show ?case
  proof (cases "h < nh")
    case True
    have "(Suc h) * b \<le> nh * b" using True by (intro mult_right_mono) auto
    then have le: "h * b + b \<le> nh * b" by simp
    have "slice b h (head_blocks nh b f @ map (f nh) [0..<b]) = slice b h (head_blocks nh b f)"
      using le by (simp add: slice_def)
    then show ?thesis using Suc True by (simp add: head_blocks_Suc)
  next
    case False
    then have "h = nh" using Suc.prems by simp
    then show ?thesis by (simp add: head_blocks_Suc slice_def)
  qed
qed

lemma concat_replicate_blocks:
  "concat (replicate nh (map g [0..<b])) = head_blocks nh b (\<lambda>h. g)"
  by (simp add: head_blocks_def map_replicate_trivial)

lemma length_tab2 [simp]: "length (tab2 b n f) = b"
  by (simp add: tab2_def)

lemma nth_tab2 [simp]: "i < b \<Longrightarrow> tab2 b n f ! i = map (f i) [0..<n]"
  by (simp add: tab2_def)

lemma wf_tensor_tab2: "wf_tensor b n d X \<Longrightarrow> X = tab2 b n (\<lambda>i j. X ! i ! j)"
  unfolding wf_tensor_def tab2_def
  by (intro nth_equalityI) (auto intro!: nth_equalityI)

lemma wf_mask_tab2: "length mk = b \<Longrightarrow> \<forall>r \<in> set mk. length r = n \<Longrightarrow> mk = tab2 b n (\<lambda>i j. mk ! i ! j)"
  unfolding tab2_def
  by (intro nth_equalityI) (auto intro!: nth_equalityI)

lemma map_map_tab2: "map (map g) (tab2 b n f) = tab2 b n (\<lambda>i j. g (f i j))"
  by (simp add: tab2_def)

lemma map2_map2_tab2:
  "map2 (map2 h) (tab2 b n f) (tab2 b n g) = tab2 b n (\<lambda>i j. h (f i j) (g i j))"
  by (simp add: tab2_def zip_map_map zip_same_conv_map)

lemma tab2_cong:
  "(\<And>i j. i < b \<Longrightarrow> j < n \<Longrightarrow> f i j = g i j) \<Longrightarrow> tab2 b n f = tab2 b n g"
  by (simp add: tab2_def)

lemma in_tab2D: "x \<in> set (tab2 b n f) \<Longrightarrow> r \<in> set x \<Longrightarrow> \<exists>i j. i < b \<and> j < n \<and> r = f i j"
  by (fastforce simp: tab2_def)

lemma in_tab2_length: "x \<in> set (tab2 b n f) \<Longrightarrow> length x = n"
  by (auto simp: tab2_def)

lemma wf_tensor_tab2I:
  "(\<And>i j. i < b \<Longrightarrow> j < n \<Longrightarrow> length (f i j) = d) \<Longrightarrow> wf_tensor b n d (tab2 b n f)"
  by (auto simp: wf_tensor_def tab2_def)

lemma same_shape_tab2:
  "(\<And>i j. i < b \<Longrightarrow> j < n \<Longrightarrow> length (f i j) = length (g i j))
   \<Longrightarrow> same_shape (tab2 b n f) (tab2 b n g)"
  by (simp add: same_shape_def tab2_def)

lemma head_blocks_cong:
  "(\<And>h i. h < nh \<Longrightarrow> i < b \<Longrightarrow> f h i = g h i) \<Longrightarrow> head_blocks nh b f = head_blocks nh b g"
  unfolding head_blocks_def
  by (intro arg_cong[where f = concat] map_cong) auto

lemma apply_linear_tab2:
  assumes "\<And>i j. i < b \<Longrightarrow> j < n \<Longrightarrow> length (f i j) = in_features L"
  shows "apply_linear L (tab2 b n f) = Some (tab2 b n (\<lambda>i j. linear_row L (f i j)))"
  using assms by (auto simp: apply_linear_def map_map_tab2 dest!: in_tab2D)

lemma apply_norm_tab2:
  assumes "wf_norm d N" "\<And>i j. i < b \<Longrightarrow> j < n \<Longrightarrow> length (f i j) = d"
  shows "apply_norm N (tab2 b n f) = Some (tab2 b n (\<lambda>i j. norm_row N (f i j)))"
proof (cases N)
  case Identity_norm
  then show ?thesis by (simp add: norm_row_def)
next
  case (LayerNorm d' g bb eps)
  then show ?thesis using assms
    by (auto simp: norm_row_def map_map_tab2 dest!: in_tab2D)
qed

lemma length_norm_row: "wf_norm d N \<Longrightarrow> length r = d \<Longrightarrow> length (norm_row N r) = d"
  by (cases N) (auto simp: norm_row_def layer_norm_row_def Let_def)

lemma length_linear_row: "wf_Linear i k L \<Longrightarrow> length (linear_row L x) = k"
  by (simp add: wf_Linear_def linear_row_def)

lemma add3_tab2:
  assumes "\<And>i j. i < b \<Longrightarrow> j < n \<Longrightarrow> length (f i j) = length (g i j)"
  shows "add3 (tab2 b n f) (tab2 b n g) = Some (tab2 b n (\<lambda>i j. map2 (+) (f i j) (g i j)))"
  using same_shape_tab2[of b n f g] assms by (simp add: add3_def map2_map2_tab2)

lemma relu_tab2: "relu (tab2 b n f) = tab2 b n (\<lambda>i j. map (max 0) (f i j))"
  by (simp add: relu_def map_map_tab2)

lemma cat0_Some:
  assumes "Ts \<noteq> []" "\<And>x. x \<in> set (concat Ts) \<Longrightarrow> length x = n \<and> (\<forall>r \<in> set x. length r = w)"
  shows "cat0 Ts = Some (concat Ts)"
proof -
  have "uniform (concat Ts)" using assms(2) by (intro uniformI[of _ n]) auto
  moreover have "uniform (concat (concat Ts))" using assms(2) by (intro uniformI[of _ w]) auto
  ultimately show ?thesis using assms(1) by (simp add: cat0_def)
qed

lemma split_heads_tab2:
  assumes len: "\<And>i j. i < b \<Longrightarrow> j < n \<Longrightarrow> length (f i j) = d"
    and c: "0 < c" and dv: "nat c dvd d"
  shows "split_heads c d (tab2 b n f) =
         Some (hb3 (nat c) b n (\<lambda>h i j. slice (d div nat c) h (f i j)))"
proof -
  let ?nh = "nat c" and ?s = "d div nat c"
  have nh: "0 < ?nh" using c by simp
  have ch: "chunk_last c d (tab2 b n f) =
        Some (map (\<lambda>h. map (map (slice ?s h)) (tab2 b n f)) [0..<?nh])"
    using c by (simp add: chunk_last_def split_size_dvd[OF nh dv] num_chunks_dvd[OF nh dv])
  have cc: "concat (map (\<lambda>h. map (map (slice ?s h)) (tab2 b n f)) [0..<?nh])
        = hb3 ?nh b n (\<lambda>h i j. slice ?s h (f i j))"
    by (simp add: hb3_def head_blocks_def tab2_def comp_def)
  have "cat0 (map (\<lambda>h. map (map (slice ?s h)) (tab2 b n f)) [0..<?nh])
        = Some (concat (map (\<lambda>h. map (map (slice ?s h)) (tab2 b n f)) [0..<?nh]))"
  proof (rule cat0_Some[where n = n and w = ?s])
    show "map (\<lambda>h. map (map (slice ?s h)) (tab2 b n f)) [0..<?nh] \<noteq> []" using nh by simp
  next
    fix x assume "x \<in> set (concat (map (\<lambda>h. map (map (slice ?s h)) (tab2 b n f)) [0..<?nh]))"
    then obtain h i where hi: "h < ?nh" "i < b" and x: "x = map (\<lambda>j. slice ?s h (f i j)) [0..<n]"
      unfolding cc hb3_def by (auto simp: set_head_blocks)
    show "length x = n \<and> (\<forall>r \<in> set x. length r = ?s)"
      using hi x len by (auto simp: length_slice_dvd[OF _ nh dv])
  qed
  then show ?thesis using ch cc by (simp add: split_heads_def)
qed

lemma hb3_cong:
  "(\<And>h i j. h < nh \<Longrightarrow> i < b \<Longrightarrow> j < n \<Longrightarrow> f h i j = g h i j) \<Longrightarrow> hb3 nh b n f = hb3 nh b n g"
  unfolding hb3_def by (intro head_blocks_cong) simp

lemma map_map_hb3: "map (map g) (hb3 nh b n f) = hb3 nh b n (\<lambda>h i j. g (f h i j))"
  by (simp add: hb3_def map_head_blocks comp_def)

lemma length_hb3 [simp]: "length (hb3 nh b n f) = nh * b"
  by (simp add: hb3_def)

lemma matmul_nt_hb3:
  assumes "\<And>h i j k. h < nh \<Longrightarrow> i < b \<Longrightarrow> j < nx \<Longrightarrow> k < ny \<Longrightarrow> length (F h i j) = length (G h i k)"
  shows "matmul_nt (hb3 nh b nx F) (hb3 nh b ny G) =
         Some (hb3 nh b nx (\<lambda>h i j. map (\<lambda>k. dot (F h i j) (G h i k)) [0..<ny]))"
proof -
  have chk: "\<forall>(a, b) \<in> set (zip (hb3 nh b nx F) (hb3 nh b ny G)).
               \<forall>r \<in> set a. \<forall>c \<in> set b. length r = length c"
    using assms by (auto simp: hb3_def zip_head_blocks set_head_blocks)
  have "map2 (\<lambda>a b. map (\<lambda>r. map (dot r) b) a) (hb3 nh b nx F) (hb3 nh b ny G)
        = hb3 nh b nx (\<lambda>h i j. map (\<lambda>k. dot (F h i j) (G h i k)) [0..<ny])"
    by (simp add: hb3_def zip_head_blocks map_head_blocks comp_def)
  then show ?thesis using chk by (simp add: matmul_nt_def)
qed

lemma MAB_logits_hb3:
  assumes "\<And>h i j k. h < nh \<Longrightarrow> i < b \<Longrightarrow> j < nx \<Longrightarrow> k < ny \<Longrightarrow> length (F h i j) = length (G h i k)"
  shows "MAB_logits m (hb3 nh b nx F) (hb3 nh b ny G) =
         Some (hb3 nh b nx (\<lambda>h i j. map (\<lambda>k. dot (F h i j) (G h i k)
                  / sqrt (real (out_features (fc_q m)))) [0..<ny]))"
  by (simp add: MAB_logits_def matmul_nt_hb3[OF assms] map_map_hb3 comp_def)

lemma stack_mask_tab2:
  assumes "length mk = b" "0 < b \<longrightarrow> 0 < nx"
  shows "stack_mask (tab2 b nx q) mk = Some (tab2 b nx (\<lambda>i j. mk ! i))"
proof -
  have eq: "map (replicate nx) mk = tab2 b nx (\<lambda>i j. mk ! i)"
    using assms(1) by (auto simp: tab2_def map_replicate_trivial intro!: nth_equalityI)
  show ?thesis
  proof (cases "tab2 b nx q")
    case Nil
    then have "b = 0" using length_tab2[of b nx q] by simp
    then show ?thesis using Nil eq assms by (simp add: stack_mask_def tab2_def)
  next
    case (Cons x xs)
    then have b: "0 < b" using length_tab2[of b nx q] by auto
    then have "0 < nx" using assms by simp
    moreover have "x = map (q 0) [0..<nx]"
      using nth_tab2[OF b, of nx q] Cons by simp
    ultimately show ?thesis using Cons eq by (simp add: stack_mask_def)
  qed
qed

lemma cat0_replicate_tab2:
  assumes "0 < nh" "\<And>i. i < b \<Longrightarrow> length (f i) = w"
  shows "cat0 (replicate nh (tab2 b n (\<lambda>i j. f i))) = Some (hb3 nh b n (\<lambda>h i j. f i))"
proof -
  have cc: "concat (replicate nh (tab2 b n (\<lambda>i j. f i))) = hb3 nh b n (\<lambda>h i j. f i)"
    by (simp add: hb3_def tab2_def concat_replicate_blocks)
  have "cat0 (replicate nh (tab2 b n (\<lambda>i j. f i))) = Some (concat (replicate nh (tab2 b n (\<lambda>i j. f i))))"
  proof (rule cat0_Some[where n = n and w = w])
    show "replicate nh (tab2 b n (\<lambda>i j. f i)) \<noteq> []" using assms(1) by simp
  next
    fix x assume "x \<in> set (concat (replicate nh (tab2 b n (\<lambda>i j. f i))))"
    then show "length x = n \<and> (\<forall>r \<in> set x. length r = w)"
      unfolding cc hb3_def using assms(2) by (auto simp: set_head_blocks)
  qed
  then show ?thesis by (simp add: cc)
qed

lemma same_shape_hb3:
  assumes "\<And>h i j. h < nh \<Longrightarrow> i < b \<Longrightarrow> j < n \<Longrightarrow> length (f h i j) = length (g h i j)"
  shows "same_shape (hb3 nh b n f) (hb3 nh b n g)"
proof -
  have "hb3 nh b n (\<lambda>h i j. length (f h i j)) = hb3 nh b n (\<lambda>h i j. length (g h i j))"
    by (rule hb3_cong) (rule assms)
  then show ?thesis by (simp add: same_shape_def map_map_hb3)
qed

lemma map2_map2_hb3:
  "map2 (map2 g) (hb3 nh b n f) (hb3 nh b n f') = hb3 nh b n (\<lambda>h i j. g (f h i j) (f' h i j))"
  by (simp add: hb3_def zip_head_blocks map_head_blocks zip_map_map zip_same_conv_map comp_def)

lemma masked_fill_hb3:
  assumes "\<And>h i j. h < nh \<Longrightarrow> i < b \<Longrightarrow> j < n \<Longrightarrow> length (f h i j) = length (g h i j)"
  shows "masked_fill_neg_inf (hb3 nh b n f) (hb3 nh b n g) =
         Some (hb3 nh b n (\<lambda>h i j. map2 fill_neg_inf (f h i j) (g h i j)))"
  using same_shape_hb3[OF assms] by (simp add: masked_fill_neg_inf_def map2_map2_hb3)

lemma MAB_weights_hb3:
  assumes nh: "0 < num_heads m"
    and msk: "wf_mask b ny msk"
    and nx: "msk \<noteq> None \<longrightarrow> 0 < b \<longrightarrow> 0 < nx"
    and L: "\<And>h i j. h < nat (num_heads m) \<Longrightarrow> i < b \<Longrightarrow> j < nx \<Longrightarrow> length (L h i j) = ny"
  shows "MAB_weights m (tab2 b nx q) (hb3 (nat (num_heads m)) b nx L) msk =
         Some (hb3 (nat (num_heads m)) b nx (\<lambda>h i j. weight_row (mask_row msk i) (L h i j)))"
proof (cases msk)
  case None
  then show ?thesis
    by (simp add: MAB_weights_def map_map_hb3 weight_row_def mask_row_def)
next
  case (Some mk)
  let ?nh = "nat (num_heads m)"
  have len: "length mk = b" and rows: "\<And>i. i < b \<Longrightarrow> length (mk ! i) = ny"
    using msk Some by (auto simp: wf_mask_def)
  have s1: "stack_mask (tab2 b nx q) mk = Some (tab2 b nx (\<lambda>i j. mk ! i))"
    using stack_mask_tab2[OF len] nx Some by simp
  have s2: "cat0 (replicate ?nh (tab2 b nx (\<lambda>i j. mk ! i))) = Some (hb3 ?nh b nx (\<lambda>h i j. mk ! i))"
    using nh rows by (intro cat0_replicate_tab2[where w = ny]) auto
  have s3: "masked_fill_neg_inf (hb3 ?nh b nx (\<lambda>h i j. mk ! i)) (hb3 ?nh b nx L)
        = Some (hb3 ?nh b nx (\<lambda>h i j. map2 fill_neg_inf (mk ! i) (L h i j)))"
    using rows L by (intro masked_fill_hb3) simp
  show ?thesis using Some
    by (simp add: MAB_weights_def s1 s2 s3 map_map_hb3 weight_row_def mask_row_def)
qed

lemma transpose_last_hb3:
  "transpose_last w (hb3 nh b n f) = hb3 nh b w (\<lambda>h i c. map (\<lambda>k. f h i k ! c) [0..<n])"
  by (simp add: transpose_last_def hb3_def map_head_blocks comp_def)

lemma matmul_hb3:
  assumes "\<And>h i j. h < nh \<Longrightarrow> i < b \<Longrightarrow> j < nx \<Longrightarrow> length (A h i j) = ny"
  shows "matmul w (hb3 nh b nx A) (hb3 nh b ny V) =
         Some (hb3 nh b nx (\<lambda>h i j. map (\<lambda>c. dot (A h i j) (map (\<lambda>k. V h i k ! c) [0..<ny])) [0..<w]))"
  unfolding matmul_def transpose_last_hb3
  by (rule matmul_nt_hb3) (simp add: assms)

lemma chunk_hb3:
  assumes "0 < c"
  shows "chunk c (hb3 (nat c) b n f) = Some (map (\<lambda>h. tab2 b n (f h)) [0..<nat c])"
proof -
  let ?nh = "nat c"
  have nh: "0 < ?nh" using assms by simp
  have dv: "?nh dvd ?nh * b" by simp
  have ss: "split_size (?nh * b) ?nh = b" using split_size_dvd[OF nh dv] nh by simp
  have nc: "num_chunks (?nh * b) ?nh = ?nh" using num_chunks_dvd[OF nh dv] .
  have "map (\<lambda>h. slice b h (hb3 ?nh b n f)) [0..<?nh] = map (\<lambda>h. tab2 b n (f h)) [0..<?nh]"
    by (intro map_cong) (auto simp: hb3_def slice_head_blocks tab2_def)
  then show ?thesis using assms by (simp add: chunk_def ss nc)
qed

lemma cat_last_tabs:
  assumes "0 < nh"
  shows "cat_last (map (\<lambda>h. tab2 b n (f h)) [0..<nh]) =
         Some (tab2 b n (\<lambda>i j. concat (map (\<lambda>h. f h i j) [0..<nh])))"
proof -
  let ?Ts = "map (\<lambda>h. tab2 b n (f h)) [0..<nh]"
  have hd: "hd ?Ts = tab2 b n (f 0)" using assms by (simp add: hd_map upt_conv_Cons)
  have ne: "?Ts \<noteq> []" using assms by simp
  have shp: "\<forall>T \<in> set ?Ts. map length T = map length (hd ?Ts)"
    unfolding hd by (auto simp: tab2_def)
  have l1: "length (hd ?Ts) = b" unfolding hd by simp
  have l2: "\<And>i. i < b \<Longrightarrow> length (hd ?Ts ! i) = n" unfolding hd by simp
  have el: "\<And>i j. i < b \<Longrightarrow> j < n \<Longrightarrow> map (\<lambda>T. T ! i ! j) ?Ts = map (\<lambda>h. f h i j) [0..<nh]"
    by simp
  have "map (\<lambda>i. map (\<lambda>j. concat (map (\<lambda>T. T ! i ! j) ?Ts)) [0..<length (hd ?Ts ! i)])
          [0..<length (hd ?Ts)]
        = map (\<lambda>i. map (\<lambda>j. concat (map (\<lambda>h. f h i j) [0..<nh])) [0..<n]) [0..<b]"
    by (intro map_cong) (simp_all add: l1 l2 el del: map_map)
  then show ?thesis using ne shp unfolding cat_last_def tab2_def[of b n "\<lambda>i j. concat (map (\<lambda>h. f h i j) [0..<nh])"]
    by (simp del: map_map)
qed

lemma wf_tensor_nth:
  assumes "wf_tensor b n d X" "i < b"
  shows "length (X ! i) = n" and "j < n \<Longrightarrow> length (X ! i ! j) = d"
proof -
  have mem: "X ! i \<in> set X" using assms by (simp add: wf_tensor_def)
  then show n: "length (X ! i) = n" using assms by (simp add: wf_tensor_def)
  assume "j < n"
  then have "X ! i ! j \<in> set (X ! i)" using n by simp
  then show "length (X ! i ! j) = d" using mem assms(1) unfolding wf_tensor_def by blast
qed

lemma apply_dropout_id [simp]: "apply_dropout d X = X"
  by (cases d) simp_all

lemma length_head_row [simp]: "length (head_row m h mr Kb Vb q) = head_dim m"
  by (simp add: head_row_def)

lemma length_concat_const:
  "(\<And>h. h < n \<Longrightarrow> length (f h) = s) \<Longrightarrow> length (concat (map f [0..<n])) = n * s"
  by (induction n) simp_all

lemma length_attn_row:
  assumes "wf_MAB dx dy d m"
  shows "length (attn_row m mr Kb Vb q) = d"
proof -
  have "out_features (fc_q m) = d" "nat (num_heads m) dvd d"
    using assms by (auto simp: wf_MAB_def wf_Linear_def)
  then have "nat (num_heads m) * head_dim m = d" by (simp add: head_dim_def)
  then show ?thesis by (simp add: attn_row_def length_concat_const)
qed

lemma length_combine_row:
  assumes "wf_MAB dx dy d m" "length q = d" "length a = d"
  shows "length (combine_row m q a) = d"
proof -
  have n1: "wf_norm d (ln1 m)" and n2: "wf_norm d (ln2 m)" and o: "wf_Linear d d (fc_o m)"
    using assms(1) by (auto simp: wf_MAB_def)
  have l1: "length (norm_row (ln1 m) (if residual m then map2 (+) q a else a)) = d"
    using assms by (intro length_norm_row[OF n1]) simp
  show ?thesis unfolding combine_row_def Let_def
    by (intro length_norm_row[OF n2]) (simp add: l1 length_linear_row[OF o])
qed

lemma MAB_attn_tab2:
  assumes wf: "wf_MAB dx dy d m"
    and q: "\<And>i j. i < b \<Longrightarrow> j < nx \<Longrightarrow> length (q i j) = d"
    and k: "\<And>i j. i < b \<Longrightarrow> j < ny \<Longrightarrow> length (k i j) = d"
    and v: "\<And>i j. i < b \<Longrightarrow> j < ny \<Longrightarrow> length (v i j) = d"
    and msk: "wf_mask b ny msk"
    and nx: "msk \<noteq> None \<longrightarrow> 0 < b \<longrightarrow> 0 < nx"
  shows "MAB_attn m (tab2 b nx q) (tab2 b ny k) (tab2 b ny v) msk =
         Some (tab2 b nx (\<lambda>i j. attn_row m (mask_row msk i)
                 (map (k i) [0..<ny]) (map (v i) [0..<ny]) (q i j)))"
proof -
  let ?c = "num_heads m" and ?nh = "nat (num_heads m)" and ?s = "head_dim m"
  have c: "0 < ?c" and dv: "?nh dvd d" and nh: "0 < ?nh"
    and oq: "out_features (fc_q m) = d" and ok: "out_features (fc_k m) = d"
    and ov: "out_features (fc_v m) = d"
    using wf by (auto simp: wf_MAB_def wf_Linear_def)
  have s: "d div ?nh = ?s" by (simp add: head_dim_def oq)
  have ss: "split_size d ?nh = ?s" using split_size_dvd[OF nh dv] s by simp
  have ls: "\<And>r h. length r = d \<Longrightarrow> h < ?nh \<Longrightarrow> length (slice ?s h r) = ?s"
    using length_slice_dvd[OF _ nh dv] s by simp
  have Q': "split_heads ?c d (tab2 b nx q) = Some (hb3 ?nh b nx (\<lambda>h i j. slice ?s h (q i j)))"
    using split_heads_tab2[OF q c dv] s by simp
  have K': "split_heads ?c d (tab2 b ny k) = Some (hb3 ?nh b ny (\<lambda>h i j. slice ?s h (k i j)))"
    using split_heads_tab2[OF k c dv] s by simp
  have V': "split_heads ?c d (tab2 b ny v) = Some (hb3 ?nh b ny (\<lambda>h i j. slice ?s h (v i j)))"
    using split_heads_tab2[OF v c dv] s by simp
  let ?L = "\<lambda>h i j. map (\<lambda>k'. dot (slice ?s h (q i j)) (slice ?s h (k i k')) / sqrt (real d)) [0..<ny]"
  have L: "MAB_logits m (hb3 ?nh b nx (\<lambda>h i j. slice ?s h (q i j)))
             (hb3 ?nh b ny (\<lambda>h i j. slice ?s h (k i j))) = Some (hb3 ?nh b nx ?L)"
    unfolding oq[symmetric] by (rule MAB_logits_hb3) (simp add: q k ls)
  let ?A = "\<lambda>h i j. weight_row (mask_row msk i) (?L h i j)"
  have A: "MAB_weights m (tab2 b nx q) (hb3 ?nh b nx ?L) msk = Some (hb3 ?nh b nx ?A)"
    by (rule MAB_weights_hb3[OF c msk nx]) simp
  have lA: "\<And>h i j. h < ?nh \<Longrightarrow> i < b \<Longrightarrow> j < nx \<Longrightarrow> length (?A h i j) = ny"
    using msk by (auto simp: weight_row_def mask_row_def softmax_def softmax_inf_def Let_def
        wf_mask_def split: option.splits)
  let ?R = "\<lambda>h i j. map (\<lambda>c. dot (?A h i j) (map (\<lambda>k'. slice ?s h (v i k') ! c) [0..<ny])) [0..<?s]"
  have AV: "matmul ?s (hb3 ?nh b nx ?A) (hb3 ?nh b ny (\<lambda>h i j. slice ?s h (v i j)))
            = Some (hb3 ?nh b nx ?R)"
    by (rule matmul_hb3) (rule lA)
  have ch: "chunk ?c (hb3 ?nh b nx ?R) = Some (map (\<lambda>h. tab2 b nx (?R h)) [0..<?nh])"
    by (rule chunk_hb3[OF c])
  have cl: "cat_last (map (\<lambda>h. tab2 b nx (?R h)) [0..<?nh])
            = Some (tab2 b nx (\<lambda>i j. concat (map (\<lambda>h. ?R h i j) [0..<?nh])))"
    by (rule cat_last_tabs[OF nh])
  have fin: "tab2 b nx (\<lambda>i j. concat (map (\<lambda>h. ?R h i j) [0..<?nh]))
      = tab2 b nx (\<lambda>i j. attn_row m (mask_row msk i) (map (k i) [0..<ny]) (map (v i) [0..<ny]) (q i j))"
    by (simp add: attn_row_def head_row_def logit_row_def oq comp_def)
  show ?thesis
    unfolding MAB_attn_def oq ok ov ss
    by (simp add: Q' K' V' L A AV ch cl fin)
qed

lemma MAB_combine_tab2:
  assumes wf: "wf_MAB dx dy d m"
    and q: "\<And>i j. i < b \<Longrightarrow> j < n \<Longrightarrow> length (q i j) = d"
    and a: "\<And>i j. i < b \<Longrightarrow> j < n \<Longrightarrow> length (a i j) = d"
  shows "MAB_combine m (tab2 b n q) (tab2 b n a) =
         Some (tab2 b n (\<lambda>i j. combine_row m (q i j) (a i j)))"
proof -
  have n1: "wf_norm d (ln1 m)" and n2: "wf_norm d (ln2 m)" and o: "wf_Linear d d (fc_o m)"
    using wf by (auto simp: wf_MAB_def)
  have io: "in_features (fc_o m) = d" using o by (simp add: wf_Linear_def)
  let ?pre = "\<lambda>i j. if residual m then map2 (+) (q i j) (a i j) else a i j"
  let ?o1 = "\<lambda>i j. norm_row (ln1 m) (?pre i j)"
  have lpre: "\<And>i j. i < b \<Longrightarrow> j < n \<Longrightarrow> length (?pre i j) = d" using q a by simp
  have lo1: "\<And>i j. i < b \<Longrightarrow> j < n \<Longrightarrow> length (?o1 i j) = d"
    using length_norm_row[OF n1] lpre by simp
  have O1: "apply_norm (ln1 m) (tab2 b n ?pre) = Some (tab2 b n ?o1)"
    by (rule apply_norm_tab2[OF n1 lpre])
  have F: "apply_linear (fc_o m) (tab2 b n ?o1) = Some (tab2 b n (\<lambda>i j. linear_row (fc_o m) (?o1 i j)))"
    by (rule apply_linear_tab2) (simp add: lo1 io)
  let ?s2 = "\<lambda>i j. map2 (+) (?o1 i j) (map (max 0) (linear_row (fc_o m) (?o1 i j)))"
  have S2: "add3 (tab2 b n ?o1) (tab2 b n (\<lambda>i j. map (max 0) (linear_row (fc_o m) (?o1 i j))))
            = Some (tab2 b n ?s2)"
    by (rule add3_tab2) (simp add: lo1 length_linear_row[OF o])
  have ls2: "\<And>i j. i < b \<Longrightarrow> j < n \<Longrightarrow> length (?s2 i j) = d"
    by (simp add: lo1 length_linear_row[OF o])
  have O2: "apply_norm (ln2 m) (tab2 b n ?s2) = Some (tab2 b n (\<lambda>i j. norm_row (ln2 m) (?s2 i j)))"
    by (rule apply_norm_tab2[OF n2 ls2])
  have fin: "tab2 b n (\<lambda>i j. norm_row (ln2 m) (?s2 i j)) = tab2 b n (\<lambda>i j. combine_row m (q i j) (a i j))"
    by (simp add: combine_row_def Let_def)
  show ?thesis
  proof (cases "residual m")
    case True
    have S1: "add3 (tab2 b n q) (tab2 b n a) = Some (tab2 b n ?pre)"
      using add3_tab2[of b n q a] q a True by simp
    show ?thesis using True S1 O1 F S2 O2 fin unfolding MAB_combine_def
      by (simp add: relu_tab2)
  next
    case False
    show ?thesis using False O1 F S2 O2 fin unfolding MAB_combine_def
      by (simp add: relu_tab2)
  qed
qed

text \<open>
  On well-shaped inputs \<^verbatim>\<open>MAB.forward\<close> returns, and row \<open>j\<close> of batch element \<open>i\<close> of its
  result is \<open>MAB_row\<close> of the row \<open>X[i][j]\<close>, the set \<open>Y[i]\<close> and the mask row \<open>i\<close>. A mask
  needs a query set that is not empty: \<^verbatim>\<open>torch.stack\<close> of no rows raises.
\<close>

lemma MAB_forward_rows:
  assumes wf: "wf_MAB dx dy d m"
    and X: "wf_tensor b nx dx X" and Y: "wf_tensor b ny dy Y"
    and msk: "wf_mask b ny msk"
    and nx: "msk \<noteq> None \<longrightarrow> 0 < b \<longrightarrow> 0 < nx"
  shows "MAB_forward m X Y msk =
         Some (tab2 b nx (\<lambda>i j. MAB_row m (mask_row msk i) (Y ! i) (X ! i ! j)))"
proof -
  have fq: "wf_Linear dx d (fc_q m)" and fk: "wf_Linear dy d (fc_k m)"
    and fv: "wf_Linear dy d (fc_v m)"
    using wf by (auto simp: wf_MAB_def)
  have Xt: "X = tab2 b nx (\<lambda>i j. X ! i ! j)" by (rule wf_tensor_tab2[OF X])
  have Yt: "Y = tab2 b ny (\<lambda>i j. Y ! i ! j)" by (rule wf_tensor_tab2[OF Y])
  have lX: "\<And>i j. i < b \<Longrightarrow> j < nx \<Longrightarrow> length (X ! i ! j) = dx"
    using wf_tensor_nth[OF X] by simp
  have lY: "\<And>i j. i < b \<Longrightarrow> j < ny \<Longrightarrow> length (Y ! i ! j) = dy"
    using wf_tensor_nth[OF Y] by simp
  have lYi: "\<And>i. i < b \<Longrightarrow> length (Y ! i) = ny"
    using wf_tensor_nth[OF Y] by simp
  let ?q = "\<lambda>i j. linear_row (fc_q m) (X ! i ! j)"
  let ?k = "\<lambda>i j. linear_row (fc_k m) (Y ! i ! j)"
  let ?v = "\<lambda>i j. linear_row (fc_v m) (Y ! i ! j)"
  have Q: "apply_linear (fc_q m) X = Some (tab2 b nx ?q)"
    using apply_linear_tab2[of b nx "\<lambda>i j. X ! i ! j" "fc_q m"] lX fq Xt
    by (simp add: wf_Linear_def)
  have K: "apply_linear (fc_k m) Y = Some (tab2 b ny ?k)"
    using apply_linear_tab2[of b ny "\<lambda>i j. Y ! i ! j" "fc_k m"] lY fk Yt
    by (simp add: wf_Linear_def)
  have V: "apply_linear (fc_v m) Y = Some (tab2 b ny ?v)"
    using apply_linear_tab2[of b ny "\<lambda>i j. Y ! i ! j" "fc_v m"] lY fv Yt
    by (simp add: wf_Linear_def)
  let ?a = "\<lambda>i j. attn_row m (mask_row msk i) (map (?k i) [0..<ny]) (map (?v i) [0..<ny]) (?q i j)"
  have At: "MAB_attn m (tab2 b nx ?q) (tab2 b ny ?k) (tab2 b ny ?v) msk = Some (tab2 b nx ?a)"
    by (rule MAB_attn_tab2[OF wf _ _ _ msk nx])
       (simp_all add: length_linear_row[OF fq] length_linear_row[OF fk] length_linear_row[OF fv])
  have C: "MAB_combine m (tab2 b nx ?q) (tab2 b nx ?a)
           = Some (tab2 b nx (\<lambda>i j. combine_row m (?q i j) (?a i j)))"
    by (rule MAB_combine_tab2[OF wf]) (simp_all add: length_linear_row[OF fq] length_attn_row[OF wf])
  have fin: "tab2 b nx (\<lambda>i j. combine_row m (?q i j) (?a i j))
             = tab2 b nx (\<lambda>i j. MAB_row m (mask_row msk i) (Y ! i) (X ! i ! j))"
  proof (rule tab2_cong)
    fix i j assume i: "i < b" and "j < nx"
    have "map (?k i) [0..<ny] = map (linear_row (fc_k m)) (Y ! i)"
      using map_conv_nth[of "linear_row (fc_k m)" "Y ! i"] lYi[OF i] by simp
    moreover have "map (?v i) [0..<ny] = map (linear_row (fc_v m)) (Y ! i)"
      using map_conv_nth[of "linear_row (fc_v m)" "Y ! i"] lYi[OF i] by simp
    ultimately show "combine_row m (?q i j) (?a i j) = MAB_row m (mask_row msk i) (Y ! i) (X ! i ! j)"
      by (simp add: MAB_row_def Let_def)
  qed
  show ?thesis unfolding MAB_forward_def by (simp add: Q K V At C fin)
qed

section \<open>Permutations of the set axis\<close>


lemma length_permute [simp]: "length (permute p xs) = length p"
  by (simp add: permute_def)





lemma length_softmax [simp]: "length (softmax l) = length l"
  by (simp add: softmax_def Let_def)

lemma length_softmax_inf [simp]: "length (softmax_inf l) = length l"
  by (simp add: softmax_inf_def Let_def)










lemma length_permute_sets [simp]: "length (permute_sets ps X) = min (length ps) (length X)"
  by (simp add: permute_sets_def)




lemma wf_mask_nth: "wf_mask b n (Some mk) \<Longrightarrow> i < b \<Longrightarrow> length (mk ! i) = n"
  by (simp add: wf_mask_def)


lemma length_MAB_row:
  assumes "wf_MAB dx dy d m"
  shows "length (MAB_row m mr Yb x) = d"
proof -
  have "wf_Linear dx d (fc_q m)" using assms by (simp add: wf_MAB_def)
  then show ?thesis unfolding MAB_row_def Let_def
    by (intro length_combine_row[OF assms]) (simp_all add: length_linear_row length_attn_row[OF assms])
qed

lemma MAB_forward_wf:
  assumes "wf_MAB dx dy d m" "wf_tensor b nx dx X" "wf_tensor b ny dy Y" "wf_mask b ny msk"
    "msk \<noteq> None \<longrightarrow> 0 < b \<longrightarrow> 0 < nx"
  shows "\<exists>R. MAB_forward m X Y msk = Some R \<and> wf_tensor b nx d R"
  unfolding MAB_forward_rows[OF assms]
  by (simp add: wf_tensor_tab2I length_MAB_row[OF assms(1)])



section \<open>The combination steps and the two stages of ISAB\<close>

lemmas eval_defs =
  MAB_forward_def apply_linear_def linear_row_def dot_def MAB_attn_def
  split_heads_def chunk_last_def cat0_def uniform_def split_size_def num_chunks_def slice_def
  MAB_logits_def matmul_nt_def MAB_weights_def stack_mask_def masked_fill_neg_inf_def
  fill_neg_inf_def same_shape_def softmax_def softmax_inf_def matmul_def transpose_last_def
  chunk_def cat_last_def MAB_combine_def add3_def relu_def
  lin1_def mab1_def

lemma MAB_combine_spec: "MAB_combine m Q attn = spec_combine m Q attn"
  by (simp add: MAB_combine_def spec_combine_def spec_second_step_def)

lemma mab1_res: "MAB_forward (mab1 2 True) [[[1]]] [[[1]]] None = Some [[[3]]]"
  by (simp add: eval_defs)

lemma mab1_nores: "MAB_forward (mab1 2 False) [[[1]]] [[[1]]] None = Some [[[1]]]"
  by (simp add: eval_defs)

text \<open>
  C6. \<^verbatim>\<open>MAB.forward\<close> ends with the combination of the specification: with
  \<^verbatim>\<open>residual=True\<close> the first step is \<open>Norm1(Q + Dropout(attn))\<close> on the full projected
  query \<open>Q\<close> (the output of \<^verbatim>\<open>fc_q\<close>, not the input \<open>X\<close>), and in both branches the
  second step is \<open>Norm2(O1 + Dropout(ReLU(Linear_O(O1))))\<close>.
\<close>

theorem MAB_forward_combination:
  "MAB_forward m X Y msk = do {
     Q \<leftarrow> apply_linear (fc_q m) X;
     K \<leftarrow> apply_linear (fc_k m) Y;
     V \<leftarrow> apply_linear (fc_v m) Y;
     attn \<leftarrow> MAB_attn m Q K V msk;
     spec_combine m Q attn
   }"
  by (simp add: MAB_forward_def MAB_combine_spec)

text \<open>
  With the query projection \<open>x \<mapsto> 2x\<close>, the input 1 and the attention output 1, the
  residual base is \<open>Q = 2\<close> and not \<open>X = 1\<close>: the result is 3 with the residual and 1
  without it.
\<close>

theorem MAB_forward_combination_witness:
  "(do { Q \<leftarrow> apply_linear (fc_q (mab1 2 True)) [[[1]]];
         K \<leftarrow> apply_linear (fc_k (mab1 2 True)) [[[1]]];
         V \<leftarrow> apply_linear (fc_v (mab1 2 True)) [[[1]]];
         attn \<leftarrow> MAB_attn (mab1 2 True) Q K V None;
         spec_combine (mab1 2 True) Q attn }) = Some [[[3]]] \<and>
   (do { Q \<leftarrow> apply_linear (fc_q (mab1 2 False)) [[[1]]];
         K \<leftarrow> apply_linear (fc_k (mab1 2 False)) [[[1]]];
         V \<leftarrow> apply_linear (fc_v (mab1 2 False)) [[[1]]];
         attn \<leftarrow> MAB_attn (mab1 2 False) Q K V None;
         spec_combine (mab1 2 False) Q attn }) = Some [[[1]]]"
  using MAB_forward_combination[of "mab1 2 True" "[[[1]]]" "[[[1]]]" None]
    MAB_forward_combination[of "mab1 2 False" "[[[1]]]" "[[[1]]]" None]
    mab1_res mab1_nores
  by simp

lemma isab1_eval:
  "ISAB_forward isab1 [[[0], [1]]] (Some [[1, 0]]) = Some [[[0], [1]]]"
  by (simp add: ISAB_forward_def PMA_forward_def isab1_def eval_defs)

text \<open>
  C8. \<^verbatim>\<open>ISAB.forward(X, mask)\<close> is \<open>MAB(X, PMA(X, mask))\<close>: the mask goes to the pooling
  stage only, and the second block is called without a mask.
\<close>

theorem ISAB_forward_two_stages: "ISAB_forward B X msk = spec_ISAB B X msk"
  by (cases "PMA_forward (isab_pma B) X msk") (simp_all add: ISAB_forward_def spec_ISAB_def)

text \<open>
  A set of two elements whose second position is masked out: the output still has a
  row for it.
\<close>

theorem ISAB_forward_two_stages_witness:
  "spec_ISAB isab1 [[[0], [1]]] (Some [[1, 0]]) = Some [[[0], [1]]]"
  using ISAB_forward_two_stages[of isab1 "[[[0], [1]]]" "Some [[1, 0]]"] isab1_eval
  by simp

section \<open>Self-attention is permutation equivariant\<close>




lemma wf_mab1: "wf_MAB 1 1 1 (mab1 w r)"
  by (simp add: wf_MAB_def wf_Linear_def mab1_def lin1_def)


section \<open>Pooling blocks\<close>

lemma wf_tensor_replicate:
  "length I = n \<Longrightarrow> \<forall>r \<in> set I. length r = d \<Longrightarrow> wf_tensor b n d (replicate b I)"
  by (auto simp: wf_tensor_def)

lemma PMA_forward_wf:
  assumes "wf_PMA dx d ni P" "wf_tensor b n dx X" "wf_mask b n msk"
  shows "\<exists>R. PMA_forward P X msk = Some R \<and> wf_tensor b ni d R"
proof -
  have wf: "wf_MAB d dx d (pma_mab P)" and ni: "0 < ni"
    and I: "wf_tensor b ni d (replicate b (pma_I P))"
    using assms(1) by (auto simp: wf_PMA_def intro: wf_tensor_replicate)
  have b: "length X = b" using assms(2) by (simp add: wf_tensor_def)
  show ?thesis unfolding PMA_forward_def b
    using MAB_forward_wf[OF wf I assms(2,3)] ni by simp
qed


lemma cat1_wf:
  assumes "wf_tensor b k d A" "wf_tensor b j d B"
  shows "\<exists>R. cat1 A B = Some R \<and> wf_tensor b (k + j) d R"
proof -
  have "uniform (concat A @ concat B)"
    using assms by (intro uniformI[of _ d]) (auto simp: wf_tensor_def)
  moreover have "wf_tensor b (k + j) d (map2 (@) A B)"
    using assms by (auto simp: wf_tensor_def dest!: set_zip_leftD set_zip_rightD
        elim!: in_set_zipE)
  ultimately show ?thesis using assms by (simp add: cat1_def wf_tensor_def)
qed

lemma aPMA_loop_wf:
  assumes "wf_PMA d d 1 P" "wf_tensor 1 k d I"
  shows "\<exists>I'. aPMA_loop P n I = Some I' \<and> wf_tensor 1 (k + n) d I'"
  using assms(2)
proof (induction n arbitrary: I k)
  case 0
  then show ?case by simp
next
  case (Suc n)
  obtain J where J: "PMA_forward P I None = Some J" and wJ: "wf_tensor 1 1 d J"
    using PMA_forward_wf[OF assms(1) Suc.prems, of None] by (auto simp: wf_mask_def)
  obtain I2 where I2: "cat1 I J = Some I2" and wI2: "wf_tensor 1 (k + 1) d I2"
    using cat1_wf[OF Suc.prems wJ] by blast
  show ?case using Suc.IH[OF wI2] by (simp add: J I2)
qed

lemma aPMA_loop_snoc:
  "aPMA_loop P (Suc n) I = aPMA_loop P n I \<bind> (\<lambda>I'. PMA_forward P I' None \<bind> cat1 I')"
proof (induction n arbitrary: I)
  case 0
  have "aPMA_loop P 0 = Some" by (rule ext) simp
  then show ?case by simp
next
  case (Suc n)
  show ?case
  proof (cases "PMA_forward P I None")
    case None
    then show ?thesis by simp
  next
    case (Some J)
    show ?thesis
    proof (cases "cat1 I J")
      case None
      then show ?thesis using Some by simp
    next
      case (Some I2)
      then show ?thesis using \<open>PMA_forward P I None = Some J\<close> Suc.IH[of I2]
        by simp
    qed
  qed
qed

lemma aPMA_loop_spec: "aPMA_loop P n I0 = spec_seeds P I0 n"
proof (induction n)
  case 0
  then show ?case by simp
next
  case (Suc n)
  show ?case by (simp add: aPMA_loop_snoc Suc.IH del: aPMA_loop.simps)
qed

lemma concat_replicate_single:
  assumes "wf_tensor 1 k d I"
  shows "concat (replicate b I) = replicate b (hd I)" and "wf_tensor b k d (concat (replicate b I))"
proof -
  obtain I1 where I: "I = [I1]" using assms by (cases I) (auto simp: wf_tensor_def)
  show c: "concat (replicate b I) = replicate b (hd I)" unfolding I by (induction b) simp_all
  show "wf_tensor b k d (concat (replicate b I))" unfolding c
    using assms by (auto simp: I wf_tensor_def)
qed

lemma aPMA_forward_wf:
  assumes "wf_aPMA dx d a" "wf_tensor b n dx X"
  shows "\<exists>R. aPMA_forward a X k = Some R \<and> wf_tensor b (Suc (nat (k - 1))) d R"
proof -
  have I0: "wf_tensor 1 1 d (apma_I0 a)" and P: "wf_PMA d d 1 (apma_pma a)"
    and m: "wf_MAB d dx d (apma_mab a)"
    using assms(1) by (auto simp: wf_aPMA_def)
  obtain I where I: "aPMA_loop (apma_pma a) (nat (k - 1)) (apma_I0 a) = Some I"
    and wI: "wf_tensor 1 (1 + nat (k - 1)) d I"
    using aPMA_loop_wf[OF P I0] by blast
  have b: "length X = b" using assms(2) by (simp add: wf_tensor_def)
  have q: "wf_tensor b (1 + nat (k - 1)) d (concat (replicate b I))"
    by (rule concat_replicate_single(2)[OF wI])
  show ?thesis unfolding aPMA_forward_def I b
    using MAB_forward_wf[OF m q assms(2), of None] by (simp add: wf_mask_def)
qed



section \<open>Pooling is permutation invariant; the seeds of aPMA\<close>





lemma wf_pma1: "wf_PMA 1 1 1 pma1"
  using wf_mab1[of 1 True] by (simp add: wf_PMA_def pma1_def)

lemma wf_apma1: "wf_aPMA 1 1 apma1"
  using wf_mab1[of 1 True] wf_pma1 by (simp add: wf_aPMA_def apma1_def wf_tensor_def)



text \<open>
  C9. For \<open>num_iters = k \<ge> 1\<close> and a well-shaped input, \<^verbatim>\<open>aPMA.forward\<close> returns a tensor
  of the shape \<^verbatim>\<open>[batch, k, dim]\<close>; the seeds it attends with are those of the
  specification, which start from \<open>I0\<close> and grow by one seed \<open>PMA(I)\<close> per additional
  iteration, to the shape \<^verbatim>\<open>[1, j + 1, dim]\<close> after \<open>j\<close> iterations; and for \<open>k = 1\<close> the
  result is that of one \<^verbatim>\<open>PMA\<close> with the single seed \<open>I0\<close> and the block \<^verbatim>\<open>mab\<close>.
\<close>

theorem aPMA_forward_shape:
  assumes "wf_aPMA dim_X dim' a" and "wf_tensor b n dim_X X" and "1 \<le> k"
  shows "(\<exists>R. aPMA_forward a X k = Some R \<and> wf_tensor b (nat k) dim' R) \<and>
         aPMA_forward a X k = do {
           I \<leftarrow> spec_seeds (apma_pma a) (apma_I0 a) (nat (k - 1));
           MAB_forward (apma_mab a) (concat (replicate (length X) I)) X None
         } \<and>
         (\<forall>j. \<exists>I. spec_seeds (apma_pma a) (apma_I0 a) j = Some I \<and> wf_tensor 1 (j + 1) dim' I) \<and>
         aPMA_forward a X 1 = PMA_forward \<lparr>pma_I = hd (apma_I0 a), pma_mab = apma_mab a\<rparr> X None"
proof (intro conjI allI)
  have I0: "wf_tensor 1 1 dim' (apma_I0 a)" and P: "wf_PMA dim' dim' 1 (apma_pma a)"
    using assms(1) by (auto simp: wf_aPMA_def)
  have "Suc (nat (k - 1)) = nat k" using assms(3) by simp
  then show "\<exists>R. aPMA_forward a X k = Some R \<and> wf_tensor b (nat k) dim' R"
    using aPMA_forward_wf[OF assms(1,2), of k] by simp
  show "aPMA_forward a X k = do {
           I \<leftarrow> spec_seeds (apma_pma a) (apma_I0 a) (nat (k - 1));
           MAB_forward (apma_mab a) (concat (replicate (length X) I)) X None }"
    by (simp add: aPMA_forward_def aPMA_loop_spec)
  show "\<exists>I. spec_seeds (apma_pma a) (apma_I0 a) j = Some I \<and> wf_tensor 1 (j + 1) dim' I" for j
    using aPMA_loop_wf[OF P I0, of j] by (simp add: aPMA_loop_spec)
  have "concat (replicate (length X) (apma_I0 a)) = replicate (length X) (hd (apma_I0 a))"
    by (rule concat_replicate_single(1)[OF I0])
  then show "aPMA_forward a X 1 = PMA_forward \<lparr>pma_I = hd (apma_I0 a), pma_mab = apma_mab a\<rparr> X None"
    by (simp add: aPMA_forward_def PMA_forward_def)
qed

lemma apma1_eval: "aPMA_forward apma1 [[[0], [1]]] 2 = Some [[[1/2], [1/2]]]"
  by (simp add: aPMA_forward_def PMA_forward_def apma1_def pma1_def cat1_def eval_defs
      numeral_2_eq_2)

text \<open>Two iterations on a set of two elements give two summary vectors.\<close>

theorem aPMA_forward_shape_witness:
  "wf_aPMA 1 1 apma1 \<and> wf_tensor 1 2 1 [[[0], [1]]] \<and> (1::int) \<le> 2 \<and>
   aPMA_forward apma1 [[[0], [1]]] 2 = Some [[[1/2], [1/2]]] \<and>
   wf_tensor 1 (nat 2) 1 [[[1/2], [1/2::real]]] \<and>
   aPMA_forward apma1 [[[0], [1]]] 1
     = PMA_forward \<lparr>pma_I = hd (apma_I0 apma1), pma_mab = apma_mab apma1\<rparr> [[[0], [1]]] None"
proof -
  have 2: "wf_tensor 1 2 1 [[[0], [1]]]" by (simp add: wf_tensor_def)
  have 3: "(1::int) \<le> 2" by simp
  show ?thesis
    using aPMA_forward_shape[OF wf_apma1 2 3] wf_apma1 2 apma1_eval
    by (simp add: wf_tensor_def)
qed

section \<open>The attention logits\<close>

lemma nth_hb3:
  "h < nh \<Longrightarrow> i < b \<Longrightarrow> hb3 nh b n f ! (h * b + i) = map (f h i) [0..<n]"
  by (simp add: hb3_def nth_head_blocks)

lemma wf_tensor_hb3:
  assumes "\<And>h i j. h < nh \<Longrightarrow> i < b \<Longrightarrow> j < n \<Longrightarrow> length (f h i j) = w"
  shows "wf_tensor (b * nh) n w (hb3 nh b n f)"
  using assms by (auto simp: wf_tensor_def hb3_def set_head_blocks)

text \<open>
  C7. For projected queries \<open>Q\<close> of the shape \<^verbatim>\<open>[batch, nx, dim]\<close> and keys \<open>K\<close> of the shape
  \<^verbatim>\<open>[batch, ny, dim]\<close>, the heads \<open>Q'\<close> and \<open>K'\<close> hold, at position \<open>h * batch + i\<close>, the
  slices of width \<open>dim / num_heads\<close> of the rows of batch element \<open>i\<close>, and the logits
  have the shape \<^verbatim>\<open>[batch*num_heads, nx, ny]\<close> and are the dot products of these slices
  divided by the square root of the full \<open>dim\<close>.
\<close>

theorem MAB_logits_scaled_by_full_dim:
  assumes "wf_MAB dim_X dim_Y dim' m"
    and "wf_tensor b nx dim' Q" and "wf_tensor b ny dim' K"
  shows "\<exists>Q' K' L.
           split_heads (num_heads m) (out_features (fc_q m)) Q = Some Q' \<and>
           split_heads (num_heads m) (out_features (fc_k m)) K = Some K' \<and>
           MAB_logits m Q' K' = Some L \<and>
           wf_tensor (b * nat (num_heads m)) nx ny L \<and>
           (\<forall>h < nat (num_heads m). \<forall>i < b.
              (\<forall>j < nx. Q' ! (h * b + i) ! j = slice (dim' div nat (num_heads m)) h (Q ! i ! j)) \<and>
              (\<forall>k < ny. K' ! (h * b + i) ! k = slice (dim' div nat (num_heads m)) h (K ! i ! k)) \<and>
              (\<forall>j < nx. \<forall>k < ny.
                 L ! (h * b + i) ! j ! k
                 = dot (Q' ! (h * b + i) ! j) (K' ! (h * b + i) ! k) / sqrt (real dim')))"
proof -
  let ?c = "num_heads m" and ?nh = "nat (num_heads m)" and ?s = "dim' div nat (num_heads m)"
  have c: "0 < ?c" and dv: "?nh dvd dim'" and nh: "0 < ?nh"
    and oq: "out_features (fc_q m) = dim'" and ok: "out_features (fc_k m) = dim'"
    using assms(1) by (auto simp: wf_MAB_def wf_Linear_def)
  have Qt: "Q = tab2 b nx (\<lambda>i j. Q ! i ! j)" by (rule wf_tensor_tab2[OF assms(2)])
  have Kt: "K = tab2 b ny (\<lambda>i j. K ! i ! j)" by (rule wf_tensor_tab2[OF assms(3)])
  have lQ: "\<And>i j. i < b \<Longrightarrow> j < nx \<Longrightarrow> length (Q ! i ! j) = dim'"
    using wf_tensor_nth[OF assms(2)] by simp
  have lK: "\<And>i j. i < b \<Longrightarrow> j < ny \<Longrightarrow> length (K ! i ! j) = dim'"
    using wf_tensor_nth[OF assms(3)] by simp
  let ?Q' = "hb3 ?nh b nx (\<lambda>h i j. slice ?s h (Q ! i ! j))"
  let ?K' = "hb3 ?nh b ny (\<lambda>h i j. slice ?s h (K ! i ! j))"
  let ?L = "hb3 ?nh b nx (\<lambda>h i j. map (\<lambda>k. dot (slice ?s h (Q ! i ! j)) (slice ?s h (K ! i ! k))
                / sqrt (real dim')) [0..<ny])"
  have Q': "split_heads ?c (out_features (fc_q m)) Q = Some ?Q'"
    unfolding oq using split_heads_tab2[of b nx "\<lambda>i j. Q ! i ! j", OF lQ c dv] Qt by simp
  have K': "split_heads ?c (out_features (fc_k m)) K = Some ?K'"
    unfolding ok using split_heads_tab2[of b ny "\<lambda>i j. K ! i ! j", OF lK c dv] Kt by simp
  have ls: "\<And>r h. length r = dim' \<Longrightarrow> h < ?nh \<Longrightarrow> length (slice ?s h r) = ?s"
    by (rule length_slice_dvd[OF _ nh dv])
  have L: "MAB_logits m ?Q' ?K' = Some ?L"
    unfolding oq[symmetric] by (rule MAB_logits_hb3) (simp add: lQ lK ls oq)
  have wL: "wf_tensor (b * ?nh) nx ny ?L" by (rule wf_tensor_hb3) simp
  have el: "\<forall>h < ?nh. \<forall>i < b.
              (\<forall>j < nx. ?Q' ! (h * b + i) ! j = slice ?s h (Q ! i ! j)) \<and>
              (\<forall>k < ny. ?K' ! (h * b + i) ! k = slice ?s h (K ! i ! k)) \<and>
              (\<forall>j < nx. \<forall>k < ny.
                 ?L ! (h * b + i) ! j ! k
                 = dot (?Q' ! (h * b + i) ! j) (?K' ! (h * b + i) ! k) / sqrt (real dim'))"
    by (simp add: nth_hb3)
  show ?thesis
    by (rule exI[of _ ?Q'], rule exI[of _ ?K'], rule exI[of _ ?L])
       (intro conjI Q' K' L wL el)
qed

lemma wf_mab2: "wf_MAB 1 1 2 mab2"
  by (simp add: wf_MAB_def wf_Linear_def mab2_def)

lemma chunk_last_2: "chunk_last 2 2 [[[a, c]]] = Some [[[[a]]], [[[c]]]]"
  by (simp add: chunk_last_def split_size_def num_chunks_def slice_def upt_rec)

lemma split_heads_2: "split_heads 2 2 [[[a, c]]] = Some [[[a]], [[c]]]"
  by (simp add: split_heads_def chunk_last_2 cat0_def uniform_def)

lemma mab2_logits:
  "MAB_logits mab2 [[[3]], [[5]]] [[[1]], [[1]]] = Some [[[3 / sqrt 2]], [[5 / sqrt 2]]]"
  by (simp add: mab2_def MAB_logits_def matmul_nt_def dot_def)

text \<open>
  Two heads of width 1 in a block of width 2: the divisor is \<open>\<surd>2\<close>, not \<open>\<surd>1\<close>.
\<close>

theorem MAB_logits_scaled_by_full_dim_witness:
  "wf_MAB 1 1 2 mab2 \<and> wf_tensor 1 1 2 [[[3, 5]]] \<and> wf_tensor 1 1 2 [[[1, 1]]] \<and>
   (\<exists>Q' K' L.
      split_heads (num_heads mab2) (out_features (fc_q mab2)) [[[3, 5]]] = Some Q' \<and>
      split_heads (num_heads mab2) (out_features (fc_k mab2)) [[[1, 1]]] = Some K' \<and>
      MAB_logits mab2 Q' K' = Some L \<and>
      wf_tensor (1 * nat (num_heads mab2)) 1 1 L \<and>
      (\<forall>h < nat (num_heads mab2). \<forall>i < 1.
         (\<forall>j < 1. Q' ! (h * 1 + i) ! j = slice (2 div nat (num_heads mab2)) h ([[[3, 5]]] ! i ! j)) \<and>
         (\<forall>k < 1. K' ! (h * 1 + i) ! k = slice (2 div nat (num_heads mab2)) h ([[[1, 1]]] ! i ! k)) \<and>
         (\<forall>j < 1. \<forall>k < 1.
            L ! (h * 1 + i) ! j ! k
            = dot (Q' ! (h * 1 + i) ! j) (K' ! (h * 1 + i) ! k) / sqrt (real 2)))) \<and>
   split_heads 2 2 [[[3, 5]]] = Some [[[3]], [[5]]] \<and>
   split_heads 2 2 [[[1, 1]]] = Some [[[1]], [[1]]] \<and>
   MAB_logits mab2 [[[3]], [[5]]] [[[1]], [[1]]] = Some [[[3 / sqrt 2]], [[5 / sqrt 2]]]"
proof -
  have 2: "wf_tensor 1 1 2 [[[3, 5]]]" by (simp add: wf_tensor_def)
  have 3: "wf_tensor 1 1 2 [[[1, 1]]]" by (simp add: wf_tensor_def)
  show ?thesis
    by (intro conjI wf_mab2 2 3 MAB_logits_scaled_by_full_dim[OF wf_mab2 2 3]
        split_heads_2 mab2_logits)
qed

section \<open>Construction and the divisibility of dim\<close>

lemma split_size_pos: "0 < c \<Longrightarrow> 0 < d \<Longrightarrow> 0 < split_size d c"
  by (simp add: split_size_def div_greater_zero_iff)

lemma split_size_le: "0 < c \<Longrightarrow> split_size d c \<le> d"
proof -
  assume c: "0 < c"
  show ?thesis
  proof (cases "d = 0")
    case True then show ?thesis using c by (simp add: split_size_def)
  next
    case False
    have "d + c - 1 \<le> d * c"
    proof -
      obtain d' c' where "d = Suc d'" "c = Suc c'" using False c by (metis not0_implies_Suc less_numeral_extra(3))
      then show ?thesis by simp
    qed
    then have "(d + c - 1) div c \<le> (d * c) div c" by (rule div_le_mono)
    then show ?thesis using c by (simp add: split_size_def)
  qed
qed

lemma ceil_div_not_dvd:
  fixes s d :: nat
  assumes s: "0 < s" and nd: "\<not> s dvd d"
  shows "(d + s - 1) div s = d div s + 1"
proof -
  define q t where "q = d div s" and "t = d mod s"
  have t: "0 < t" "t < s" using nd s by (auto simp: t_def dvd_eq_mod_eq_0)
  have dq: "d = s * q + t" by (simp add: q_def t_def)
  have e1: "s * (q + 1) = s * q + s" and e2: "s * Suc (q + 1) = s * q + s + s"
    by (simp_all add: algebra_simps)
  have "(d + s - 1) div s = q + 1"
  proof (rule div_nat_eqI)
    show "s * (q + 1) \<le> d + s - 1" unfolding e1 using dq t by linarith
    show "d + s - 1 < s * Suc (q + 1)" unfolding e2 using dq t by linarith
  qed
  then show ?thesis by (simp add: q_def)
qed

lemma last_chunk_shorter:
  assumes c: "0 < c" and nd: "\<not> split_size d c dvd d"
  shows "\<exists>h < num_chunks d c. min (split_size d c) (d - h * split_size d c) \<noteq> split_size d c"
proof -
  define s where "s = split_size d c"
  have d: "0 < d" using nd by (cases "d = 0") auto
  have s: "0 < s" unfolding s_def by (rule split_size_pos[OF c d])
  have nd': "\<not> s dvd d" using nd by (simp add: s_def)
  have t: "0 < d mod s" "d mod s < s" using nd' s by (auto simp: dvd_eq_mod_eq_0)
  have n: "num_chunks d c = d div s + 1"
    using d ceil_div_not_dvd[OF s nd'] by (simp add: num_chunks_def s_def)
  have "d - d div s * s = d mod s" by (simp add: minus_div_mult_eq_mod)
  then have "min s (d - d div s * s) \<noteq> s" using t by simp
  then show ?thesis unfolding s_def[symmetric] n by (intro exI[of _ "d div s"]) simp
qed

lemma slice_in_chunks:
  "h < n \<Longrightarrow> x \<in> set Q \<Longrightarrow> r \<in> set x
   \<Longrightarrow> slice s h r \<in> set (concat (concat (map (\<lambda>h. map (map (slice s h)) Q) [0..<n])))"
  by fastforce

lemma split_heads_unequal:
  assumes c: "0 < c" and nd: "\<not> split_size d (nat c) dvd d"
    and rows: "\<forall>x \<in> set Q. \<forall>r \<in> set x. length r = d" and ne: "concat Q \<noteq> []"
  shows "split_heads c d Q = None"
proof -
  let ?s = "split_size d (nat c)" and ?n = "num_chunks d (nat c)"
  let ?Ts = "map (\<lambda>h. map (map (slice ?s h)) Q) [0..<?n]"
  have nc: "0 < nat c" using c by simp
  obtain h where h: "h < ?n" and hl: "min ?s (d - h * ?s) \<noteq> ?s"
    using last_chunk_shorter[OF nc nd] by blast
  obtain x where x: "x \<in> set Q" and xn: "x \<noteq> []" using ne by auto
  obtain r where r: "r \<in> set x" using xn by (cases x) auto
  have lr: "length r = d" using rows x r by simp
  have n0: "0 < ?n" using h by simp
  have in0: "slice ?s 0 r \<in> set (concat (concat ?Ts))" by (rule slice_in_chunks[OF n0 x r])
  have inh: "slice ?s h r \<in> set (concat (concat ?Ts))" by (rule slice_in_chunks[OF h x r])
  have l0: "length (slice ?s 0 r) = ?s" using lr split_size_le[OF nc, of d] by (simp add: slice_def)
  have lh: "length (slice ?s h r) \<noteq> ?s" using lr hl by (simp add: slice_def)
  have "\<not> uniform (concat (concat ?Ts))"
  proof
    assume "uniform (concat (concat ?Ts))"
    then have "length (slice ?s 0 r) = length (slice ?s h r)"
      using in0 inh unfolding uniform_def by metis
    then show False using l0 lh by simp
  qed
  then show ?thesis using c by (simp add: split_heads_def chunk_last_def cat0_def)
qed

lemma MAB_forward_unequal_heads:
  assumes "num_heads m \<le> 0 \<or> \<not> split_size (out_features (fc_q m)) (nat (num_heads m)) dvd out_features (fc_q m)"
    and "length (weight (fc_q m)) = out_features (fc_q m)"
    and "length (bias (fc_q m)) = out_features (fc_q m)"
    and "concat X \<noteq> []"
  shows "MAB_forward m X Y msk = None"
proof (cases "apply_linear (fc_q m) X")
  case None
  then show ?thesis by (simp add: MAB_forward_def)
next
  case (Some Q)
  then have Q: "Q = map (map (linear_row (fc_q m))) X"
    by (auto simp: apply_linear_def split: if_splits)
  have sh: "split_heads (num_heads m) (out_features (fc_q m)) Q = None"
  proof (cases "num_heads m \<le> 0")
    case True
    then show ?thesis by (simp add: split_heads_def chunk_last_def)
  next
    case False
    then have c: "0 < num_heads m" and nd: "\<not> split_size (out_features (fc_q m)) (nat (num_heads m)) dvd out_features (fc_q m)"
      using assms(1) by auto
    have rows: "\<forall>x \<in> set Q. \<forall>r \<in> set x. length r = out_features (fc_q m)"
      using assms(2,3) by (auto simp: Q linear_row_def)
    have ne: "concat Q \<noteq> []" using assms(4) by (auto simp: Q)
    show ?thesis by (rule split_heads_unequal[OF c nd rows ne])
  qed
  show ?thesis unfolding MAB_forward_def Some
    by (cases "apply_linear (fc_k m) Y"; cases "apply_linear (fc_v m) Y")
       (simp_all add: MAB_attn_def sh)
qed

text \<open>
  C3, as stated, fails: \<^verbatim>\<open>MAB(1, 1, 3, num_heads=2)\<close> is constructed without an error,
  and its \<^verbatim>\<open>forward\<close> raises: \<^verbatim>\<open>chunk\<close> cuts the width 3 into pieces of 2 and 1 entries,
  which \<^verbatim>\<open>torch.cat\<close> refuses.
\<close>

theorem MAB_init_accepts_indivisible_dim:
  "\<not> isl (MAB_init 1 1 3 kw2 draw1) \<and>
   MAB_forward (projr (MAB_init 1 1 3 kw2 draw1)) [[[1]]] [[[1]]] None = None"
  by (simp add: MAB_init_def Linear_init_def bind_error_def kw2_def draw1_def upt_rec
      MAB_forward_def apply_linear_def linear_row_def dot_def MAB_attn_def
      split_heads_def chunk_last_def cat0_def uniform_def split_size_def num_chunks_def slice_def)

text \<open>
  C3, amended. \<^verbatim>\<open>MAB.__init__\<close> does not look at the divisibility of \<open>dim\<close> by
  \<open>num_heads\<close>: for sizes that are not negative and a dropout probability that is unset
  or in \<open>[0, 1]\<close> it returns the module, whatever \<open>num_heads\<close> is. A violation surfaces at
  the \<^verbatim>\<open>forward\<close> call: for \<open>num_heads \<le> 0\<close>, and for a \<open>dim\<close> that is not a multiple of the
  piece size \<open>\<lceil>dim / num_heads\<rceil>\<close> of \<^verbatim>\<open>chunk\<close>, every call on an input with at least one
  set element raises.
\<close>

theorem MAB_init_no_divisibility_check:
  assumes "0 \<le> dim_X" and "0 \<le> dim_Y" and "0 \<le> dim'"
    and "case kw_p kw of None \<Rightarrow> True | Some p \<Rightarrow> 0 \<le> p \<and> p \<le> 1"
  shows "\<exists>m. MAB_init dim_X dim_Y dim' kw dr = Inr m \<and> num_heads m = kw_num_heads kw \<and>
             (\<forall>X Y msk.
                concat X \<noteq> [] \<longrightarrow>
                (kw_num_heads kw \<le> 0 \<or>
                 \<not> split_size (nat dim') (nat (kw_num_heads kw)) dvd nat dim') \<longrightarrow>
                MAB_forward m X Y msk = None)"
proof -
  obtain d where d: "(case kw_p kw of None \<Rightarrow> Inr Identity_dropout | Some p \<Rightarrow> Dropout_init p) = Inr d"
    using assms(4) by (auto simp: Dropout_init_def split: option.splits)
  obtain m where m: "MAB_init dim_X dim_Y dim' kw dr = Inr m" and nh: "num_heads m = kw_num_heads kw"
    and q: "fc_q m = \<lparr>in_features = nat dim_X, out_features = nat dim',
                     weight = map (\<lambda>r. map (fst (draw_q dr) r) [0..<nat dim_X]) [0..<nat dim'],
                     bias = map (snd (draw_q dr)) [0..<nat dim']\<rparr>"
    using assms(1,2,3) d by (simp add: MAB_init_def Linear_init_def bind_error_def)
  have "MAB_forward m X Y msk = None"
    if "concat X \<noteq> []"
      "kw_num_heads kw \<le> 0 \<or> \<not> split_size (nat dim') (nat (kw_num_heads kw)) dvd nat dim'"
    for X Y msk
    using that by (intro MAB_forward_unequal_heads) (simp_all add: nh q)
  then show ?thesis using m nh by blast
qed

text \<open>The same construction: width 3, two heads.\<close>

theorem MAB_init_no_divisibility_check_witness:
  "(0::int) \<le> 1 \<and> (0::int) \<le> 3 \<and>
   (case kw_p kw2 of None \<Rightarrow> True | Some p \<Rightarrow> 0 \<le> p \<and> p \<le> 1) \<and>
   concat [[[1::real]]] \<noteq> [] \<and>
   \<not> split_size (nat 3) (nat (kw_num_heads kw2)) dvd nat 3 \<and>
   (\<exists>m. MAB_init 1 1 3 kw2 draw1 = Inr m \<and> num_heads m = kw_num_heads kw2 \<and>
        MAB_forward m [[[1]]] [[[1]]] None = None)"
proof -
  have 1: "(0::int) \<le> 1" and 3: "(0::int) \<le> 3" by simp_all
  have 4: "case kw_p kw2 of None \<Rightarrow> True | Some p \<Rightarrow> 0 \<le> p \<and> p \<le> 1" by (simp add: kw2_def)
  have 5: "concat [[[1::real]]] \<noteq> []" by simp
  have 6: "\<not> split_size (nat 3) (nat (kw_num_heads kw2)) dvd nat 3"
    by (simp add: kw2_def split_size_def)
  obtain m where m: "MAB_init 1 1 3 kw2 draw1 = Inr m" "num_heads m = kw_num_heads kw2"
    and f: "\<forall>X Y msk. concat X \<noteq> [] \<longrightarrow>
              (kw_num_heads kw2 \<le> 0 \<or> \<not> split_size (nat 3) (nat (kw_num_heads kw2)) dvd nat 3) \<longrightarrow>
              MAB_forward m X Y msk = None"
    using MAB_init_no_divisibility_check[OF 1 1 3 4, of draw1] by blast
  have "MAB_forward m [[[1]]] [[[1]]] None = None" using f 5 6 by blast
  then show ?thesis using 1 3 4 5 6 m by blast
qed

text \<open>
  The classes built on \<^verbatim>\<open>MAB\<close> construct it with the arguments they are given and
  check nothing themselves: with a \<open>dim\<close> that the heads do not divide evenly each of
  them is constructed (for sizes that are not negative, a positive \<open>dim\<close> and at least
  one seed), and each raises at the \<^verbatim>\<open>forward\<close> call on an input that is not empty.
\<close>

lemma MAB_init_fails_at_forward:
  assumes "0 \<le> dx" and "0 \<le> dy" and "0 \<le> d"
    and "case kw_p kw of None \<Rightarrow> True | Some p \<Rightarrow> 0 \<le> p \<and> p \<le> 1"
  obtains m where "MAB_init dx dy d kw dr = Inr m"
    and "\<And>X Y msk. concat X \<noteq> [] \<Longrightarrow>
           kw_num_heads kw \<le> 0 \<or> \<not> split_size (nat d) (nat (kw_num_heads kw)) dvd nat d \<Longrightarrow>
           MAB_forward m X Y msk = None"
proof -
  obtain dd where dd: "(case kw_p kw of None \<Rightarrow> Inr Identity_dropout | Some p \<Rightarrow> Dropout_init p) = Inr dd"
    using assms(4) by (auto simp: Dropout_init_def split: option.splits)
  obtain m where m: "MAB_init dx dy d kw dr = Inr m" and nh: "num_heads m = kw_num_heads kw"
    and q: "fc_q m = \<lparr>in_features = nat dx, out_features = nat d,
                     weight = map (\<lambda>r. map (fst (draw_q dr) r) [0..<nat dx]) [0..<nat d],
                     bias = map (snd (draw_q dr)) [0..<nat d]\<rparr>"
    using assms(1,2,3) dd by (simp add: MAB_init_def Linear_init_def bind_error_def)
  have "MAB_forward m X Y msk = None"
    if "concat X \<noteq> []"
      "kw_num_heads kw \<le> 0 \<or> \<not> split_size (nat d) (nat (kw_num_heads kw)) dvd nat d"
    for X Y msk
    using that by (intro MAB_forward_unequal_heads) (simp_all add: nh q)
  then show ?thesis using m that by blast
qed

lemma concat_replicate_ne: "X \<noteq> [] \<Longrightarrow> I \<noteq> [] \<Longrightarrow> concat (replicate (length X) I) \<noteq> []"
  by (cases X) simp_all

lemma components_init_no_divisibility_check:
  assumes dx: "0 \<le> dim_X" and d: "0 < dim'" and ni: "0 < num_inds"
    and p: "case kw_p kw of None \<Rightarrow> True | Some p \<Rightarrow> 0 \<le> p \<and> p \<le> 1"
    and v: "kw_num_heads kw \<le> 0 \<or> \<not> split_size (nat dim') (nat (kw_num_heads kw)) dvd nat dim'"
  shows "\<exists>s. SAB_init dim_X dim' kw dr = Inr s \<and>
             (\<forall>X msk. concat X \<noteq> [] \<longrightarrow> SAB_forward s X msk = None)"
    and "\<exists>S. StackedSAB_init dim_X dim' num_blocks kw dr dr2 = Inr S \<and>
             (\<forall>X msk. concat X \<noteq> [] \<longrightarrow> StackedSAB_forward S X msk = None)"
    and "\<exists>P. PMA_init dim_X dim' num_inds kw seed dr = Inr P \<and>
             (\<forall>X msk. X \<noteq> [] \<longrightarrow> PMA_forward P X msk = None)"
    and "\<exists>B. ISAB_init dim_X dim' num_inds kw idr = Inr B \<and>
             (\<forall>X msk. X \<noteq> [] \<longrightarrow> ISAB_forward B X msk = None)"
    and "\<exists>T. StackedISAB_init dim_X dim' num_inds num_blocks kw idr idr2 = Inr T \<and>
             (\<forall>X msk. X \<noteq> [] \<longrightarrow> StackedISAB_forward T X msk = None)"
    and "\<exists>a. aPMA_init dim_X dim' kw adr = Inr a \<and>
             (\<forall>X k. X \<noteq> [] \<longrightarrow> aPMA_forward a X k = None)"
proof -
  have d0: "0 \<le> dim'" using d by simp
  have seeds: "map (\<lambda>r. map (sd r) [0..<nat dim']) [0..<nat n] \<noteq> []" if "0 < n" for sd and n :: int
    using that by simp
  have pma: "\<exists>P. PMA_init dX dim' n kw sd dr' = Inr P \<and>
                  (\<forall>X msk. X \<noteq> [] \<longrightarrow> PMA_forward P X msk = None)"
    if dX: "0 \<le> dX" and n: "0 < n" for dX n sd dr'
  proof -
    obtain m where m: "MAB_init dim' dX dim' kw dr' = Inr m"
      and f: "\<And>X Y msk. concat X \<noteq> [] \<Longrightarrow> MAB_forward m X Y msk = None"
      using MAB_init_fails_at_forward[OF d0 dX d0 p, of dr'] v by metis
    let ?P = "\<lparr>pma_I = map (\<lambda>r. map (sd r) [0..<nat dim']) [0..<nat n], pma_mab = m\<rparr>"
    have "PMA_init dX dim' n kw sd dr' = Inr ?P"
      using d n m by (simp add: PMA_init_def bind_error_def)
    moreover have "PMA_forward ?P X msk = None" if "X \<noteq> []" for X msk
      unfolding PMA_forward_def
      using f[of "replicate (length X) (pma_I ?P)" X msk] concat_replicate_ne[OF that seeds[OF n]]
      by simp
    ultimately show ?thesis by blast
  qed
  have sab: "\<exists>s. SAB_init dX dim' kw dr' = Inr s \<and>
                  (\<forall>X msk. concat X \<noteq> [] \<longrightarrow> SAB_forward s X msk = None)"
    if dX: "0 \<le> dX" for dX dr'
  proof -
    obtain m where m: "MAB_init dX dX dim' kw dr' = Inr m"
      and f: "\<And>X Y msk. concat X \<noteq> [] \<Longrightarrow> MAB_forward m X Y msk = None"
      using MAB_init_fails_at_forward[OF dX dX d0 p, of dr'] v by metis
    have "SAB_init dX dim' kw dr' = Inr \<lparr>sab_mab = m\<rparr>"
      using m by (simp add: SAB_init_def bind_error_def)
    moreover have "SAB_forward \<lparr>sab_mab = m\<rparr> X msk = None" if "concat X \<noteq> []" for X msk
      using f[OF that] by (simp add: SAB_forward_def)
    ultimately show ?thesis by blast
  qed
  have isab: "\<exists>B. ISAB_init dX dim' num_inds kw idr' = Inr B \<and>
                   (\<forall>X msk. X \<noteq> [] \<longrightarrow> ISAB_forward B X msk = None)"
    if dX: "0 \<le> dX" for dX idr'
  proof -
    obtain P where P: "PMA_init dX dim' num_inds kw (draw_seed idr') (draw_pma idr') = Inr P"
      and fP: "\<And>X msk. X \<noteq> [] \<Longrightarrow> PMA_forward P X msk = None"
      using pma[OF dX ni] by blast
    obtain m where m: "MAB_init dX dim' dim' kw (draw_mab idr') = Inr m"
      using MAB_init_fails_at_forward[OF dX d0 d0 p] by metis
    have "ISAB_init dX dim' num_inds kw idr' = Inr \<lparr>isab_pma = P, isab_mab = m\<rparr>"
      using P m by (simp add: ISAB_init_def bind_error_def)
    moreover have "ISAB_forward \<lparr>isab_pma = P, isab_mab = m\<rparr> X msk = None" if "X \<noteq> []" for X msk
      using fP[OF that] by (simp add: ISAB_forward_def)
    ultimately show ?thesis by blast
  qed
  show "\<exists>s. SAB_init dim_X dim' kw dr = Inr s \<and>
             (\<forall>X msk. concat X \<noteq> [] \<longrightarrow> SAB_forward s X msk = None)"
    by (rule sab[OF dx])
  show "\<exists>P. PMA_init dim_X dim' num_inds kw seed dr = Inr P \<and>
             (\<forall>X msk. X \<noteq> [] \<longrightarrow> PMA_forward P X msk = None)"
    by (rule pma[OF dx ni])
  show "\<exists>B. ISAB_init dim_X dim' num_inds kw idr = Inr B \<and>
             (\<forall>X msk. X \<noteq> [] \<longrightarrow> ISAB_forward B X msk = None)"
    by (rule isab[OF dx])
  show "\<exists>S. StackedSAB_init dim_X dim' num_blocks kw dr dr2 = Inr S \<and>
             (\<forall>X msk. concat X \<noteq> [] \<longrightarrow> StackedSAB_forward S X msk = None)"
  proof -
    obtain s1 where s1: "SAB_init dim_X dim' kw dr = Inr s1"
      and f1: "\<And>X msk. concat X \<noteq> [] \<Longrightarrow> SAB_forward s1 X msk = None"
      using sab[OF dx] by blast
    obtain s2 where s2: "SAB_init dim' dim' kw dr2 = Inr s2" using sab[OF d0] by blast
    let ?S = "\<lparr>ssab_objects = [s1, s2], ssab_blocks = [0] @ replicate (nat (num_blocks - 1)) 1\<rparr>"
    have "StackedSAB_init dim_X dim' num_blocks kw dr dr2 = Inr ?S"
      using s1 s2 by (simp add: StackedSAB_init_def bind_error_def)
    moreover have "StackedSAB_forward ?S X msk = None" if "concat X \<noteq> []" for X msk
      using f1[OF that] by (simp add: StackedSAB_forward_def)
    ultimately show ?thesis by blast
  qed
  show "\<exists>T. StackedISAB_init dim_X dim' num_inds num_blocks kw idr idr2 = Inr T \<and>
             (\<forall>X msk. X \<noteq> [] \<longrightarrow> StackedISAB_forward T X msk = None)"
  proof -
    obtain b1 where b1: "ISAB_init dim_X dim' num_inds kw idr = Inr b1"
      and f1: "\<And>X msk. X \<noteq> [] \<Longrightarrow> ISAB_forward b1 X msk = None"
      using isab[OF dx] by blast
    obtain b2 where b2: "ISAB_init dim' dim' num_inds kw idr2 = Inr b2" using isab[OF d0] by blast
    let ?T = "\<lparr>sisab_objects = [b1, b2], sisab_blocks = [0] @ replicate (nat (num_blocks - 1)) 1\<rparr>"
    have "StackedISAB_init dim_X dim' num_inds num_blocks kw idr idr2 = Inr ?T"
      using b1 b2 by (simp add: StackedISAB_init_def bind_error_def)
    moreover have "StackedISAB_forward ?T X msk = None" if "X \<noteq> []" for X msk
      using f1[OF that] by (simp add: StackedISAB_forward_def)
    ultimately show ?thesis by blast
  qed
  show "\<exists>a. aPMA_init dim_X dim' kw adr = Inr a \<and>
             (\<forall>X k. X \<noteq> [] \<longrightarrow> aPMA_forward a X k = None)"
  proof -
    obtain P where P: "PMA_init dim' dim' 1 kw (draw_apma_seed adr) (draw_apma_pma adr) = Inr P"
      and fP: "\<And>X msk. X \<noteq> [] \<Longrightarrow> PMA_forward P X msk = None"
    proof -
      have "(0::int) < 1" by simp
      from pma[OF d0 this, of "draw_apma_seed adr" "draw_apma_pma adr"] show ?thesis
        using that by blast
    qed
    obtain m where m: "MAB_init dim' dim_X dim' kw (draw_apma_mab adr) = Inr m"
      and f: "\<And>X Y msk. concat X \<noteq> [] \<Longrightarrow> MAB_forward m X Y msk = None"
      using MAB_init_fails_at_forward[OF d0 dx d0 p, of "draw_apma_mab adr"] v by metis
    let ?I0 = "[[map (draw_I0 adr) [0..<nat dim']]]"
    let ?a = "\<lparr>apma_I0 = ?I0, apma_pma = P, apma_mab = m\<rparr>"
    have "aPMA_init dim_X dim' kw adr = Inr ?a"
      using d P m by (simp add: aPMA_init_def bind_error_def)
    moreover have "aPMA_forward ?a X k = None" if X: "X \<noteq> []" for X k
    proof (cases "nat (k - 1)")
      case 0
      have "concat (concat (replicate (length X) ?I0)) \<noteq> []" using X by (cases X) simp_all
      then show ?thesis using 0 f by (simp add: aPMA_forward_def)
    next
      case (Suc n)
      have "PMA_forward P ?I0 None = None" by (rule fP) simp
      then show ?thesis using Suc by (simp add: aPMA_forward_def)
    qed
    ultimately show ?thesis by blast
  qed
qed

section \<open>Shared blocks of the stacks\<close>

lemma SAB_loop_replicate:
  "SAB_loop objs (replicate n r) X msk = repeat_block (\<lambda>X'. SAB_forward (objs ! r) X' msk) n X"
proof (induction n arbitrary: X)
  case 0
  then show ?case by simp
next
  case (Suc n)
  show ?case by (cases "SAB_forward (objs ! r) X msk") (simp_all add: Suc.IH)
qed

lemma ISAB_loop_replicate:
  "ISAB_loop objs (replicate n r) X msk = repeat_block (\<lambda>X'. ISAB_forward (objs ! r) X' msk) n X"
proof (induction n arbitrary: X)
  case 0
  then show ?case by simp
next
  case (Suc n)
  show ?case by (cases "ISAB_forward (objs ! r) X msk") (simp_all add: Suc.IH)
qed

lemma shared_blocks:
  assumes "2 \<le> k" and "blocks = [0] @ replicate (nat (k - 1)) (1::nat)"
  shows "length blocks = nat k"
    and "\<forall>i j. 1 \<le> i \<and> i < nat k \<and> 1 \<le> j \<and> j < nat k \<longrightarrow> blocks ! i = blocks ! j"
    and "\<forall>i. 1 \<le> i \<and> i < nat k \<longrightarrow> blocks ! i = 1"
    and "blocks ! 0 = 0"
proof -
  have n: "Suc (nat (k - 1)) = nat k" using assms(1) by simp
  show "length blocks = nat k" using n by (simp add: assms(2))
  show 3: "\<forall>i. 1 \<le> i \<and> i < nat k \<longrightarrow> blocks ! i = 1"
  proof (intro allI impI)
    fix i assume "1 \<le> i \<and> i < nat k"
    then obtain i' where "i = Suc i'" "i' < nat (k - 1)" using n by (cases i) auto
    then show "blocks ! i = 1" by (simp add: assms(2))
  qed
  then show "\<forall>i j. 1 \<le> i \<and> i < nat k \<and> 1 \<le> j \<and> j < nat k \<longrightarrow> blocks ! i = blocks ! j"
    by simp
  show "blocks ! 0 = 0" by (simp add: assms(2))
qed

text \<open>
  C10. A \<^verbatim>\<open>StackedSAB\<close> or \<^verbatim>\<open>StackedISAB\<close> constructed with \<open>num_blocks = k \<ge> 2\<close> holds two
  module objects and \<open>k\<close> block references: the first refers to the first object, and all
  others refer to one and the same second object, so a new value of that object is the
  value of each of the blocks 2 to \<open>k\<close>; and \<^verbatim>\<open>forward\<close> applies the first block and then
  \<open>k - 1\<close> times the function of the second object.
\<close>

theorem stacked_blocks_shared:
  assumes "StackedSAB_init dim_X dim' k kw dr1 dr2 = Inr S"
    and "StackedISAB_init dim_X dim' num_inds k kw di1 di2 = Inr T"
    and "2 \<le> k"
  shows "length (ssab_objects S) = 2 \<and> length (ssab_blocks S) = nat k \<and>
         ssab_blocks S ! 0 = 0 \<and>
         (\<forall>i. 1 \<le> i \<and> i < nat k \<longrightarrow> ssab_blocks S ! i = 1) \<and>
         (\<forall>i s'. 1 \<le> i \<and> i < nat k \<longrightarrow> (ssab_objects S)[1 := s'] ! (ssab_blocks S ! i) = s') \<and>
         StackedSAB_forward S X msk
           = SAB_forward (ssab_objects S ! 0) X msk
             \<bind> repeat_block (\<lambda>X'. SAB_forward (ssab_objects S ! 1) X' msk) (nat k - 1) \<and>
         length (sisab_objects T) = 2 \<and> length (sisab_blocks T) = nat k \<and>
         sisab_blocks T ! 0 = 0 \<and>
         (\<forall>i. 1 \<le> i \<and> i < nat k \<longrightarrow> sisab_blocks T ! i = 1) \<and>
         (\<forall>i t'. 1 \<le> i \<and> i < nat k \<longrightarrow> (sisab_objects T)[1 := t'] ! (sisab_blocks T ! i) = t') \<and>
         StackedISAB_forward T X msk
           = ISAB_forward (sisab_objects T ! 0) X msk
             \<bind> repeat_block (\<lambda>X'. ISAB_forward (sisab_objects T ! 1) X' msk) (nat k - 1)"
proof -
  obtain s1 s2 where S: "S = \<lparr>ssab_objects = [s1, s2], ssab_blocks = [0] @ replicate (nat (k - 1)) 1\<rparr>"
    using assms(1) by (auto simp: StackedSAB_init_def bind_error_def split: sum.splits)
  obtain t1 t2 where T: "T = \<lparr>sisab_objects = [t1, t2], sisab_blocks = [0] @ replicate (nat (k - 1)) 1\<rparr>"
    using assms(2) by (auto simp: StackedISAB_init_def bind_error_def split: sum.splits)
  have bS: "ssab_blocks S = [0] @ replicate (nat (k - 1)) 1" by (simp add: S)
  have bT: "sisab_blocks T = [0] @ replicate (nat (k - 1)) 1" by (simp add: T)
  note sS = shared_blocks[OF assms(3) bS] and sT = shared_blocks[OF assms(3) bT]
  have n: "nat (k - 1) = nat k - 1" using assms(3) by simp
  have fS: "StackedSAB_forward S X msk
           = SAB_forward (ssab_objects S ! 0) X msk
             \<bind> repeat_block (\<lambda>X'. SAB_forward (ssab_objects S ! 1) X' msk) (nat k - 1)"
    unfolding StackedSAB_forward_def bS n
    by (cases "SAB_forward (ssab_objects S ! 0) X msk") (simp_all add: SAB_loop_replicate)
  have fT: "StackedISAB_forward T X msk
           = ISAB_forward (sisab_objects T ! 0) X msk
             \<bind> repeat_block (\<lambda>X'. ISAB_forward (sisab_objects T ! 1) X' msk) (nat k - 1)"
    unfolding StackedISAB_forward_def bT n
    by (cases "ISAB_forward (sisab_objects T ! 0) X msk") (simp_all add: ISAB_loop_replicate)
  have uS: "\<forall>i s'. 1 \<le> i \<and> i < nat k \<longrightarrow> (ssab_objects S)[1 := s'] ! (ssab_blocks S ! i) = s'"
    using sS(3) by (simp add: S)
  have uT: "\<forall>i t'. 1 \<le> i \<and> i < nat k \<longrightarrow> (sisab_objects T)[1 := t'] ! (sisab_blocks T ! i) = t'"
    using sT(3) by (simp add: T)
  have lS: "length (ssab_objects S) = 2" by (simp add: S)
  have lT: "length (sisab_objects T) = 2" by (simp add: T)
  show ?thesis by (intro conjI lS sS(1) sS(4) sS(3) uS fS lT sT(1) sT(4) sT(3) uT fT)
qed

lemma MAB_init_kw2: "\<not> isl (MAB_init a c 2 kw2 draw1) \<longleftrightarrow> 0 \<le> a \<and> 0 \<le> c"
  by (auto simp: MAB_init_def Linear_init_def bind_error_def kw2_def)

lemma ssab3_init: "StackedSAB_init 1 2 3 kw2 draw1 draw1 = Inr ssab3"
proof -
  have "\<not> isl (MAB_init 1 1 2 kw2 draw1)" "\<not> isl (MAB_init 2 2 2 kw2 draw1)"
    by (simp_all add: MAB_init_kw2)
  then have "\<not> isl (StackedSAB_init 1 2 3 kw2 draw1 draw1)"
    by (auto simp: StackedSAB_init_def SAB_init_def bind_error_def split: sum.splits)
  then show ?thesis by (simp add: ssab3_def)
qed

lemma sisab3_init: "StackedISAB_init 1 2 1 3 kw2 idraw1 idraw1 = Inr sisab3"
proof -
  have "\<not> isl (MAB_init 1 1 2 kw2 draw1)" "\<not> isl (MAB_init 2 2 2 kw2 draw1)"
    "\<not> isl (MAB_init 2 1 2 kw2 draw1)" "\<not> isl (MAB_init 1 2 2 kw2 draw1)"
    by (simp_all add: MAB_init_kw2)
  then have "\<not> isl (StackedISAB_init 1 2 1 3 kw2 idraw1 idraw1)"
    by (auto simp: StackedISAB_init_def ISAB_init_def PMA_init_def idraw1_def bind_error_def
        split: sum.splits)
  then show ?thesis by (simp add: sisab3_def)
qed

text \<open>Three blocks: the second and the third reference are the same.\<close>

theorem stacked_blocks_shared_witness:
  "StackedSAB_init 1 2 3 kw2 draw1 draw1 = Inr ssab3 \<and>
   StackedISAB_init 1 2 1 3 kw2 idraw1 idraw1 = Inr sisab3 \<and> (2::int) \<le> 3 \<and>
   length (ssab_blocks ssab3) = nat 3 \<and> ssab_blocks ssab3 ! 0 = 0 \<and>
   ssab_blocks ssab3 ! 1 = 1 \<and> ssab_blocks ssab3 ! 2 = 1 \<and>
   length (sisab_blocks sisab3) = nat 3 \<and> sisab_blocks sisab3 ! 0 = 0 \<and>
   sisab_blocks sisab3 ! 1 = 1 \<and> sisab_blocks sisab3 ! 2 = 1"
proof -
  have 3: "(2::int) \<le> 3" by simp
  note th = stacked_blocks_shared[OF ssab3_init sisab3_init 3, of "[]" None]
  have a: "length (ssab_blocks ssab3) = nat 3" "ssab_blocks ssab3 ! 0 = 0"
    "\<forall>i. 1 \<le> i \<and> i < nat 3 \<longrightarrow> ssab_blocks ssab3 ! i = 1"
    "length (sisab_blocks sisab3) = nat 3" "sisab_blocks sisab3 ! 0 = 0"
    "\<forall>i. 1 \<le> i \<and> i < nat 3 \<longrightarrow> sisab_blocks sisab3 ! i = 1"
    using th by blast+
  have "ssab_blocks ssab3 ! 1 = 1" "ssab_blocks ssab3 ! 2 = 1"
    "sisab_blocks sisab3 ! 1 = 1" "sisab_blocks sisab3 ! 2 = 1"
    using a(3) a(6) by simp_all
  then show ?thesis using ssab3_init sisab3_init a(1,2,4,5) by simp
qed

section \<open>Shapes and rows over \<^verbatim>\<open>float32\<close> values\<close>

text \<open>
  The second embedding has the shapes of the first: on well-shaped inputs
  \<open>MAB_forward_fp\<close> returns, and its rows are those of \<open>MAB_row_fp\<close>.
\<close>

lemma apply_linear_tab2_fp:
  assumes "\<And>i j. i < b \<Longrightarrow> j < n \<Longrightarrow> length (f i j) = in_features L"
  shows "apply_linear_fp L (tab2 b n f) = Some (tab2 b n (\<lambda>i j. linear_row_fp L (f i j)))"
  using assms by (auto simp: apply_linear_fp_def map_map_tab2 dest!: in_tab2D)

lemma apply_norm_tab2_fp:
  assumes "wf_norm d N" "\<And>i j. i < b \<Longrightarrow> j < n \<Longrightarrow> length (f i j) = d"
  shows "apply_norm_fp N (tab2 b n f) = Some (tab2 b n (\<lambda>i j. norm_row_fp N (f i j)))"
proof (cases N)
  case Identity_norm
  then show ?thesis by (simp add: norm_row_fp_def)
next
  case (LayerNorm d' g bb eps)
  then show ?thesis using assms
    by (auto simp: norm_row_fp_def map_map_tab2 dest!: in_tab2D)
qed

lemma length_norm_row_fp: "wf_norm d N \<Longrightarrow> length r = d \<Longrightarrow> length (norm_row_fp N r) = d"
  by (cases N) (auto simp: norm_row_fp_def layer_norm_row_fp_def Let_def)

lemma length_linear_row_fp: "wf_Linear i k L \<Longrightarrow> length (linear_row_fp L x) = k"
  by (simp add: wf_Linear_def linear_row_fp_def)

lemma add3_tab2_fp:
  assumes "\<And>i j. i < b \<Longrightarrow> j < n \<Longrightarrow> length (f i j) = length (g i j)"
  shows "add3_fp (tab2 b n f) (tab2 b n g) = Some (tab2 b n (\<lambda>i j. map2 fp_add (f i j) (g i j)))"
  using same_shape_tab2[of b n f g] assms by (simp add: add3_fp_def map2_map2_tab2)

lemma relu_tab2_fp: "relu_fp (tab2 b n f) = tab2 b n (\<lambda>i j. map (fp_max (Num 0)) (f i j))"
  by (simp add: relu_fp_def map_map_tab2)

lemma matmul_nt_hb3_fp:
  assumes "\<And>h i j k. h < nh \<Longrightarrow> i < b \<Longrightarrow> j < nx \<Longrightarrow> k < ny \<Longrightarrow> length (F h i j) = length (G h i k)"
  shows "matmul_nt_fp (hb3 nh b nx F) (hb3 nh b ny G) =
         Some (hb3 nh b nx (\<lambda>h i j. map (\<lambda>k. dot_fp (F h i j) (G h i k)) [0..<ny]))"
proof -
  have chk: "\<forall>(a, b) \<in> set (zip (hb3 nh b nx F) (hb3 nh b ny G)).
               \<forall>r \<in> set a. \<forall>c \<in> set b. length r = length c"
    using assms by (auto simp: hb3_def zip_head_blocks set_head_blocks)
  have "map2 (\<lambda>a b. map (\<lambda>r. map (dot_fp r) b) a) (hb3 nh b nx F) (hb3 nh b ny G)
        = hb3 nh b nx (\<lambda>h i j. map (\<lambda>k. dot_fp (F h i j) (G h i k)) [0..<ny])"
    by (simp add: hb3_def zip_head_blocks map_head_blocks comp_def)
  then show ?thesis using chk by (simp add: matmul_nt_fp_def)
qed

lemma MAB_logits_hb3_fp:
  assumes "\<And>h i j k. h < nh \<Longrightarrow> i < b \<Longrightarrow> j < nx \<Longrightarrow> k < ny \<Longrightarrow> length (F h i j) = length (G h i k)"
  shows "MAB_logits_fp m (hb3 nh b nx F) (hb3 nh b ny G) =
         Some (hb3 nh b nx (\<lambda>h i j. map (\<lambda>k. fp_div (dot_fp (F h i j) (G h i k))
                  (Num (sqrt (real (out_features (fc_q m)))))) [0..<ny]))"
  by (simp add: MAB_logits_fp_def matmul_nt_hb3_fp[OF assms] map_map_hb3 comp_def)

lemma masked_fill_hb3_fp:
  assumes "\<And>h i j. h < nh \<Longrightarrow> i < b \<Longrightarrow> j < n \<Longrightarrow> length (f h i j) = length (g h i j)"
  shows "masked_fill_neg_inf_fp (hb3 nh b n f) (hb3 nh b n g) =
         Some (hb3 nh b n (\<lambda>h i j. map2 fill_neg_inf_fp (f h i j) (g h i j)))"
  using same_shape_hb3[OF assms] by (simp add: masked_fill_neg_inf_fp_def map2_map2_hb3)

lemma MAB_weights_hb3_fp:
  assumes nh: "0 < num_heads m"
    and msk: "wf_mask b ny msk"
    and nx: "msk \<noteq> None \<longrightarrow> 0 < b \<longrightarrow> 0 < nx"
    and L: "\<And>h i j. h < nat (num_heads m) \<Longrightarrow> i < b \<Longrightarrow> j < nx \<Longrightarrow> length (L h i j) = ny"
  shows "MAB_weights_fp m (tab2 b nx q) (hb3 (nat (num_heads m)) b nx L) msk =
         Some (hb3 (nat (num_heads m)) b nx (\<lambda>h i j. weight_row_fp (mask_row msk i) (L h i j)))"
proof (cases msk)
  case None
  then show ?thesis
    by (simp add: MAB_weights_fp_def map_map_hb3 weight_row_fp_def mask_row_def)
next
  case (Some mk)
  let ?nh = "nat (num_heads m)"
  have len: "length mk = b" and rows: "\<And>i. i < b \<Longrightarrow> length (mk ! i) = ny"
    using msk Some by (auto simp: wf_mask_def)
  have s1: "stack_mask (tab2 b nx q) mk = Some (tab2 b nx (\<lambda>i j. mk ! i))"
    using stack_mask_tab2[OF len] nx Some by simp
  have s2: "cat0 (replicate ?nh (tab2 b nx (\<lambda>i j. mk ! i))) = Some (hb3 ?nh b nx (\<lambda>h i j. mk ! i))"
    using nh rows by (intro cat0_replicate_tab2[where w = ny]) auto
  have s3: "masked_fill_neg_inf_fp (hb3 ?nh b nx (\<lambda>h i j. mk ! i)) (hb3 ?nh b nx L)
        = Some (hb3 ?nh b nx (\<lambda>h i j. map2 fill_neg_inf_fp (mk ! i) (L h i j)))"
    using rows L by (intro masked_fill_hb3_fp) simp
  show ?thesis using Some
    by (simp add: MAB_weights_fp_def s1 s2 s3 map_map_hb3 weight_row_fp_def mask_row_def)
qed

lemma matmul_hb3_fp:
  assumes "\<And>h i j. h < nh \<Longrightarrow> i < b \<Longrightarrow> j < nx \<Longrightarrow> length (A h i j) = ny"
  shows "matmul_fp w (hb3 nh b nx A) (hb3 nh b ny V) =
         Some (hb3 nh b nx (\<lambda>h i j. map (\<lambda>c. dot_fp (A h i j) (map (\<lambda>k. V h i k ! c) [0..<ny])) [0..<w]))"
  unfolding matmul_fp_def transpose_last_hb3
  by (rule matmul_nt_hb3_fp) (simp add: assms)

lemma length_head_row_fp [simp]: "length (head_row_fp m h mr Kb Vb q) = head_dim m"
  by (simp add: head_row_fp_def)

lemma length_attn_row_fp:
  assumes "wf_MAB dx dy d m"
  shows "length (attn_row_fp m mr Kb Vb q) = d"
proof -
  have "out_features (fc_q m) = d" "nat (num_heads m) dvd d"
    using assms by (auto simp: wf_MAB_def wf_Linear_def)
  then have "nat (num_heads m) * head_dim m = d" by (simp add: head_dim_def)
  then show ?thesis by (simp add: attn_row_fp_def length_concat_const)
qed

lemma length_combine_row_fp:
  assumes "wf_MAB dx dy d m" "length q = d" "length a = d"
  shows "length (combine_row_fp m q a) = d"
proof -
  have n1: "wf_norm d (ln1 m)" and n2: "wf_norm d (ln2 m)" and o: "wf_Linear d d (fc_o m)"
    using assms(1) by (auto simp: wf_MAB_def)
  have l1: "length (norm_row_fp (ln1 m) (if residual m then map2 fp_add q a else a)) = d"
    using assms by (intro length_norm_row_fp[OF n1]) simp
  show ?thesis unfolding combine_row_fp_def Let_def
    by (intro length_norm_row_fp[OF n2]) (simp add: l1 length_linear_row_fp[OF o])
qed

lemma MAB_attn_tab2_fp:
  assumes wf: "wf_MAB dx dy d m"
    and q: "\<And>i j. i < b \<Longrightarrow> j < nx \<Longrightarrow> length (q i j) = d"
    and k: "\<And>i j. i < b \<Longrightarrow> j < ny \<Longrightarrow> length (k i j) = d"
    and v: "\<And>i j. i < b \<Longrightarrow> j < ny \<Longrightarrow> length (v i j) = d"
    and msk: "wf_mask b ny msk"
    and nx: "msk \<noteq> None \<longrightarrow> 0 < b \<longrightarrow> 0 < nx"
  shows "MAB_attn_fp m (tab2 b nx q) (tab2 b ny k) (tab2 b ny v) msk =
         Some (tab2 b nx (\<lambda>i j. attn_row_fp m (mask_row msk i)
                 (map (k i) [0..<ny]) (map (v i) [0..<ny]) (q i j)))"
proof -
  let ?c = "num_heads m" and ?nh = "nat (num_heads m)" and ?s = "head_dim m"
  have c: "0 < ?c" and dv: "?nh dvd d" and nh: "0 < ?nh"
    and oq: "out_features (fc_q m) = d" and ok: "out_features (fc_k m) = d"
    and ov: "out_features (fc_v m) = d"
    using wf by (auto simp: wf_MAB_def wf_Linear_def)
  have s: "d div ?nh = ?s" by (simp add: head_dim_def oq)
  have ss: "split_size d ?nh = ?s" using split_size_dvd[OF nh dv] s by simp
  have ls: "\<And>r h. length r = d \<Longrightarrow> h < ?nh \<Longrightarrow> length (slice ?s h r) = ?s"
    using length_slice_dvd[OF _ nh dv] s by simp
  have Q': "split_heads ?c d (tab2 b nx q) = Some (hb3 ?nh b nx (\<lambda>h i j. slice ?s h (q i j)))"
    using split_heads_tab2[OF q c dv] s by simp
  have K': "split_heads ?c d (tab2 b ny k) = Some (hb3 ?nh b ny (\<lambda>h i j. slice ?s h (k i j)))"
    using split_heads_tab2[OF k c dv] s by simp
  have V': "split_heads ?c d (tab2 b ny v) = Some (hb3 ?nh b ny (\<lambda>h i j. slice ?s h (v i j)))"
    using split_heads_tab2[OF v c dv] s by simp
  let ?L = "\<lambda>h i j. map (\<lambda>k'. fp_div (dot_fp (slice ?s h (q i j)) (slice ?s h (k i k'))) (Num (sqrt (real d)))) [0..<ny]"
  have L: "MAB_logits_fp m (hb3 ?nh b nx (\<lambda>h i j. slice ?s h (q i j)))
             (hb3 ?nh b ny (\<lambda>h i j. slice ?s h (k i j))) = Some (hb3 ?nh b nx ?L)"
    unfolding oq[symmetric] by (rule MAB_logits_hb3_fp) (simp add: q k ls)
  let ?A = "\<lambda>h i j. weight_row_fp (mask_row msk i) (?L h i j)"
  have A: "MAB_weights_fp m (tab2 b nx q) (hb3 ?nh b nx ?L) msk = Some (hb3 ?nh b nx ?A)"
    by (rule MAB_weights_hb3_fp[OF c msk nx]) simp
  have lA: "\<And>h i j. h < ?nh \<Longrightarrow> i < b \<Longrightarrow> j < nx \<Longrightarrow> length (?A h i j) = ny"
    using msk by (auto simp: weight_row_fp_def mask_row_def softmax_fp_def softmax_fp_def Let_def
        wf_mask_def split: option.splits)
  let ?R = "\<lambda>h i j. map (\<lambda>c. dot_fp (?A h i j) (map (\<lambda>k'. slice ?s h (v i k') ! c) [0..<ny])) [0..<?s]"
  have AV: "matmul_fp ?s (hb3 ?nh b nx ?A) (hb3 ?nh b ny (\<lambda>h i j. slice ?s h (v i j)))
            = Some (hb3 ?nh b nx ?R)"
    by (rule matmul_hb3_fp) (rule lA)
  have ch: "chunk ?c (hb3 ?nh b nx ?R) = Some (map (\<lambda>h. tab2 b nx (?R h)) [0..<?nh])"
    by (rule chunk_hb3[OF c])
  have cl: "cat_last (map (\<lambda>h. tab2 b nx (?R h)) [0..<?nh])
            = Some (tab2 b nx (\<lambda>i j. concat (map (\<lambda>h. ?R h i j) [0..<?nh])))"
    by (rule cat_last_tabs[OF nh])
  have fin: "tab2 b nx (\<lambda>i j. concat (map (\<lambda>h. ?R h i j) [0..<?nh]))
      = tab2 b nx (\<lambda>i j. attn_row_fp m (mask_row msk i) (map (k i) [0..<ny]) (map (v i) [0..<ny]) (q i j))"
    by (simp add: attn_row_fp_def head_row_fp_def logit_row_fp_def oq comp_def)
  show ?thesis
    unfolding MAB_attn_fp_def oq ok ov ss
    by (simp add: Q' K' V' L A AV ch cl fin)
qed

lemma MAB_combine_tab2_fp:
  assumes wf: "wf_MAB dx dy d m"
    and q: "\<And>i j. i < b \<Longrightarrow> j < n \<Longrightarrow> length (q i j) = d"
    and a: "\<And>i j. i < b \<Longrightarrow> j < n \<Longrightarrow> length (a i j) = d"
  shows "MAB_combine_fp m (tab2 b n q) (tab2 b n a) =
         Some (tab2 b n (\<lambda>i j. combine_row_fp m (q i j) (a i j)))"
proof -
  have n1: "wf_norm d (ln1 m)" and n2: "wf_norm d (ln2 m)" and o: "wf_Linear d d (fc_o m)"
    using wf by (auto simp: wf_MAB_def)
  have io: "in_features (fc_o m) = d" using o by (simp add: wf_Linear_def)
  let ?pre = "\<lambda>i j. if residual m then map2 fp_add (q i j) (a i j) else a i j"
  let ?o1 = "\<lambda>i j. norm_row_fp (ln1 m) (?pre i j)"
  have lpre: "\<And>i j. i < b \<Longrightarrow> j < n \<Longrightarrow> length (?pre i j) = d" using q a by simp
  have lo1: "\<And>i j. i < b \<Longrightarrow> j < n \<Longrightarrow> length (?o1 i j) = d"
    using length_norm_row_fp[OF n1] lpre by simp
  have O1: "apply_norm_fp (ln1 m) (tab2 b n ?pre) = Some (tab2 b n ?o1)"
    by (rule apply_norm_tab2_fp[OF n1 lpre])
  have F: "apply_linear_fp (fc_o m) (tab2 b n ?o1) = Some (tab2 b n (\<lambda>i j. linear_row_fp (fc_o m) (?o1 i j)))"
    by (rule apply_linear_tab2_fp) (simp add: lo1 io)
  let ?s2 = "\<lambda>i j. map2 fp_add (?o1 i j) (map (fp_max (Num 0)) (linear_row_fp (fc_o m) (?o1 i j)))"
  have S2: "add3_fp (tab2 b n ?o1) (tab2 b n (\<lambda>i j. map (fp_max (Num 0)) (linear_row_fp (fc_o m) (?o1 i j))))
            = Some (tab2 b n ?s2)"
    by (rule add3_tab2_fp) (simp add: lo1 length_linear_row_fp[OF o])
  have ls2: "\<And>i j. i < b \<Longrightarrow> j < n \<Longrightarrow> length (?s2 i j) = d"
    by (simp add: lo1 length_linear_row_fp[OF o])
  have O2: "apply_norm_fp (ln2 m) (tab2 b n ?s2) = Some (tab2 b n (\<lambda>i j. norm_row_fp (ln2 m) (?s2 i j)))"
    by (rule apply_norm_tab2_fp[OF n2 ls2])
  have fin: "tab2 b n (\<lambda>i j. norm_row_fp (ln2 m) (?s2 i j)) = tab2 b n (\<lambda>i j. combine_row_fp m (q i j) (a i j))"
    by (simp add: combine_row_fp_def Let_def)
  show ?thesis
  proof (cases "residual m")
    case True
    have S1: "add3_fp (tab2 b n q) (tab2 b n a) = Some (tab2 b n ?pre)"
      using add3_tab2_fp[of b n q a] q a True by simp
    show ?thesis using True S1 O1 F S2 O2 fin unfolding MAB_combine_fp_def
      by (simp add: relu_tab2_fp)
  next
    case False
    show ?thesis using False O1 F S2 O2 fin unfolding MAB_combine_fp_def
      by (simp add: relu_tab2_fp)
  qed
qed

lemma MAB_forward_rows_fp:
  assumes wf: "wf_MAB dx dy d m"
    and X: "wf_tensor b nx dx X" and Y: "wf_tensor b ny dy Y"
    and msk: "wf_mask b ny msk"
    and nx: "msk \<noteq> None \<longrightarrow> 0 < b \<longrightarrow> 0 < nx"
  shows "MAB_forward_fp m X Y msk =
         Some (tab2 b nx (\<lambda>i j. MAB_row_fp m (mask_row msk i) (Y ! i) (X ! i ! j)))"
proof -
  have fq: "wf_Linear dx d (fc_q m)" and fk: "wf_Linear dy d (fc_k m)"
    and fv: "wf_Linear dy d (fc_v m)"
    using wf by (auto simp: wf_MAB_def)
  have Xt: "X = tab2 b nx (\<lambda>i j. X ! i ! j)" by (rule wf_tensor_tab2[OF X])
  have Yt: "Y = tab2 b ny (\<lambda>i j. Y ! i ! j)" by (rule wf_tensor_tab2[OF Y])
  have lX: "\<And>i j. i < b \<Longrightarrow> j < nx \<Longrightarrow> length (X ! i ! j) = dx"
    using wf_tensor_nth[OF X] by simp
  have lY: "\<And>i j. i < b \<Longrightarrow> j < ny \<Longrightarrow> length (Y ! i ! j) = dy"
    using wf_tensor_nth[OF Y] by simp
  have lYi: "\<And>i. i < b \<Longrightarrow> length (Y ! i) = ny"
    using wf_tensor_nth[OF Y] by simp
  let ?q = "\<lambda>i j. linear_row_fp (fc_q m) (X ! i ! j)"
  let ?k = "\<lambda>i j. linear_row_fp (fc_k m) (Y ! i ! j)"
  let ?v = "\<lambda>i j. linear_row_fp (fc_v m) (Y ! i ! j)"
  have Q: "apply_linear_fp (fc_q m) X = Some (tab2 b nx ?q)"
    using apply_linear_tab2_fp[of b nx "\<lambda>i j. X ! i ! j" "fc_q m"] lX fq Xt
    by (simp add: wf_Linear_def)
  have K: "apply_linear_fp (fc_k m) Y = Some (tab2 b ny ?k)"
    using apply_linear_tab2_fp[of b ny "\<lambda>i j. Y ! i ! j" "fc_k m"] lY fk Yt
    by (simp add: wf_Linear_def)
  have V: "apply_linear_fp (fc_v m) Y = Some (tab2 b ny ?v)"
    using apply_linear_tab2_fp[of b ny "\<lambda>i j. Y ! i ! j" "fc_v m"] lY fv Yt
    by (simp add: wf_Linear_def)
  let ?a = "\<lambda>i j. attn_row_fp m (mask_row msk i) (map (?k i) [0..<ny]) (map (?v i) [0..<ny]) (?q i j)"
  have At: "MAB_attn_fp m (tab2 b nx ?q) (tab2 b ny ?k) (tab2 b ny ?v) msk = Some (tab2 b nx ?a)"
    by (rule MAB_attn_tab2_fp[OF wf _ _ _ msk nx])
       (simp_all add: length_linear_row_fp[OF fq] length_linear_row_fp[OF fk] length_linear_row_fp[OF fv])
  have C: "MAB_combine_fp m (tab2 b nx ?q) (tab2 b nx ?a)
           = Some (tab2 b nx (\<lambda>i j. combine_row_fp m (?q i j) (?a i j)))"
    by (rule MAB_combine_tab2_fp[OF wf]) (simp_all add: length_linear_row_fp[OF fq] length_attn_row_fp[OF wf])
  have fin: "tab2 b nx (\<lambda>i j. combine_row_fp m (?q i j) (?a i j))
             = tab2 b nx (\<lambda>i j. MAB_row_fp m (mask_row msk i) (Y ! i) (X ! i ! j))"
  proof (rule tab2_cong)
    fix i j assume i: "i < b" and "j < nx"
    have "map (?k i) [0..<ny] = map (linear_row_fp (fc_k m)) (Y ! i)"
      using map_conv_nth[of "linear_row_fp (fc_k m)" "Y ! i"] lYi[OF i] by simp
    moreover have "map (?v i) [0..<ny] = map (linear_row_fp (fc_v m)) (Y ! i)"
      using map_conv_nth[of "linear_row_fp (fc_v m)" "Y ! i"] lYi[OF i] by simp
    ultimately show "combine_row_fp m (?q i j) (?a i j) = MAB_row_fp m (mask_row msk i) (Y ! i) (X ! i ! j)"
      by (simp add: MAB_row_fp_def Let_def)
  qed
  show ?thesis unfolding MAB_forward_fp_def by (simp add: Q K V At C fin)
qed

text \<open>
  A masked position has the weight 0 whatever the other logits are: its numerator is
  \<open>exp (-inf - m)\<close>, which is 0 or \<^verbatim>\<open>NaN\<close>, and so is the quotient before the
  \<^verbatim>\<open>NaN\<close> entries are replaced by 0.
\<close>

lemma rnd_zero [simp]: "rnd 0 = Num 0"
  by (simp add: rnd_def overflow_bound_def)

lemma fp_exp_masked: "fp_exp (fp_sub MinusInf mx) = Num 0 \<or> fp_exp (fp_sub MinusInf mx) = Nan"
  by (cases mx) (simp_all add: fp_sub_def)

lemma fp_div_zero_or_nan:
  assumes "e = Num 0 \<or> e = Nan"
  shows "nan_to_zero_fp (fp_div e z) = Num 0"
  using assms by (cases z) auto

lemma length_softmax_fp [simp]: "length (softmax_fp l) = length l"
  by (simp add: softmax_fp_def Let_def)

lemma softmax_fp_masked:
  assumes "j < length l" "l ! j = MinusInf"
  shows "nan_to_zero_fp (softmax_fp l ! j) = Num 0"
  using assms fp_div_zero_or_nan[OF fp_exp_masked]
  by (simp add: softmax_fp_def Let_def)

lemma weight_row_fp_masked_zero:
  assumes "length r = length l" "j < length l" "r ! j = 0"
  shows "weight_row_fp (Some r) l ! j = Num 0"
proof -
  let ?L = "map2 fill_neg_inf_fp r l"
  have "j < length ?L" and "?L ! j = MinusInf"
    using assms by (simp_all add: fill_neg_inf_fp_def)
  then have "nan_to_zero_fp (softmax_fp ?L ! j) = Num 0" by (rule softmax_fp_masked)
  then show ?thesis using assms by (simp add: weight_row_fp_def)
qed

lemma weight_row_fp_masked_cong:
  assumes "length r = n" "length l = n" "length l' = n"
    and "\<And>j. j < n \<Longrightarrow> r ! j \<noteq> 0 \<Longrightarrow> l ! j = l' ! j"
  shows "weight_row_fp (Some r) l = weight_row_fp (Some r) l'"
proof -
  have "map2 fill_neg_inf_fp r l = map2 fill_neg_inf_fp r l'"
    using assms by (intro nth_equalityI) (auto simp: fill_neg_inf_fp_def)
  then show ?thesis by (simp add: weight_row_fp_def)
qed

lemma fp_mul_zero_finite: "is_finite v \<Longrightarrow> fp_mul (Num 0) v = Num 0"
  by (cases v) simp_all

lemma dot_fp_cong_zero:
  assumes "length a = n" "length c = n" "length c' = n"
    and "\<And>j. j < n \<Longrightarrow> c ! j = c' ! j \<or> (a ! j = Num 0 \<and> is_finite (c ! j) \<and> is_finite (c' ! j))"
  shows "dot_fp a c = dot_fp a c'"
proof -
  have "map2 fp_mul a c = map2 fp_mul a c'"
  proof (rule nth_equalityI)
    show "length (map2 fp_mul a c) = length (map2 fp_mul a c')" using assms by simp
  next
    fix j assume "j < length (map2 fp_mul a c)"
    then have j: "j < n" using assms by simp
    show "map2 fp_mul a c ! j = map2 fp_mul a c' ! j"
      using assms(4)[OF j] assms(1,2,3) j by (auto simp: fp_mul_zero_finite)
  qed
  then show ?thesis by (simp add: dot_fp_def)
qed

lemma nth_slice: "(h + 1) * s \<le> length xs \<Longrightarrow> c < s \<Longrightarrow> slice s h xs ! c = xs ! (h * s + c)"
  by (simp add: slice_def algebra_simps)

lemma all_finite_nth: "all_finite v \<Longrightarrow> k < length v \<Longrightarrow> is_finite (v ! k)"
  by (simp add: all_finite_def list_all_length)

lemma slice_finite:
  assumes "all_finite v" "(h + 1) * s \<le> length v" "c < s"
  shows "is_finite (slice s h v ! c)"
proof -
  have "h * s + c < length v" using assms(2,3) by (simp add: algebra_simps)
  then show ?thesis using assms by (simp add: nth_slice all_finite_nth)
qed

lemma head_fits:
  assumes "nat nh * s = d" "h < nat nh"
  shows "(h + 1) * s \<le> d"
proof -
  have "(h + 1) * s \<le> nat nh * s" using assms(2) by (intro mult_right_mono) auto
  then show ?thesis using assms(1) by simp
qed

text \<open>The definitions that evaluate a call on a small instance.\<close>

lemmas fp_eval_defs =
  MAB_forward_fp_def apply_linear_fp_def linear_row_fp_def dot_fp_def fp_sum_def MAB_attn_fp_def
  split_heads_def chunk_last_def cat0_def uniform_def split_size_def num_chunks_def slice_def
  MAB_logits_fp_def matmul_nt_fp_def MAB_weights_fp_def stack_mask_def masked_fill_neg_inf_fp_def
  fill_neg_inf_fp_def same_shape_def softmax_fp_def fp_max_list_def fp_sub_def
  matmul_fp_def transpose_last_def
  chunk_def cat_last_def MAB_combine_fp_def add3_fp_def relu_fp_def
  lin1_def mab1_def mab_v_def rnd_def overflow_bound_def signed_inf_def

lemma wf_mab_v: "wf_MAB 1 1 1 (mab_v w)"
  by (simp add: wf_MAB_def wf_Linear_def mab_v_def mab1_def lin1_def)

section \<open>Masked positions\<close>

lemma head_row_fp_masked_cong:
  assumes n: "length r = n" "length Kb = n" "length Kb' = n" "length Vb = n" "length Vb' = n"
    and eq: "\<And>j. j < n \<Longrightarrow> r ! j \<noteq> 0 \<Longrightarrow> Kb ! j = Kb' ! j \<and> Vb ! j = Vb' ! j"
    and fin: "\<And>j. j < n \<Longrightarrow> r ! j = 0 \<Longrightarrow> all_finite (Vb ! j) \<and> all_finite (Vb' ! j)"
    and len: "\<And>j. j < n \<Longrightarrow> (h + 1) * head_dim m \<le> length (Vb ! j) \<and>
                                (h + 1) * head_dim m \<le> length (Vb' ! j)"
  shows "head_row_fp m h (Some r) Kb Vb q = head_row_fp m h (Some r) Kb' Vb' q"
proof -
  let ?w = "weight_row_fp (Some r) (logit_row_fp m h q Kb')"
  have w: "weight_row_fp (Some r) (logit_row_fp m h q Kb) = ?w"
    using n eq by (intro weight_row_fp_masked_cong[of _ n]) (simp_all add: logit_row_fp_def)
  have lw: "length ?w = n"
    using n by (simp add: weight_row_fp_def logit_row_fp_def)
  have "dot_fp ?w (map (\<lambda>v. slice (head_dim m) h v ! c) Vb)
      = dot_fp ?w (map (\<lambda>v. slice (head_dim m) h v ! c) Vb')" if c: "c < head_dim m" for c
  proof (rule dot_fp_cong_zero[OF lw])
    fix j assume j: "j < n"
    show "map (\<lambda>v. slice (head_dim m) h v ! c) Vb ! j = map (\<lambda>v. slice (head_dim m) h v ! c) Vb' ! j \<or>
          (?w ! j = Num 0 \<and> is_finite (map (\<lambda>v. slice (head_dim m) h v ! c) Vb ! j) \<and>
           is_finite (map (\<lambda>v. slice (head_dim m) h v ! c) Vb' ! j))"
    proof (cases "r ! j = 0")
      case True
      have "?w ! j = Num 0"
        using weight_row_fp_masked_zero[of r "logit_row_fp m h q Kb'" j] n j True
        by (simp add: logit_row_fp_def)
      moreover have "is_finite (slice (head_dim m) h (Vb ! j) ! c)"
        using fin[OF j True] len[OF j] c by (intro slice_finite) simp_all
      moreover have "is_finite (slice (head_dim m) h (Vb' ! j) ! c)"
        using fin[OF j True] len[OF j] c by (intro slice_finite) simp_all
      ultimately show ?thesis using n j by simp
    next
      case False
      then show ?thesis using eq[OF j] n j by simp
    qed
  qed (simp_all add: n)
  then show ?thesis by (simp add: head_row_fp_def w)
qed

lemma MAB_row_fp_masked_cong:
  assumes wf: "wf_MAB dx dy d m"
    and n: "length r = n" "length Yb = n" "length Yb' = n"
    and eq: "\<And>j. j < n \<Longrightarrow> r ! j \<noteq> 0 \<Longrightarrow> Yb ! j = Yb' ! j"
    and fin: "\<And>j. j < n \<Longrightarrow> r ! j = 0 \<Longrightarrow>
                all_finite (linear_row_fp (fc_v m) (Yb ! j)) \<and>
                all_finite (linear_row_fp (fc_v m) (Yb' ! j))"
  shows "MAB_row_fp m (Some r) Yb x = MAB_row_fp m (Some r) Yb' x"
proof -
  have fv: "wf_Linear dy d (fc_v m)" using wf by (simp add: wf_MAB_def)
  have hd: "nat (num_heads m) * head_dim m = d"
    using wf by (auto simp: wf_MAB_def wf_Linear_def head_dim_def)
  have "head_row_fp m h (Some r) (map (linear_row_fp (fc_k m)) Yb) (map (linear_row_fp (fc_v m)) Yb) q
      = head_row_fp m h (Some r) (map (linear_row_fp (fc_k m)) Yb') (map (linear_row_fp (fc_v m)) Yb') q"
    if h: "h < nat (num_heads m)" for h q
    using n eq fin head_fits[OF hd h]
    by (intro head_row_fp_masked_cong[of _ n]) (simp_all add: length_linear_row_fp[OF fv])
  then have "map (\<lambda>h. head_row_fp m h (Some r) (map (linear_row_fp (fc_k m)) Yb) (map (linear_row_fp (fc_v m)) Yb) q)
               [0..<nat (num_heads m)]
      = map (\<lambda>h. head_row_fp m h (Some r) (map (linear_row_fp (fc_k m)) Yb') (map (linear_row_fp (fc_v m)) Yb') q)
               [0..<nat (num_heads m)]" for q
    by (intro map_cong) simp_all
  then have "attn_row_fp m (Some r) (map (linear_row_fp (fc_k m)) Yb) (map (linear_row_fp (fc_v m)) Yb) q
      = attn_row_fp m (Some r) (map (linear_row_fp (fc_k m)) Yb') (map (linear_row_fp (fc_v m)) Yb') q" for q
    unfolding attn_row_fp_def by (rule arg_cong[where f = concat])
  then show ?thesis by (simp add: MAB_row_fp_def)
qed

text \<open>
  C4, as stated, fails. One query, two keys, the second one masked out; the value
  projection is \<open>x \<mapsto> 10 * x\<close>. With 0 at the masked position the output is 11. With
  the finite value \<^verbatim>\<open>2^127\<close> there, line 45 projects it to \<^verbatim>\<open>inf\<close>, its weight is 0,
  and \<^verbatim>\<open>A @ V_\<close> in line 69 adds \<^verbatim>\<open>0 * inf = NaN\<close>: the output is \<^verbatim>\<open>NaN\<close>.
\<close>

theorem masked_overflow_changes_output:
  "2 ^ 127 < overflow_bound \<and>
   MAB_forward_fp (mab_v 10) [[[Num 1]]] [[[Num 1], [Num 0]]] (Some [[1, 0]])
     = Some [[[Num 11]]] \<and>
   MAB_forward_fp (mab_v 10) [[[Num 1]]] [[[Num 1], [Num (2 ^ 127)]]] (Some [[1, 0]])
     = Some [[[Nan]]] \<and>
   MAB_forward_fp (mab_v 10) [[[Num 1]]] [[[Num 1], [Num 0]]] (Some [[1, 0]])
     \<noteq> MAB_forward_fp (mab_v 10) [[[Num 1]]] [[[Num 1], [Num (2 ^ 127)]]] (Some [[1, 0]])"
  by (simp add: fp_eval_defs)

text \<open>
  C4, amended. For a well-shaped input with a mask, two key/value tensors that agree
  wherever the mask is not 0, and whose value projections \<^verbatim>\<open>fc_v\<close> at the masked
  positions are finite (neither an infinity nor \<^verbatim>\<open>NaN\<close>), give the same output of
  \<^verbatim>\<open>MAB.forward\<close>, and the call returns.
\<close>

theorem MAB_masked_finite_content_irrelevant:
  assumes "wf_MAB dim_X dim_Y dim' m"
    and "wf_tensor b nx dim_X X" and "wf_tensor b ny dim_Y Y" and "wf_tensor b ny dim_Y Y'"
    and "wf_mask b ny (Some mk)" and "0 < b \<longrightarrow> 0 < nx"
    and "\<forall>i < b. \<forall>j < ny. mk ! i ! j \<noteq> 0 \<longrightarrow> Y ! i ! j = Y' ! i ! j"
    and "\<forall>i < b. \<forall>j < ny. mk ! i ! j = 0 \<longrightarrow>
           all_finite (linear_row_fp (fc_v m) (Y ! i ! j)) \<and>
           all_finite (linear_row_fp (fc_v m) (Y' ! i ! j))"
  shows "\<exists>R. MAB_forward_fp m X Y (Some mk) = Some R \<and> MAB_forward_fp m X Y' (Some mk) = Some R"
proof -
  have nx: "Some mk \<noteq> None \<longrightarrow> 0 < b \<longrightarrow> 0 < nx" using assms(6) by simp
  have "tab2 b nx (\<lambda>i j. MAB_row_fp m (mask_row (Some mk) i) (Y ! i) (X ! i ! j))
      = tab2 b nx (\<lambda>i j. MAB_row_fp m (mask_row (Some mk) i) (Y' ! i) (X ! i ! j))"
  proof (rule tab2_cong)
    fix i j assume i: "i < b" and j: "j < nx"
    show "MAB_row_fp m (mask_row (Some mk) i) (Y ! i) (X ! i ! j)
        = MAB_row_fp m (mask_row (Some mk) i) (Y' ! i) (X ! i ! j)"
      unfolding mask_row_def option.map
      using wf_mask_nth[OF assms(5) i] wf_tensor_nth(1)[OF assms(3) i]
        wf_tensor_nth(1)[OF assms(4) i] assms(7,8) i
      by (intro MAB_row_fp_masked_cong[OF assms(1), of _ ny]) simp_all
  qed
  then show ?thesis
    unfolding MAB_forward_rows_fp[OF assms(1,2,3,5) nx] MAB_forward_rows_fp[OF assms(1,2,4,5) nx]
    by simp
qed

text \<open>The second of two keys is masked out and holds 5 in one tensor, 7 in the other.\<close>

theorem MAB_masked_finite_content_irrelevant_witness:
  "wf_MAB 1 1 1 (mab_v 10) \<and> wf_tensor 1 1 1 [[[Num 1]]] \<and> wf_tensor 1 2 1 [[[Num 1], [Num 5]]] \<and>
   wf_tensor 1 2 1 [[[Num 1], [Num 7]]] \<and> wf_mask 1 2 (Some [[1, 0]]) \<and>
   all_finite (linear_row_fp (fc_v (mab_v 10)) [Num 5]) \<and>
   all_finite (linear_row_fp (fc_v (mab_v 10)) [Num 7]) \<and>
   (\<exists>R. MAB_forward_fp (mab_v 10) [[[Num 1]]] [[[Num 1], [Num 5]]] (Some [[1, 0]]) = Some R \<and>
        MAB_forward_fp (mab_v 10) [[[Num 1]]] [[[Num 1], [Num 7]]] (Some [[1, 0]]) = Some R)"
proof -
  have 2: "wf_tensor 1 1 1 [[[Num 1]]]" by (simp add: wf_tensor_def)
  have 3: "wf_tensor 1 2 1 [[[Num 1], [Num 5]]]" by (simp add: wf_tensor_def)
  have 4: "wf_tensor 1 2 1 [[[Num 1], [Num 7]]]" by (simp add: wf_tensor_def)
  have 5: "wf_mask 1 2 (Some [[1, 0]])" by (simp add: wf_mask_def)
  have 6: "(0::nat) < 1 \<longrightarrow> (0::nat) < 1" by simp
  have 7: "\<forall>i < 1. \<forall>j < 2. [[1, 0::real]] ! i ! j \<noteq> 0 \<longrightarrow>
             [[[Num 1], [Num 5]]] ! i ! j = [[[Num 1], [Num 7]]] ! i ! j"
    by (simp add: less_Suc_eq numeral_2_eq_2)
  have f5: "all_finite (linear_row_fp (fc_v (mab_v 10)) [Num 5])"
    by (simp add: all_finite_def fp_eval_defs)
  have f7: "all_finite (linear_row_fp (fc_v (mab_v 10)) [Num 7])"
    by (simp add: all_finite_def fp_eval_defs)
  have 8: "\<forall>i < 1. \<forall>j < 2. [[1, 0::real]] ! i ! j = 0 \<longrightarrow>
             all_finite (linear_row_fp (fc_v (mab_v 10)) ([[[Num 1], [Num 5]]] ! i ! j)) \<and>
             all_finite (linear_row_fp (fc_v (mab_v 10)) ([[[Num 1], [Num 7]]] ! i ! j))"
    using f5 f7 by (simp add: less_Suc_eq numeral_2_eq_2)
  show ?thesis
    using MAB_masked_finite_content_irrelevant[OF wf_mab_v 2 3 4 5 6 7 8] wf_mab_v[of 10] 2 3 4 5 f5 f7
    by blast
qed

section \<open>A set with every element masked out\<close>

lemma MAB_steps_fp:
  assumes wf: "wf_MAB dx dy d m"
    and X: "wf_tensor b nx dx X" and Y: "wf_tensor b ny dy Y"
    and msk: "wf_mask b ny msk"
    and nx: "msk \<noteq> None \<longrightarrow> 0 < b \<longrightarrow> 0 < nx"
  shows "apply_linear_fp (fc_q m) X = Some (tab2 b nx (\<lambda>i j. linear_row_fp (fc_q m) (X ! i ! j)))"
    and "apply_linear_fp (fc_k m) Y = Some (tab2 b ny (\<lambda>i j. linear_row_fp (fc_k m) (Y ! i ! j)))"
    and "apply_linear_fp (fc_v m) Y = Some (tab2 b ny (\<lambda>i j. linear_row_fp (fc_v m) (Y ! i ! j)))"
    and "MAB_attn_fp m (tab2 b nx (\<lambda>i j. linear_row_fp (fc_q m) (X ! i ! j)))
           (tab2 b ny (\<lambda>i j. linear_row_fp (fc_k m) (Y ! i ! j)))
           (tab2 b ny (\<lambda>i j. linear_row_fp (fc_v m) (Y ! i ! j))) msk
         = Some (tab2 b nx (\<lambda>i j. attn_row_fp m (mask_row msk i)
                   (map (linear_row_fp (fc_k m)) (Y ! i)) (map (linear_row_fp (fc_v m)) (Y ! i))
                   (linear_row_fp (fc_q m) (X ! i ! j))))"
proof -
  have fq: "wf_Linear dx d (fc_q m)" and fk: "wf_Linear dy d (fc_k m)"
    and fv: "wf_Linear dy d (fc_v m)"
    using wf by (auto simp: wf_MAB_def)
  have Xt: "X = tab2 b nx (\<lambda>i j. X ! i ! j)" by (rule wf_tensor_tab2[OF X])
  have Yt: "Y = tab2 b ny (\<lambda>i j. Y ! i ! j)" by (rule wf_tensor_tab2[OF Y])
  have lX: "\<And>i j. i < b \<Longrightarrow> j < nx \<Longrightarrow> length (X ! i ! j) = dx"
    using wf_tensor_nth[OF X] by simp
  have lY: "\<And>i j. i < b \<Longrightarrow> j < ny \<Longrightarrow> length (Y ! i ! j) = dy"
    using wf_tensor_nth[OF Y] by simp
  have lYi: "\<And>i. i < b \<Longrightarrow> length (Y ! i) = ny"
    using wf_tensor_nth[OF Y] by simp
  let ?q = "\<lambda>i j. linear_row_fp (fc_q m) (X ! i ! j)"
  let ?k = "\<lambda>i j. linear_row_fp (fc_k m) (Y ! i ! j)"
  let ?v = "\<lambda>i j. linear_row_fp (fc_v m) (Y ! i ! j)"
  show "apply_linear_fp (fc_q m) X = Some (tab2 b nx ?q)"
    using apply_linear_tab2_fp[of b nx "\<lambda>i j. X ! i ! j" "fc_q m"] lX fq Xt
    by (simp add: wf_Linear_def)
  show "apply_linear_fp (fc_k m) Y = Some (tab2 b ny ?k)"
    using apply_linear_tab2_fp[of b ny "\<lambda>i j. Y ! i ! j" "fc_k m"] lY fk Yt
    by (simp add: wf_Linear_def)
  show "apply_linear_fp (fc_v m) Y = Some (tab2 b ny ?v)"
    using apply_linear_tab2_fp[of b ny "\<lambda>i j. Y ! i ! j" "fc_v m"] lY fv Yt
    by (simp add: wf_Linear_def)
  let ?a = "\<lambda>i j. attn_row_fp m (mask_row msk i) (map (?k i) [0..<ny]) (map (?v i) [0..<ny]) (?q i j)"
  have At: "MAB_attn_fp m (tab2 b nx ?q) (tab2 b ny ?k) (tab2 b ny ?v) msk = Some (tab2 b nx ?a)"
    by (rule MAB_attn_tab2_fp[OF wf _ _ _ msk nx])
       (simp_all add: length_linear_row_fp[OF fq] length_linear_row_fp[OF fk] length_linear_row_fp[OF fv])
  have "tab2 b nx ?a = tab2 b nx (\<lambda>i j. attn_row_fp m (mask_row msk i)
                   (map (linear_row_fp (fc_k m)) (Y ! i)) (map (linear_row_fp (fc_v m)) (Y ! i)) (?q i j))"
  proof (rule tab2_cong)
    fix i j assume i: "i < b" and "j < nx"
    have "map (?k i) [0..<ny] = map (linear_row_fp (fc_k m)) (Y ! i)"
      using map_conv_nth[of "linear_row_fp (fc_k m)" "Y ! i"] lYi[OF i] by simp
    moreover have "map (?v i) [0..<ny] = map (linear_row_fp (fc_v m)) (Y ! i)"
      using map_conv_nth[of "linear_row_fp (fc_v m)" "Y ! i"] lYi[OF i] by simp
    ultimately show "?a i j = attn_row_fp m (mask_row msk i)
                   (map (linear_row_fp (fc_k m)) (Y ! i)) (map (linear_row_fp (fc_v m)) (Y ! i)) (?q i j)"
      by simp
  qed
  then show "MAB_attn_fp m (tab2 b nx ?q) (tab2 b ny ?k) (tab2 b ny ?v) msk
         = Some (tab2 b nx (\<lambda>i j. attn_row_fp m (mask_row msk i)
                   (map (linear_row_fp (fc_k m)) (Y ! i)) (map (linear_row_fp (fc_v m)) (Y ! i))
                   (?q i j)))"
    using At by simp
qed

lemma weight_row_fp_all_masked:
  assumes "length r = length l" "\<And>j. j < length l \<Longrightarrow> r ! j = 0"
  shows "weight_row_fp (Some r) l = replicate (length l) (Num 0)"
proof (rule nth_equalityI)
  show "length (weight_row_fp (Some r) l) = length (replicate (length l) (Num 0))"
    using assms(1) by (simp add: weight_row_fp_def)
next
  fix j assume "j < length (weight_row_fp (Some r) l)"
  then have j: "j < length l" using assms(1) by (simp add: weight_row_fp_def)
  show "weight_row_fp (Some r) l ! j = replicate (length l) (Num 0) ! j"
    using weight_row_fp_masked_zero[OF assms(1) j assms(2)[OF j]] j by simp
qed

lemma fp_sum_zeros: "foldl fp_add (Num 0) (replicate n (Num 0)) = Num 0"
  by (induction n) simp_all

lemma dot_fp_zero_left:
  assumes "\<And>k. k < length c \<Longrightarrow> is_finite (c ! k)"
  shows "dot_fp (replicate (length c) (Num 0)) c = Num 0"
proof -
  have "map2 fp_mul (replicate (length c) (Num 0)) c = replicate (length c) (Num 0)"
    using assms by (intro nth_equalityI) (simp_all add: fp_mul_zero_finite)
  then show ?thesis by (simp add: dot_fp_def fp_sum_def fp_sum_zeros)
qed

lemma concat_zero_blocks_fp:
  "concat (map (\<lambda>h. replicate s (Num 0)) [0..<n]) = replicate (n * s) (Num 0)"
proof -
  have "concat (replicate n (replicate s (Num 0))) = replicate (n * s) (Num 0)"
    by (induction n) (simp_all add: replicate_add[symmetric])
  then show ?thesis by (simp add: map_replicate_trivial)
qed

lemma attn_row_fp_all_masked:
  assumes wf: "wf_MAB dx dy d m"
    and r: "length r = length Kb" "\<And>j. j < length Kb \<Longrightarrow> r ! j = 0"
    and V: "length Vb = length Kb"
      "\<And>j. j < length Kb \<Longrightarrow> length (Vb ! j) = d \<and> all_finite (Vb ! j)"
  shows "attn_row_fp m (Some r) Kb Vb q = replicate d (Num 0)"
proof -
  have hd: "nat (num_heads m) * head_dim m = d"
    using wf by (auto simp: wf_MAB_def wf_Linear_def head_dim_def)
  have w: "weight_row_fp (Some r) (logit_row_fp m h q Kb) = replicate (length Vb) (Num 0)" for h
    using weight_row_fp_all_masked[of r "logit_row_fp m h q Kb"] r V(1)
    by (simp add: logit_row_fp_def)
  have "head_row_fp m h (Some r) Kb Vb q = replicate (head_dim m) (Num 0)"
    if h: "h < nat (num_heads m)" for h
  proof -
    have "dot_fp (replicate (length Vb) (Num 0)) (map (\<lambda>v. slice (head_dim m) h v ! c) Vb) = Num 0"
      if c: "c < head_dim m" for c
    proof -
      have "is_finite (map (\<lambda>v. slice (head_dim m) h v ! c) Vb ! k)" if k: "k < length Vb" for k
      proof -
        have "is_finite (slice (head_dim m) h (Vb ! k) ! c)"
          using V(2)[of k] k V(1) head_fits[OF hd h] c by (intro slice_finite) simp_all
        then show ?thesis using k by simp
      qed
      then show ?thesis
        using dot_fp_zero_left[of "map (\<lambda>v. slice (head_dim m) h v ! c) Vb"] by simp
    qed
    then have "map (\<lambda>c. dot_fp (replicate (length Vb) (Num 0))
                      (map (\<lambda>v. slice (head_dim m) h v ! c) Vb)) [0..<head_dim m]
               = map (\<lambda>c. Num 0) [0..<head_dim m]"
      by (intro map_cong) simp_all
    then show ?thesis by (simp add: head_row_fp_def w map_replicate_trivial)
  qed
  then have "map (\<lambda>h. head_row_fp m h (Some r) Kb Vb q) [0..<nat (num_heads m)]
             = map (\<lambda>h. replicate (head_dim m) (Num 0)) [0..<nat (num_heads m)]"
    by (intro map_cong) simp_all
  then have "attn_row_fp m (Some r) Kb Vb q
             = concat (map (\<lambda>h. replicate (head_dim m) (Num 0)) [0..<nat (num_heads m)])"
    unfolding attn_row_fp_def by (rule arg_cong[where f = concat])
  then show ?thesis using hd by (simp add: concat_zero_blocks_fp)
qed

text \<open>
  C2, as stated, fails: with the only key masked out and \<^verbatim>\<open>residual=True\<close>, the output
  row is the projected query 1, not 0.
\<close>

theorem all_masked_output_not_zero:
  "MAB_forward (mab1 1 True) [[[1]]] [[[1]]] (Some [[0]]) = Some [[[1]]] \<and>
   MAB_forward (mab1 1 True) [[[1]]] [[[1]]] (Some [[0]]) \<noteq> Some [[[0]]]"
  by (simp add: eval_defs)

text \<open>The same call over \<^verbatim>\<open>float32\<close> values.\<close>

lemma all_masked_output_one_fp:
  "MAB_forward_fp (mab1 1 True) [[[Num 1]]] [[[Num 1]]] (Some [[0]]) = Some [[[Num 1]]]"
  by (simp add: fp_eval_defs)

text \<open>
  C2, amended. On a well-shaped input whose mask row for batch element \<open>i\<close> is entirely
  0 and whose value projections \<^verbatim>\<open>fc_v\<close> for that batch element are finite,
  \<^verbatim>\<open>MAB.forward\<close> returns, the attention output \<^verbatim>\<open>attn\<close> of that batch element is
  exactly 0 (of shape \<^verbatim>\<open>[nx, dim]\<close>, with no infinity and no \<^verbatim>\<open>NaN\<close>), and the output
  of that batch element is the combination step (lines 71 to 76) of its projected
  queries with this zero attention.
\<close>

theorem all_masked_finite_attention_zero:
  assumes "wf_MAB dim_X dim_Y dim' m"
    and "wf_tensor b nx dim_X X" and "wf_tensor b ny dim_Y Y"
    and "wf_mask b ny (Some mk)" and "0 < nx"
    and "i < b" and "\<forall>j < ny. mk ! i ! j = 0"
    and "\<forall>j < ny. all_finite (linear_row_fp (fc_v m) (Y ! i ! j))"
  shows "\<exists>Q K V attn R.
           apply_linear_fp (fc_q m) X = Some Q \<and> apply_linear_fp (fc_k m) Y = Some K \<and>
           apply_linear_fp (fc_v m) Y = Some V \<and>
           MAB_attn_fp m Q K V (Some mk) = Some attn \<and>
           attn ! i = replicate nx (replicate dim' (Num 0)) \<and>
           MAB_forward_fp m X Y (Some mk) = Some R \<and>
           MAB_combine_fp m [Q ! i] [attn ! i] = Some [R ! i]"
proof -
  have nx: "Some mk \<noteq> None \<longrightarrow> 0 < b \<longrightarrow> 0 < nx" using assms(5) by simp
  have fv: "wf_Linear dim_Y dim' (fc_v m)" using assms(1) by (simp add: wf_MAB_def)
  note st = MAB_steps_fp[OF assms(1,2,3,4) nx]
  let ?q = "\<lambda>i j. linear_row_fp (fc_q m) (X ! i ! j)"
  let ?a = "\<lambda>i j. attn_row_fp m (mask_row (Some mk) i)
                   (map (linear_row_fp (fc_k m)) (Y ! i)) (map (linear_row_fp (fc_v m)) (Y ! i)) (?q i j)"
  have lq: "\<And>i j. length (?q i j) = dim'"
    using assms(1) length_linear_row_fp unfolding wf_MAB_def by blast
  have la: "\<And>i j. length (?a i j) = dim'" by (simp add: length_attn_row_fp[OF assms(1)])
  have zero: "?a i j = replicate dim' (Num 0)" for j
    unfolding mask_row_def option.map
    using wf_mask_nth[OF assms(4,6)] wf_tensor_nth(1)[OF assms(3,6)] assms(7,8)
    by (intro attn_row_fp_all_masked[OF assms(1)]) (simp_all add: length_linear_row_fp[OF fv])
  have ai: "tab2 b nx ?a ! i = replicate nx (replicate dim' (Num 0))"
    using assms(6) by (simp add: zero map_replicate_trivial)
  have one: "[tab2 b nx f ! i] = tab2 1 nx (\<lambda>_ j. f i j)" for f :: "nat \<Rightarrow> nat \<Rightarrow> fvec"
    using assms(6) by (simp add: tab2_def)
  have comb: "MAB_combine_fp m [tab2 b nx ?q ! i] [tab2 b nx ?a ! i]
              = Some (tab2 1 nx (\<lambda>_ j. combine_row_fp m (?q i j) (?a i j)))"
    unfolding one by (rule MAB_combine_tab2_fp[OF assms(1)]) (simp_all add: lq la)
  have R: "MAB_forward_fp m X Y (Some mk)
           = Some (tab2 b nx (\<lambda>i j. MAB_row_fp m (mask_row (Some mk) i) (Y ! i) (X ! i ! j)))"
    by (rule MAB_forward_rows_fp[OF assms(1,2,3,4) nx])
  have "tab2 1 nx (\<lambda>_ j. combine_row_fp m (?q i j) (?a i j))
        = [tab2 b nx (\<lambda>i j. MAB_row_fp m (mask_row (Some mk) i) (Y ! i) (X ! i ! j)) ! i]"
    unfolding one by (simp add: MAB_row_fp_def Let_def)
  then have comb2: "MAB_combine_fp m [tab2 b nx ?q ! i] [tab2 b nx ?a ! i]
      = Some [tab2 b nx (\<lambda>i j. MAB_row_fp m (mask_row (Some mk) i) (Y ! i) (X ! i ! j)) ! i]"
    using comb by simp
  show ?thesis using st(1) st(2) st(3) st(4) ai R comb2 by blast
qed

text \<open>One query, one key, and the mask 0 for it.\<close>

theorem all_masked_finite_attention_zero_witness:
  "wf_MAB 1 1 1 (mab_v 10) \<and> wf_tensor 1 1 1 [[[Num 1]]] \<and> wf_mask 1 1 (Some [[0]]) \<and>
   all_finite (linear_row_fp (fc_v (mab_v 10)) [Num 1]) \<and>
   (\<exists>Q K V attn R.
      apply_linear_fp (fc_q (mab_v 10)) [[[Num 1]]] = Some Q \<and>
      apply_linear_fp (fc_k (mab_v 10)) [[[Num 1]]] = Some K \<and>
      apply_linear_fp (fc_v (mab_v 10)) [[[Num 1]]] = Some V \<and>
      MAB_attn_fp (mab_v 10) Q K V (Some [[0]]) = Some attn \<and>
      attn ! 0 = replicate 1 (replicate 1 (Num 0)) \<and>
      MAB_forward_fp (mab_v 10) [[[Num 1]]] [[[Num 1]]] (Some [[0]]) = Some R \<and>
      MAB_combine_fp (mab_v 10) [Q ! 0] [attn ! 0] = Some [R ! 0])"
proof -
  have 2: "wf_tensor 1 1 1 [[[Num 1]]]" by (simp add: wf_tensor_def)
  have 4: "wf_mask 1 1 (Some [[0]])" by (simp add: wf_mask_def)
  have 5: "(0::nat) < 1" and 6: "(0::nat) < 1" by simp_all
  have 7: "\<forall>j < 1. [[0::real]] ! 0 ! j = 0" by simp
  have f1: "all_finite (linear_row_fp (fc_v (mab_v 10)) [Num 1])"
    by (simp add: all_finite_def fp_eval_defs)
  have 8: "\<forall>j < 1. all_finite (linear_row_fp (fc_v (mab_v 10)) ([[[Num 1]]] ! 0 ! j))"
    using f1 by simp
  show ?thesis
    using all_masked_finite_attention_zero[OF wf_mab_v 2 2 4 5 6 7 8] wf_mab_v[of 10] 2 4 f1
    by blast
qed

text \<open>
  The values must be finite after the projection: a key \<^verbatim>\<open>2^127\<close> that \<^verbatim>\<open>fc_v\<close> takes
  to \<^verbatim>\<open>inf\<close> meets the weight 0 in \<^verbatim>\<open>A @ V_\<close>, and the row is \<^verbatim>\<open>NaN\<close>.
\<close>

lemma all_masked_overflow_nan:
  "MAB_forward_fp (mab_v 10) [[[Num 1]]] [[[Num (2 ^ 127)]]] (Some [[0]]) = Some [[[Nan]]]"
  by (simp add: fp_eval_defs)

end
